(* ===== verification/Prelude.thy ===== *)
theory Prelude
  imports Main "HOL-Library.Word" "HOL-Library.AList" "HOL-Library.Sublist"
begin

unbundle bit_operations_syntax

text \<open>
  The shared vocabulary of the development. A Go byte, \<open>uint16\<close> and \<open>uint32\<close> is a word of
  its width, a Go string is an Isabelle \<open>string\<close> whose characters are its bytes, and a
  byte slice is a list of bytes. The big-endian accessors of \<open>encoding/binary\<close> are written
  out as shifts and masks. Points in time are integers (nanoseconds), durations are
  integers brought back into the range of \<open>int64\<close> where the code multiplies them.

  The collection \<open>wire\<close> gathers the equations that read back what was written; \<open>alist\<close>
  the facts on association lists, which model Go maps whose range loops matter.
\<close>

named_theorems wire "reading back written bytes"
named_theorems alist "association lists as Go maps"

subsection \<open>Bytes, characters and words\<close>

type_synonym byte = "8 word"
type_synonym u16 = "16 word"
type_synonym u32 = "32 word"
type_synonym u64 = "64 word"

definition byte_of_char :: "char \<Rightarrow> byte" where
  "byte_of_char c = of_nat (of_char c)"

definition char_of_byte :: "byte \<Rightarrow> char" where
  "char_of_byte b = char_of (unat b)"

lemma unat_byte_less: "unat (b :: byte) < 256"
  using unsigned_less [of b] by simp

lemma char_of_byte_of_char [simp]: "char_of_byte (byte_of_char c) = c"
  by (simp add: char_of_byte_def byte_of_char_def unat_of_nat)

lemma byte_of_char_of_byte [simp]: "byte_of_char (char_of_byte b) = b"
  using unat_byte_less [of b] by (simp add: char_of_byte_def byte_of_char_def)

lemma unat_byte_of_char: "unat (byte_of_char c) = of_char c"
  by (simp add: byte_of_char_def unat_of_nat)

text \<open>The conversions \<open>[]byte(s)\<close> and \<open>string(bs)\<close>.\<close>

definition bytes_of :: "string \<Rightarrow> byte list" where
  "bytes_of s = map byte_of_char s"

definition string_of :: "byte list \<Rightarrow> string" where
  "string_of bs = map char_of_byte bs"

lemma string_of_bytes_of [simp]: "string_of (bytes_of s) = s"
  by (simp add: bytes_of_def string_of_def comp_def)

lemma bytes_of_string_of [simp]: "bytes_of (string_of bs) = bs"
  by (simp add: bytes_of_def string_of_def comp_def)

lemma length_bytes_of [simp]: "length (bytes_of s) = length s"
  by (simp add: bytes_of_def)

lemma length_string_of [simp]: "length (string_of bs) = length bs"
  by (simp add: string_of_def)

lemma bytes_of_Nil [simp]: "bytes_of [] = []" and bytes_of_eq_Nil [simp]: "bytes_of s = [] \<longleftrightarrow> s = []"
  by (simp_all add: bytes_of_def)

lemma bytes_of_append [simp]: "bytes_of (s @ t) = bytes_of s @ bytes_of t"
  by (simp add: bytes_of_def)

lemma string_of_append [simp]: "string_of (s @ t) = string_of s @ string_of t"
  by (simp add: string_of_def)

lemma string_of_Nil [simp]: "string_of [] = []"
  by (simp add: string_of_def)

lemma bytes_of_Cons: "bytes_of (c # s) = byte_of_char c # bytes_of s"
  by (simp add: bytes_of_def)

lemma string_of_Cons: "string_of (b # bs) = char_of_byte b # string_of bs"
  by (simp add: string_of_def)

subsection \<open>Big-endian integers\<close>

definition get16 :: "byte \<Rightarrow> byte \<Rightarrow> u16" where
  "get16 a b = push_bit 8 (ucast a) OR ucast b"

definition get32 :: "byte \<Rightarrow> byte \<Rightarrow> byte \<Rightarrow> byte \<Rightarrow> u32" where
  "get32 a b c d =
     push_bit 24 (ucast a) OR push_bit 16 (ucast b) OR push_bit 8 (ucast c) OR ucast d"

definition put16 :: "u16 \<Rightarrow> byte list" where
  "put16 w = [ucast (drop_bit 8 w), ucast w]"

definition put32 :: "u32 \<Rightarrow> byte list" where
  "put32 w = [ucast (drop_bit 24 w), ucast (drop_bit 16 w), ucast (drop_bit 8 w), ucast w]"

lemma length_put16 [simp]: "length (put16 w) = 2"
  by (simp add: put16_def)

lemma length_put32 [simp]: "length (put32 w) = 4"
  by (simp add: put32_def)

lemma get16_put16 [wire]: "get16 (ucast (drop_bit 8 w)) (ucast w) = w"
  unfolding get16_def by (rule bit_word_eqI) (auto simp: bit_simps)

lemma get32_put32 [wire]:
  "get32 (ucast (drop_bit 24 w)) (ucast (drop_bit 16 w)) (ucast (drop_bit 8 w)) (ucast w) = w"
proof (rule bit_word_eqI)
  fix n
  assume "n < LENGTH(32)"
  then consider "n < 8" | "8 \<le> n" "n < 16" | "16 \<le> n" "n < 24" | "24 \<le> n" "n < 32"
    by fastforce
  then show "bit (get32 (ucast (drop_bit 24 w)) (ucast (drop_bit 16 w))
                 (ucast (drop_bit 8 w)) (ucast w)) n \<longleftrightarrow> bit w n"
    by cases (auto simp: get32_def bit_simps)
qed

lemma put16_get16 [wire]: "put16 (get16 a b) = [a, b]"
proof -
  have "ucast (drop_bit 8 (get16 a b)) = a"
    unfolding get16_def by (rule bit_word_eqI) (auto simp: bit_simps dest: bit_imp_le_length)
  moreover have "ucast (get16 a b) = b"
    unfolding get16_def by (rule bit_word_eqI) (auto simp: bit_simps)
  ultimately show ?thesis by (simp add: put16_def)
qed

text \<open>Reading a field of a buffer at an offset; the callers have checked the bounds.\<close>

definition be16 :: "byte list \<Rightarrow> nat \<Rightarrow> u16" where
  "be16 buf i = get16 (buf ! i) (buf ! (i + 1))"

definition be32 :: "byte list \<Rightarrow> nat \<Rightarrow> u32" where
  "be32 buf i = get32 (buf ! i) (buf ! (i + 1)) (buf ! (i + 2)) (buf ! (i + 3))"

lemma be16_at [wire]: "be16 (xs @ put16 w @ ys) (length xs) = w"
  by (simp add: be16_def put16_def nth_append get16_put16)

lemma be32_at [wire]: "be32 (xs @ put32 w @ ys) (length xs) = w"
  by (simp add: be32_def put32_def nth_append get32_put32)

subsection \<open>Slices\<close>

text \<open>\<open>slice xs i j\<close> is \<open>xs[i:j]\<close> for \<open>i <= j <= len(xs)\<close>.\<close>

definition slice :: "'a list \<Rightarrow> nat \<Rightarrow> nat \<Rightarrow> 'a list" where
  "slice xs i j = take (j - i) (drop i xs)"

lemma length_slice: "j \<le> length xs \<Longrightarrow> length (slice xs i j) = j - i"
  by (simp add: slice_def)

lemma slice_at: "slice (xs @ ys @ zs) (length xs) (length xs + length ys) = ys"
  by (simp add: slice_def)

lemma slice_append: "j \<le> length xs \<Longrightarrow> slice (xs @ ys) i j = slice xs i j"
  by (simp add: slice_def)

subsection \<open>Machine integers and time\<close>

definition wrap64 :: "int \<Rightarrow> int" where
  "wrap64 i = (i + 2 ^ 63) mod 2 ^ 64 - 2 ^ 63"

lemma wrap64_id: "- (2 ^ 63) \<le> i \<Longrightarrow> i < 2 ^ 63 \<Longrightarrow> wrap64 i = i"
  by (simp add: wrap64_def)

text \<open>One second, in the nanoseconds that \<open>time.Duration\<close> counts.\<close>

definition second :: int where
  "second = 1000000000"

text \<open>\<open>t.Sub(u)\<close>: the difference, saturated at the range of a duration.\<close>

definition time_sub :: "int \<Rightarrow> int \<Rightarrow> int" where
  "time_sub t u = max (- (2 ^ 63)) (min (2 ^ 63 - 1) (t - u))"

lemma time_sub_id: "- (2 ^ 63) \<le> t - u \<Longrightarrow> t - u < 2 ^ 63 \<Longrightarrow> time_sub t u = t - u"
  by (simp add: time_sub_def)

subsection \<open>Hashing\<close>

text \<open>One round of the FNV-1a hash, by which the cache and the connection pools choose a shard.\<close>

definition fnv_byte :: "u32 \<Rightarrow> byte \<Rightarrow> u32" where
  "fnv_byte h b = (h XOR ucast b) * 16777619"

lemma unat_and_mask_less: "unat (w AND mask n :: u32) < 2 ^ n"
  using take_bit_nat_less_exp [of n "unat w"]
  by (simp only: take_bit_eq_mask [symmetric] unsigned_take_bit_eq)

subsection \<open>Association lists as maps\<close>

lemma map_of_update [alist]: "map_of (AList.update k v m) k' = (if k' = k then Some v else map_of m k')"
  by (simp add: AList.update_conv')

lemma map_of_delete [alist]: "map_of (AList.delete k m) k' = (if k' = k then None else map_of m k')"
  by (simp add: AList.delete_conv')

lemma map_of_filter_distinct [alist]:
  "distinct (map fst m) \<Longrightarrow>
   map_of (filter (\<lambda>(k, v). P k v) m) k =
     (case map_of m k of None \<Rightarrow> None | Some v \<Rightarrow> if P k v then Some v else None)"
  by (induction m) (auto split: option.splits simp: map_of_eq_None_iff rev_image_eqI)

lemma distinct_filter_fst [alist]: "distinct (map fst m) \<Longrightarrow> distinct (map fst (filter P m))"
  by (simp add: distinct_map_filter)

lemma map_of_None_length_update [alist]:
  "map_of m k = None \<Longrightarrow> length (AList.update k v m) = Suc (length m)"
  by (induction m) (auto split: if_splits)

lemma map_of_Some_length_update [alist]:
  "map_of m k = Some w \<Longrightarrow> length (AList.update k v m) = length m"
  by (induction m) (auto split: if_splits)

lemma length_delete_in [alist]:
  "distinct (map fst m) \<Longrightarrow> map_of m k \<noteq> None \<Longrightarrow> length (AList.delete k m) = length m - 1"
proof (induction m)
  case Nil
  then show ?case by simp
next
  case (Cons p m)
  show ?case
  proof (cases "fst p = k")
    case True
    with Cons.prems have "map_of m k = None" by (auto simp: map_of_eq_None_iff)
    then have "AList.delete k m = m"
      by (simp add: AList.delete_eq filter_id_conv map_of_eq_None_iff) force
    with True show ?thesis by (cases p) simp
  next
    case False
    with Cons have "map_of m k \<noteq> None" by (cases p) simp
    then have "length m > 0" by (cases m) auto
    with False Cons \<open>map_of m k \<noteq> None\<close> show ?thesis by (cases p) simp
  qed
qed

end
