(* ===== verification/GoStrings.thy ===== *)
theory GoStrings
  imports Prelude
begin

text \<open>
  The operations of Go's package \<open>strings\<close> that the program calls. Those that compare bytes
  are exact on every string. \<open>ToLower\<close>, \<open>ToUpper\<close>, \<open>EqualFold\<close>, \<open>TrimSpace\<close> and \<open>Fields\<close>
  decode UTF-8 and consult the Unicode tables as soon as a byte is not ASCII: they are
  exact on ASCII strings, and on every other string they are constants of which nothing is
  known, so that no lemma below depends on the Unicode tables.
\<close>

subsection \<open>ASCII\<close>

definition ascii_char :: "char \<Rightarrow> bool" where
  "ascii_char c \<longleftrightarrow> of_char c < (128 :: nat)"

definition is_ascii :: "string \<Rightarrow> bool" where
  "is_ascii s \<longleftrightarrow> list_all ascii_char s"

lemma is_ascii_simps [simp]:
  "is_ascii []"
  "is_ascii (c # s) \<longleftrightarrow> ascii_char c \<and> is_ascii s"
  "is_ascii (s @ t) \<longleftrightarrow> is_ascii s \<and> is_ascii t"
  by (simp_all add: is_ascii_def)

definition unicode_op :: "string \<Rightarrow> string \<Rightarrow> string" where
  "unicode_op name s = undefined name s"

definition unicode_fields :: "string \<Rightarrow> string list" where
  "unicode_fields s = undefined s"

definition unicode_equal_fold :: "string \<Rightarrow> string \<Rightarrow> bool" where
  "unicode_equal_fold s t = undefined s t"

definition lower_char :: "char \<Rightarrow> char" where
  "lower_char c = (let n = of_char c :: nat in if 65 \<le> n \<and> n \<le> 90 then char_of (n + 32) else c)"

definition upper_char :: "char \<Rightarrow> char" where
  "upper_char c = (let n = of_char c :: nat in if 97 \<le> n \<and> n \<le> 122 then char_of (n - 32) else c)"

definition to_lower :: "string \<Rightarrow> string" where
  "to_lower s = (if is_ascii s then map lower_char s else unicode_op ''ToLower'' s)"

definition to_upper :: "string \<Rightarrow> string" where
  "to_upper s = (if is_ascii s then map upper_char s else unicode_op ''ToUpper'' s)"

definition equal_fold :: "string \<Rightarrow> string \<Rightarrow> bool" where
  "equal_fold s t =
     (if is_ascii s \<and> is_ascii t then map lower_char s = map lower_char t
      else unicode_equal_fold s t)"

lemma of_char_lower:
  "(of_char (lower_char c) :: nat) =
     (if 65 \<le> (of_char c :: nat) \<and> (of_char c :: nat) \<le> 90 then of_char c + 32 else of_char c)"
  by (simp add: lower_char_def Let_def)

lemma lower_char_idem [simp]: "lower_char (lower_char c) = lower_char c"
  by (rule of_char_eqI [where 'a = nat]) (auto simp: of_char_lower simp del: of_char_eq_iff)

lemma lower_char_dot [simp]: "lower_char CHR ''.'' = CHR ''.''"
  by (simp add: lower_char_def)

lemma lower_char_eq_dot [simp]: "lower_char c = CHR ''.'' \<longleftrightarrow> c = CHR ''.''"
proof
  assume "lower_char c = CHR ''.''"
  then have "(of_char (lower_char c) :: nat) = 46" by simp
  then have "(of_char c :: nat) = of_char CHR ''.''" by (auto simp: of_char_lower split: if_splits)
  then show "c = CHR ''.''" by (rule of_char_eqI [where 'a = nat])
qed simp

lemma dot_in_lower [simp]: "CHR ''.'' \<in> lower_char ` A \<longleftrightarrow> CHR ''.'' \<in> A"
  by (metis imageE imageI lower_char_dot lower_char_eq_dot)

lemma ascii_lower_char [simp]: "ascii_char (lower_char c) \<longleftrightarrow> ascii_char c"
  by (auto simp: ascii_char_def of_char_lower)

lemma is_ascii_map_lower [simp]: "is_ascii (map lower_char s) \<longleftrightarrow> is_ascii s"
  by (simp add: is_ascii_def list_all_iff)

lemma to_lower_ascii: "is_ascii s \<Longrightarrow> to_lower s = map lower_char s"
  by (simp add: to_lower_def)

lemma to_lower_Nil [simp]: "to_lower [] = []"
  by (simp add: to_lower_def)

lemma to_lower_idem: "is_ascii s \<Longrightarrow> to_lower (to_lower s) = to_lower s"
  by (simp add: to_lower_def comp_def)

lemma length_to_lower: "is_ascii s \<Longrightarrow> length (to_lower s) = length s"
  by (simp add: to_lower_def)

lemma is_ascii_to_lower: "is_ascii s \<Longrightarrow> is_ascii (to_lower s)"
  by (simp add: to_lower_def)

lemma to_lower_append: "is_ascii s \<Longrightarrow> is_ascii t \<Longrightarrow> to_lower (s @ t) = to_lower s @ to_lower t"
  by (simp add: to_lower_def)

lemma equal_fold_ascii:
  "is_ascii s \<Longrightarrow> is_ascii t \<Longrightarrow> equal_fold s t \<longleftrightarrow> to_lower s = to_lower t"
  by (simp add: equal_fold_def to_lower_def)

subsection \<open>Prefixes and suffixes\<close>

definition has_prefix :: "string \<Rightarrow> string \<Rightarrow> bool" where
  "has_prefix s p \<longleftrightarrow> prefix p s"

definition has_suffix :: "string \<Rightarrow> string \<Rightarrow> bool" where
  "has_suffix s p \<longleftrightarrow> suffix p s"

definition trim_prefix :: "string \<Rightarrow> string \<Rightarrow> string" where
  "trim_prefix s p = (if has_prefix s p then drop (length p) s else s)"

definition trim_suffix :: "string \<Rightarrow> string \<Rightarrow> string" where
  "trim_suffix s p = (if has_suffix s p then take (length s - length p) s else s)"

lemma trim_suffix_append [simp]: "trim_suffix (s @ p) p = s"
  by (simp add: trim_suffix_def has_suffix_def suffix_def)

lemma trim_suffix_none: "\<not> suffix p s \<Longrightarrow> trim_suffix s p = s"
  by (simp add: trim_suffix_def has_suffix_def)

lemma suffix_dot_iff: "suffix ''.'' s \<longleftrightarrow> s \<noteq> [] \<and> last s = CHR ''.''"
  by (cases s rule: rev_cases) (auto simp: suffix_def)

lemma is_ascii_trim_suffix: "is_ascii s \<Longrightarrow> is_ascii (trim_suffix s p)"
  by (auto simp: trim_suffix_def is_ascii_def list_all_iff dest: in_set_takeD)

text \<open>\<open>strings.Index(s, ".")\<close> for a separator of one byte; \<open>None\<close> is the result -1.\<close>

fun index_of :: "char \<Rightarrow> string \<Rightarrow> nat option" where
  "index_of c [] = None"
| "index_of c (x # s) = (if x = c then Some 0 else map_option Suc (index_of c s))"

lemma index_of_None: "index_of c s = None \<longleftrightarrow> c \<notin> set s"
  by (induction s) auto

lemma index_of_Some:
  "index_of c s = Some i \<Longrightarrow> i < length s \<and> s ! i = c \<and> c \<notin> set (take i s)"
  by (induction s arbitrary: i) (auto split: if_splits)

lemma index_of_append: "c \<notin> set s \<Longrightarrow> index_of c (s @ c # t) = Some (length s)"
  by (induction s) auto

subsection \<open>Splitting and joining\<close>

text \<open>\<open>strings.Split(s, ".")\<close> and \<open>strings.Join(ls, ".")\<close> for a separator of one byte.\<close>

fun split_on :: "char \<Rightarrow> string \<Rightarrow> string list" where
  "split_on c [] = [[]]"
| "split_on c (x # s) =
     (if x = c then [] # split_on c s
      else (case split_on c s of [] \<Rightarrow> [[x]] | l # ls \<Rightarrow> (x # l) # ls))"

fun join_with :: "char \<Rightarrow> string list \<Rightarrow> string" where
  "join_with c [] = []"
| "join_with c [l] = l"
| "join_with c (l # ls) = l @ c # join_with c ls"

lemma split_on_not_Nil [simp]: "split_on c s \<noteq> []"
  by (cases s) (auto split: list.splits)

lemma join_with_Cons: "ls \<noteq> [] \<Longrightarrow> join_with c (l # ls) = l @ c # join_with c ls"
  by (cases ls) auto

lemma join_split: "join_with c (split_on c s) = s"
proof (induction s)
  case Nil
  then show ?case by simp
next
  case (Cons x s)
  then show ?case
    by (cases "split_on c s"; cases "tl (split_on c s)") (auto simp: join_with_Cons)
qed

lemma split_on_no_sep: "c \<notin> set l \<Longrightarrow> split_on c l = [l]"
  by (induction l) auto

lemma split_on_append: "c \<notin> set l \<Longrightarrow> split_on c (l @ c # s) = l # split_on c s"
  by (induction l) auto

lemma split_join:
  "ls \<noteq> [] \<Longrightarrow> \<forall>l \<in> set ls. c \<notin> set l \<Longrightarrow> split_on c (join_with c ls) = ls"
proof (induction ls rule: join_with.induct)
  case (2 c l)
  then show ?case by (simp add: split_on_no_sep)
next
  case (3 c l l' ls)
  then show ?case by (simp add: split_on_append)
qed simp

lemma split_on_no_sep_in: "l \<in> set (split_on c s) \<Longrightarrow> c \<notin> set l"
proof (induction s arbitrary: l)
  case Nil
  then show ?case by simp
next
  case (Cons x s)
  then show ?case by (cases "split_on c s") (auto split: if_splits)
qed

lemma join_with_eq_Nil: "join_with c ls = [] \<longleftrightarrow> ls = [] \<or> ls = [[]]"
  by (induction c ls rule: join_with.induct) auto

lemma set_join_with: "set (join_with c ls) \<subseteq> insert c (\<Union> (set ` set ls))"
  by (induction c ls rule: join_with.induct) auto

lemma is_ascii_join:
  "ascii_char c \<Longrightarrow> is_ascii (join_with c ls) \<longleftrightarrow> (\<forall>l \<in> set ls. is_ascii l)"
  by (induction c ls rule: join_with.induct) auto

lemma map_join_with: "map f (join_with c ls) = join_with (f c) (map (map f) ls)"
  by (induction c ls rule: join_with.induct) auto

lemma inj_join_with:
  "ls \<noteq> [] \<Longrightarrow> ms \<noteq> [] \<Longrightarrow> \<forall>l \<in> set ls. c \<notin> set l \<Longrightarrow> \<forall>m \<in> set ms. c \<notin> set m \<Longrightarrow>
   join_with c ls = join_with c ms \<longleftrightarrow> ls = ms"
  by (metis split_join)

lemma ascii_dot [simp]: "ascii_char CHR ''.''"
  by (simp add: ascii_char_def)

text \<open>\<open>strings.Trim(s, ".")\<close>: every leading and trailing dot.\<close>

definition trim_dots :: "string \<Rightarrow> string" where
  "trim_dots s = rev (dropWhile ((=) CHR ''.'') (rev (dropWhile ((=) CHR ''.'') s)))"

lemma trim_dots_id:
  "s = [] \<or> hd s \<noteq> CHR ''.'' \<and> last s \<noteq> CHR ''.'' \<Longrightarrow> trim_dots s = s"
proof -
  assume "s = [] \<or> hd s \<noteq> CHR ''.'' \<and> last s \<noteq> CHR ''.''"
  then have "dropWhile ((=) CHR ''.'') s = s" and "dropWhile ((=) CHR ''.'') (rev s) = rev s"
    by (auto simp: dropWhile_eq_self_iff hd_rev)
  then show ?thesis by (simp add: trim_dots_def)
qed

subsection \<open>White space\<close>

definition ascii_space :: "char \<Rightarrow> bool" where
  "ascii_space c \<longleftrightarrow> of_char c \<in> {9, 10, 11, 12, 13, 32 :: nat}"

definition trim_space :: "string \<Rightarrow> string" where
  "trim_space s =
     (if is_ascii s then rev (dropWhile ascii_space (rev (dropWhile ascii_space s)))
      else unicode_op ''TrimSpace'' s)"

fun fields_from :: "string \<Rightarrow> string \<Rightarrow> string list" where
  "fields_from cur [] = (if cur = [] then [] else [cur])"
| "fields_from cur (c # s) =
     (if ascii_space c then (if cur = [] then fields_from [] s else cur # fields_from [] s)
      else fields_from (cur @ [c]) s)"

definition str_fields :: "string \<Rightarrow> string list" where
  "str_fields s = (if is_ascii s then fields_from [] s else unicode_fields s)"

lemma trim_space_id:
  "is_ascii s \<Longrightarrow> \<forall>c \<in> set s. \<not> ascii_space c \<Longrightarrow> trim_space s = s"
proof -
  assume "is_ascii s" and "\<forall>c \<in> set s. \<not> ascii_space c"
  moreover from this(2) have "dropWhile ascii_space s = s" by (cases s) auto
  moreover from \<open>\<forall>c \<in> set s. \<not> ascii_space c\<close> have "dropWhile ascii_space (rev s) = rev s"
    by (cases s rule: rev_cases) auto
  ultimately show ?thesis by (simp add: trim_space_def)
qed

lemma is_ascii_trim_space: "is_ascii s \<Longrightarrow> is_ascii (trim_space s)"
  by (auto simp: trim_space_def is_ascii_def list_all_iff dest!: set_dropWhileD)

end
