(* ===== verification/DnsMessage.thy ===== *)
theory DnsMessage
  imports GoStrings
begin

text \<open>
  The data model of \<open>internal/dns/message.go\<close>: the record types, the header with its flag
  accessors, questions, resource records and messages. Go's \<open>Message\<close> embeds \<open>Header\<close>; the
  record \<open>message\<close> extends the record \<open>header\<close> in the same way, so the header's operations
  apply to messages. A nil byte slice is the empty list: the code tells them apart only
  where reading a name at an offset fails for both.
\<close>

subsection \<open>Constants\<close>

abbreviation TypeA :: u16 where "TypeA \<equiv> 1"
abbreviation TypeNS :: u16 where "TypeNS \<equiv> 2"
abbreviation TypeCNAME :: u16 where "TypeCNAME \<equiv> 5"
abbreviation TypeSOA :: u16 where "TypeSOA \<equiv> 6"
abbreviation TypePTR :: u16 where "TypePTR \<equiv> 12"
abbreviation TypeMX :: u16 where "TypeMX \<equiv> 15"
abbreviation TypeTXT :: u16 where "TypeTXT \<equiv> 16"
abbreviation TypeAAAA :: u16 where "TypeAAAA \<equiv> 28"
abbreviation TypeLOC :: u16 where "TypeLOC \<equiv> 29"
abbreviation TypeSRV :: u16 where "TypeSRV \<equiv> 33"
abbreviation TypeNAPTR :: u16 where "TypeNAPTR \<equiv> 35"
abbreviation TypeCERT :: u16 where "TypeCERT \<equiv> 37"
abbreviation TypeDS :: u16 where "TypeDS \<equiv> 43"
abbreviation TypeSSHFP :: u16 where "TypeSSHFP \<equiv> 44"
abbreviation TypeRRSIG :: u16 where "TypeRRSIG \<equiv> 46"
abbreviation TypeNSEC :: u16 where "TypeNSEC \<equiv> 47"
abbreviation TypeDNSKEY :: u16 where "TypeDNSKEY \<equiv> 48"
abbreviation TypeNSEC3 :: u16 where "TypeNSEC3 \<equiv> 50"
abbreviation TypeTLSA :: u16 where "TypeTLSA \<equiv> 52"
abbreviation TypeSMIMEA :: u16 where "TypeSMIMEA \<equiv> 53"
abbreviation TypeOPENPGPKEY :: u16 where "TypeOPENPGPKEY \<equiv> 61"
abbreviation TypeSVCB :: u16 where "TypeSVCB \<equiv> 64"
abbreviation TypeHTTPS :: u16 where "TypeHTTPS \<equiv> 65"
abbreviation TypeURI :: u16 where "TypeURI \<equiv> 256"
abbreviation TypeCAA :: u16 where "TypeCAA \<equiv> 257"
abbreviation ClassIN :: u16 where "ClassIN \<equiv> 1"

abbreviation RcodeNoError :: u16 where "RcodeNoError \<equiv> 0"
abbreviation RcodeServFail :: u16 where "RcodeServFail \<equiv> 2"
abbreviation RcodeNXDomain :: u16 where "RcodeNXDomain \<equiv> 3"
abbreviation RcodeRefused :: u16 where "RcodeRefused \<equiv> 5"

subsection \<open>Types\<close>

record header =
  ID :: u16
  Flags :: u16
  QDCount :: u16
  ANCount :: u16
  NSCount :: u16
  ARCount :: u16

record question =
  q_name :: string
  q_type :: u16
  q_class :: u16

record RR =
  rr_name :: string
  rr_type :: u16
  rr_class :: u16
  rr_ttl :: u32
  rr_data :: "byte list"
  rr_offset :: nat

record message = header +
  Questions :: "question list"
  Answers :: "RR list"
  Authority :: "RR list"
  Additional :: "RR list"
  Raw :: "byte list"

text \<open>\<open>&dns.Message{}\<close>: every field at its zero value.\<close>

definition empty_message :: message where
  "empty_message =
     \<lparr>ID = 0, Flags = 0, QDCount = 0, ANCount = 0, NSCount = 0, ARCount = 0,
      Questions = [], Answers = [], Authority = [], Additional = [], Raw = []\<rparr>"

subsection \<open>Header flags\<close>

definition setBit :: "u16 \<Rightarrow> nat \<Rightarrow> bool \<Rightarrow> u16" where
  "setBit f k v = (if v then f OR push_bit k 1 else f AND NOT (push_bit k 1))"

definition QR :: "'a header_scheme \<Rightarrow> bool" where
  "QR h \<longleftrightarrow> Flags h AND 0x8000 \<noteq> 0"

definition RD :: "'a header_scheme \<Rightarrow> bool" where
  "RD h \<longleftrightarrow> Flags h AND 0x0100 \<noteq> 0"

definition Rcode :: "'a header_scheme \<Rightarrow> u16" where
  "Rcode h = Flags h AND 0x000F"

definition SetQR :: "bool \<Rightarrow> 'a header_scheme \<Rightarrow> 'a header_scheme" where
  "SetQR v h = h\<lparr>Flags := setBit (Flags h) 15 v\<rparr>"

definition SetAA :: "bool \<Rightarrow> 'a header_scheme \<Rightarrow> 'a header_scheme" where
  "SetAA v h = h\<lparr>Flags := setBit (Flags h) 10 v\<rparr>"

definition SetRD :: "bool \<Rightarrow> 'a header_scheme \<Rightarrow> 'a header_scheme" where
  "SetRD v h = h\<lparr>Flags := setBit (Flags h) 8 v\<rparr>"

definition SetRA :: "bool \<Rightarrow> 'a header_scheme \<Rightarrow> 'a header_scheme" where
  "SetRA v h = h\<lparr>Flags := setBit (Flags h) 7 v\<rparr>"

definition SetAD :: "bool \<Rightarrow> 'a header_scheme \<Rightarrow> 'a header_scheme" where
  "SetAD v h = h\<lparr>Flags := setBit (Flags h) 5 v\<rparr>"

definition SetRcode :: "u16 \<Rightarrow> 'a header_scheme \<Rightarrow> 'a header_scheme" where
  "SetRcode r h = h\<lparr>Flags := (Flags h AND NOT 0x000F) OR (r AND 0x000F)\<rparr>"

named_theorems flag_defs "the header's flag operations"

lemmas [flag_defs] =
  setBit_def QR_def RD_def Rcode_def SetQR_def SetAA_def SetRD_def SetRA_def SetAD_def SetRcode_def

lemma mask15: "(0x000F :: u16) = mask 4"
  by (simp add: mask_eq_exp_minus_1)

lemma bit_setBit: "k < 16 \<Longrightarrow> bit (setBit f k v) n \<longleftrightarrow> (if n = k then v else bit f n)"
  by (auto simp: setBit_def bit_simps dest: bit_imp_le_length)

lemma and_push_bit_iff: "k < 16 \<Longrightarrow> (f AND push_bit k 1 :: u16) \<noteq> 0 \<longleftrightarrow> bit f k"
  by (simp add: and_exp_eq_0_iff_not_bit push_bit_eq_mult)

lemma QR_bit: "QR h \<longleftrightarrow> bit (Flags h) 15"
  using and_push_bit_iff [of 15 "Flags h"] by (simp add: QR_def push_bit_eq_mult)

lemma RD_bit: "RD h \<longleftrightarrow> bit (Flags h) 8"
  using and_push_bit_iff [of 8 "Flags h"] by (simp add: RD_def push_bit_eq_mult)

lemma bit_Rcode: "bit (Rcode h) n \<longleftrightarrow> n < 4 \<and> bit (Flags h) n"
  by (auto simp: Rcode_def mask15 bit_simps)

lemma bit_Flags_SetRcode:
  "bit (Flags (SetRcode r h)) n \<longleftrightarrow> (if n < 4 then bit r n else bit (Flags h) n)"
  by (auto simp: SetRcode_def mask15 bit_simps dest: bit_imp_le_length)

lemma Rcode_SetRcode: "Rcode (SetRcode r h) = r AND 0x000F"
  by (rule bit_word_eqI) (auto simp: bit_Rcode bit_Flags_SetRcode mask15 bit_simps)

lemma Rcode_set_flags [simp]:
  "Rcode (SetQR v h) = Rcode h" "Rcode (SetAA v h) = Rcode h" "Rcode (SetRD v h) = Rcode h"
  "Rcode (SetRA v h) = Rcode h" "Rcode (SetAD v h) = Rcode h"
  by (rule bit_word_eqI;
      auto simp: bit_Rcode SetQR_def SetAA_def SetRD_def SetRA_def SetAD_def bit_setBit)+

lemma QR_SetQR [simp]: "QR (SetQR v h) = v"
  by (simp add: QR_bit SetQR_def bit_setBit)

lemma QR_set_other [simp]:
  "QR (SetAA v h) = QR h" "QR (SetRD v h) = QR h" "QR (SetRA v h) = QR h"
  "QR (SetAD v h) = QR h" "QR (SetRcode r h) = QR h"
  by (simp_all add: QR_bit SetAA_def SetRD_def SetRA_def SetAD_def bit_setBit bit_Flags_SetRcode)

lemma RD_SetRD [simp]: "RD (SetRD v h) = v"
  by (simp add: RD_bit SetRD_def bit_setBit)

lemma RD_set_other [simp]:
  "RD (SetQR v h) = RD h" "RD (SetAA v h) = RD h" "RD (SetRA v h) = RD h"
  "RD (SetAD v h) = RD h" "RD (SetRcode r h) = RD h"
  by (simp_all add: RD_bit SetQR_def SetAA_def SetRA_def SetAD_def bit_setBit bit_Flags_SetRcode)

end
