(* ===== verification/DnsParse.thy ===== *)
theory DnsParse
  imports DnsMessage
begin

text \<open>
  The wire-format parser of \<open>internal/dns/message.go\<close>: \<open>parseName\<close> with its compression
  pointers, \<open>parseRRs\<close>, \<open>ParseMessage\<close>, and the rdata parsers. Every error of the source is
  a constructor. A slice expression or index of the source that is out of range panics in
  Go; here it is the result \<open>NamePanic\<close> or \<open>ParsePanic\<close>, so that the absence of panics is
  a theorem about the guards and not a consequence of how HOL totalises \<open>nth\<close>.
\<close>

subsection \<open>Checked reads\<close>

definition read_byte :: "byte list \<Rightarrow> nat \<Rightarrow> byte option" where
  "read_byte buf i = (if i < length buf then Some (buf ! i) else None)"

definition read_slice :: "byte list \<Rightarrow> nat \<Rightarrow> nat \<Rightarrow> byte list option" where
  "read_slice buf i j = (if i \<le> j \<and> j \<le> length buf then Some (slice buf i j) else None)"

definition read16 :: "byte list \<Rightarrow> nat \<Rightarrow> u16 option" where
  "read16 buf i = (if i + 2 \<le> length buf then Some (be16 buf i) else None)"

definition read32 :: "byte list \<Rightarrow> nat \<Rightarrow> u32 option" where
  "read32 buf i = (if i + 4 \<le> length buf then Some (be32 buf i) else None)"

lemma read_in_range [simp]:
  "i < length buf \<Longrightarrow> read_byte buf i = Some (buf ! i)"
  "i \<le> j \<Longrightarrow> j \<le> length buf \<Longrightarrow> read_slice buf i j = Some (slice buf i j)"
  "i + 2 \<le> length buf \<Longrightarrow> read16 buf i = Some (be16 buf i)"
  "i + 4 \<le> length buf \<Longrightarrow> read32 buf i = Some (be32 buf i)"
  by (simp_all add: read_byte_def read_slice_def read16_def read32_def)

subsection \<open>Names\<close>

datatype name_error =
  NameOutOfBounds
| NamePointerTruncated
| NamePointerLoop
| NameReservedLabel byte
| NameLabelOutOfBounds
| NameCompressed
| NamePanic

text \<open>The name read so far, with a dot before every label but the first, and the next label.\<close>

definition add_label :: "byte list \<Rightarrow> byte list \<Rightarrow> byte list" where
  "add_label name label = (if name = [] then name else name @ [byte_of_char CHR ''.'']) @ label"

text \<open>The position behind the name, fixed by the first pointer that is followed.\<close>

definition end_or :: "nat option \<Rightarrow> nat \<Rightarrow> nat" where
  "end_or e d = (case e of None \<Rightarrow> d | Some n \<Rightarrow> n)"

function parse_name_loop ::
  "byte list \<Rightarrow> nat \<Rightarrow> byte list \<Rightarrow> nat list \<Rightarrow> nat option \<Rightarrow> name_error + (string \<times> nat)" where
  "parse_name_loop buf offset name visited stop =
     (if length buf \<le> offset then Inl NameOutOfBounds
      else case read_byte buf offset of
        None \<Rightarrow> Inl NamePanic
      | Some b \<Rightarrow>
          if b = 0 then Inr (string_of name, end_or stop (offset + 1))
          else if b AND 0xC0 = 0xC0 then
            (if length buf \<le> offset + 1 then Inl NamePointerTruncated
             else case read16 buf offset of
               None \<Rightarrow> Inl NamePanic
             | Some w \<Rightarrow>
                 let ptr = unat (w AND 0x3FFF)
                 in if ptr \<in> set visited then Inl NamePointerLoop
                    else parse_name_loop buf ptr name (ptr # visited)
                           (Some (end_or stop (offset + 2))))
          else if b AND 0xC0 \<noteq> 0 then Inl (NameReservedLabel b)
          else if length buf < offset + 1 + unat b then Inl NameLabelOutOfBounds
          else case read_slice buf (offset + 1) (offset + 1 + unat b) of
            None \<Rightarrow> Inl NamePanic
          | Some label \<Rightarrow>
              parse_name_loop buf (offset + 1 + unat b) (add_label name label) visited stop)"
  by pat_completeness auto

text \<open>
  The loop stops: a pointer that is followed has not been followed before, and there are
  \<open>2 ^ 14\<close> pointer targets; between two pointers the offset grows towards the end of the
  buffer.
\<close>

definition fresh_pointers :: "nat list \<Rightarrow> nat" where
  "fresh_pointers visited = card ({..<16384} - set visited)"

lemma pointer_less: "unat ((w :: u16) AND 0x3FFF) < 16384"
proof -
  have "unat (w AND 0x3FFF) \<le> unat (0x3FFF :: u16)"
    by (rule word_and_le1 [THEN word_le_nat_alt [THEN iffD1]])
  then show ?thesis by simp
qed

lemma fresh_pointers_less:
  "p < 16384 \<Longrightarrow> p \<notin> set visited \<Longrightarrow> fresh_pointers (p # visited) < fresh_pointers visited"
  unfolding fresh_pointers_def by (rule psubset_card_mono) auto

termination parse_name_loop
  by (relation "measures [\<lambda>(buf, offset, name, visited, stop). fresh_pointers visited,
                          \<lambda>(buf, offset, name, visited, stop). length buf - offset]")
    (auto simp: fresh_pointers_less pointer_less read_byte_def unat_eq_zero)

declare parse_name_loop.simps [simp del]

definition parseName :: "byte list \<Rightarrow> nat \<Rightarrow> name_error + (string \<times> nat)" where
  "parseName buf offset = parse_name_loop buf offset [] [] None"

text \<open>\<open>parseUncompressedName\<close>, for rdata that stands outside a packet.\<close>

function parse_uncompressed_loop ::
  "byte list \<Rightarrow> nat \<Rightarrow> byte list \<Rightarrow> name_error + (string \<times> nat)" where
  "parse_uncompressed_loop data i name =
     (if length data \<le> i then Inl NameOutOfBounds
      else case read_byte data i of
        None \<Rightarrow> Inl NamePanic
      | Some b \<Rightarrow>
          if b = 0 then Inr (string_of name, i + 1)
          else if b AND 0xC0 \<noteq> 0 then Inl NameCompressed
          else if length data < i + 1 + unat b then Inl NameLabelOutOfBounds
          else case read_slice data (i + 1) (i + 1 + unat b) of
            None \<Rightarrow> Inl NamePanic
          | Some label \<Rightarrow> parse_uncompressed_loop data (i + 1 + unat b) (add_label name label))"
  by pat_completeness auto
termination parse_uncompressed_loop
  by (relation "measure (\<lambda>(data, i, name). length data - i)") (auto simp: read_byte_def)

declare parse_uncompressed_loop.simps [simp del]

definition parseUncompressedName :: "byte list \<Rightarrow> name_error + (string \<times> nat)" where
  "parseUncompressedName data = parse_uncompressed_loop data 0 []"

subsection \<open>Resource records and messages\<close>

datatype parse_error =
  MessageTooShort
| QuestionNameError name_error
| QuestionTruncated
| RRNameError name_error
| RRFixedTruncated
| RdataTruncated
| ParsePanic

text \<open>One round of the loop of \<open>parseRRs\<close>.\<close>

definition parse_rr :: "byte list \<Rightarrow> nat \<Rightarrow> parse_error + (RR \<times> nat)" where
  "parse_rr buf offset =
     (case parseName buf offset of
        Inl e \<Rightarrow> Inl (RRNameError e)
      | Inr (name, n) \<Rightarrow>
          if length buf < n + 10 then Inl RRFixedTruncated
          else case (read16 buf n, read16 buf (n + 2), read32 buf (n + 4), read16 buf (n + 8)) of
            (Some rtype, Some rclass, Some ttl, Some rdlen) \<Rightarrow>
              if length buf < n + 10 + unat rdlen then Inl RdataTruncated
              else (case read_slice buf (n + 10) (n + 10 + unat rdlen) of
                  None \<Rightarrow> Inl ParsePanic
                | Some data \<Rightarrow>
                    Inr (\<lparr>rr_name = name, rr_type = rtype, rr_class = rclass, rr_ttl = ttl,
                          rr_data = data, rr_offset = n + 10\<rparr>, n + 10 + unat rdlen))
          | _ \<Rightarrow> Inl ParsePanic)"

fun parseRRs :: "byte list \<Rightarrow> nat \<Rightarrow> nat \<Rightarrow> parse_error + (RR list \<times> nat)" where
  "parseRRs buf offset 0 = Inr ([], offset)"
| "parseRRs buf offset (Suc count) =
     (case parse_rr buf offset of
        Inl e \<Rightarrow> Inl e
      | Inr (rr, offset') \<Rightarrow>
          (case parseRRs buf offset' count of
             Inl e \<Rightarrow> Inl e
           | Inr (rrs, n) \<Rightarrow> Inr (rr # rrs, n)))"

definition parse_question :: "byte list \<Rightarrow> nat \<Rightarrow> parse_error + (question \<times> nat)" where
  "parse_question buf offset =
     (case parseName buf offset of
        Inl e \<Rightarrow> Inl (QuestionNameError e)
      | Inr (name, n) \<Rightarrow>
          if length buf < n + 4 then Inl QuestionTruncated
          else case (read16 buf n, read16 buf (n + 2)) of
            (Some t, Some c) \<Rightarrow> Inr (\<lparr>q_name = name, q_type = t, q_class = c\<rparr>, n + 4)
          | _ \<Rightarrow> Inl ParsePanic)"

fun parse_questions :: "byte list \<Rightarrow> nat \<Rightarrow> nat \<Rightarrow> parse_error + (question list \<times> nat)" where
  "parse_questions buf offset 0 = Inr ([], offset)"
| "parse_questions buf offset (Suc count) =
     (case parse_question buf offset of
        Inl e \<Rightarrow> Inl e
      | Inr (q, offset') \<Rightarrow>
          (case parse_questions buf offset' count of
             Inl e \<Rightarrow> Inl e
           | Inr (qs, n) \<Rightarrow> Inr (q # qs, n)))"

definition ParseMessage :: "byte list \<Rightarrow> parse_error + message" where
  "ParseMessage buf =
     (if length buf < 12 then Inl MessageTooShort
      else case (read16 buf 0, read16 buf 2, read16 buf 4, read16 buf 6, read16 buf 8, read16 buf 10) of
        (Some mid, Some flags, Some qd, Some an, Some ns, Some ar) \<Rightarrow>
          (case parse_questions buf 12 (unat qd) of
             Inl e \<Rightarrow> Inl e
           | Inr (qs, o1) \<Rightarrow>
               (case parseRRs buf o1 (unat an) of
                  Inl e \<Rightarrow> Inl e
                | Inr (ans, o2) \<Rightarrow>
                    (case parseRRs buf o2 (unat ns) of
                       Inl e \<Rightarrow> Inl e
                     | Inr (aut, o3) \<Rightarrow>
                         (case parseRRs buf o3 (unat ar) of
                            Inl e \<Rightarrow> Inl e
                          | Inr (add, o4) \<Rightarrow>
                              Inr \<lparr>ID = mid, Flags = flags, QDCount = qd, ANCount = an,
                                   NSCount = ns, ARCount = ar, Questions = qs, Answers = ans,
                                   Authority = aut, Additional = add, Raw = buf\<rparr>))))
      | _ \<Rightarrow> Inl ParsePanic)"

text \<open>The dotted quad of \<open>ParseA\<close>; \<open>dec_string\<close> is the verb \<open>%d\<close> on a natural number.\<close>

fun dec_string :: "nat \<Rightarrow> string" where
  "dec_string n =
     (if n < 10 then [char_of (n + 48)] else dec_string (n div 10) @ [char_of (n mod 10 + 48)])"

declare dec_string.simps [simp del]

definition ParseA :: "byte list \<Rightarrow> string option" where
  "ParseA data =
     (case data of
        [a, b, c, d] \<Rightarrow>
          Some (join_with CHR ''.'' (map (\<lambda>x. dec_string (unat x)) [a, b, c, d]))
      | _ \<Rightarrow> None)"

definition ParseNameRdata :: "byte list \<Rightarrow> byte list \<Rightarrow> nat \<Rightarrow> name_error + string" where
  "ParseNameRdata packet rdata offset =
     (case parseName packet offset of Inl e \<Rightarrow> Inl e | Inr (name, _) \<Rightarrow> Inr name)"

subsection \<open>The guards make every read succeed\<close>

lemma parse_name_loop_unfold:
  "parse_name_loop buf offset name visited stop =
     (if length buf \<le> offset then Inl NameOutOfBounds
      else if buf ! offset = 0 then Inr (string_of name, end_or stop (offset + 1))
      else if buf ! offset AND 0xC0 = 0xC0 then
        (if length buf \<le> offset + 1 then Inl NamePointerTruncated
         else let ptr = unat (be16 buf offset AND 0x3FFF)
              in if ptr \<in> set visited then Inl NamePointerLoop
                 else parse_name_loop buf ptr name (ptr # visited)
                        (Some (end_or stop (offset + 2))))
      else if buf ! offset AND 0xC0 \<noteq> 0 then Inl (NameReservedLabel (buf ! offset))
      else if length buf < offset + 1 + unat (buf ! offset) then Inl NameLabelOutOfBounds
      else parse_name_loop buf (offset + 1 + unat (buf ! offset))
             (add_label name (slice buf (offset + 1) (offset + 1 + unat (buf ! offset))))
             visited stop)"
  by (subst parse_name_loop.simps) simp

text \<open>Computation induction over the two recursive calls, with the guards as they are tested.\<close>

lemma parse_name_induct [case_names step]:
  assumes "\<And>buf offset name visited stop.
    (offset + 2 \<le> length buf \<Longrightarrow> buf ! offset AND 0xC0 = 0xC0 \<Longrightarrow>
       unat (be16 buf offset AND 0x3FFF) \<notin> set visited \<Longrightarrow>
       P buf (unat (be16 buf offset AND 0x3FFF)) name
         (unat (be16 buf offset AND 0x3FFF) # visited) (Some (end_or stop (offset + 2)))) \<Longrightarrow>
    (offset + 1 + unat (buf ! offset) \<le> length buf \<Longrightarrow> buf ! offset \<noteq> 0 \<Longrightarrow>
       buf ! offset AND 0xC0 = 0 \<Longrightarrow>
       P buf (offset + 1 + unat (buf ! offset))
         (add_label name (slice buf (offset + 1) (offset + 1 + unat (buf ! offset))))
         visited stop) \<Longrightarrow>
    P buf offset name visited stop"
  shows "P buf offset name visited stop"
proof (induction buf offset name visited stop rule: parse_name_loop.induct)
  case (1 buf offset name visited stop)
  show ?case
  proof (rule assms)
    assume *: "offset + 2 \<le> length buf" "buf ! offset AND 0xC0 = 0xC0"
      "unat (be16 buf offset AND 0x3FFF) \<notin> set visited"
    then have "buf ! offset \<noteq> 0" by auto
    with * show "P buf (unat (be16 buf offset AND 0x3FFF)) name
         (unat (be16 buf offset AND 0x3FFF) # visited) (Some (end_or stop (offset + 2)))"
      by (intro "1.IH"(1) [OF _ _ _ _ _ _ refl]) auto
  next
    assume "offset + 1 + unat (buf ! offset) \<le> length buf" "buf ! offset \<noteq> 0"
      "buf ! offset AND 0xC0 = 0"
    then show "P buf (offset + 1 + unat (buf ! offset))
         (add_label name (slice buf (offset + 1) (offset + 1 + unat (buf ! offset))))
         visited stop"
      by (intro "1.IH"(2)) auto
  qed
qed

lemma parse_name_loop_no_panic: "parse_name_loop buf offset name visited stop \<noteq> Inl NamePanic"
proof (induction buf offset name visited stop rule: parse_name_induct)
  case (step buf offset name visited stop)
  then show ?case
    by (subst parse_name_loop_unfold) (auto simp: Let_def)
qed

lemma end_or_simps [simp]: "end_or None d = d" "end_or (Some n) d = n"
  by (simp_all add: end_or_def)

text \<open>
  The position a successful parse returns: the one fixed by the first pointer, and otherwise
  a position behind the start and inside the buffer.
\<close>

definition end_ok :: "byte list \<Rightarrow> nat \<Rightarrow> nat option \<Rightarrow> name_error + (string \<times> nat) \<Rightarrow> bool" where
  "end_ok buf offset stop r \<longleftrightarrow>
     (case r of Inl _ \<Rightarrow> True
      | Inr (s, e) \<Rightarrow> (case stop of Some n \<Rightarrow> e = n | None \<Rightarrow> offset < e \<and> e \<le> length buf))"

lemma end_ok_simps [simp]:
  "end_ok buf offset stop (Inl x)"
  "end_ok buf offset (Some n) (Inr (s, e)) \<longleftrightarrow> e = n"
  "end_ok buf offset None (Inr (s, e)) \<longleftrightarrow> offset < e \<and> e \<le> length buf"
  by (simp_all add: end_ok_def)

lemma end_ok_zero:
  "offset < length buf \<Longrightarrow> end_ok buf offset stop (Inr (s, end_or stop (Suc offset)))"
  by (cases stop) auto

lemma end_ok_pointer:
  "end_ok buf p (Some (end_or stop n)) r \<Longrightarrow> offset < n \<Longrightarrow> n \<le> length buf \<Longrightarrow>
   end_ok buf offset stop r"
  by (cases r; cases stop) auto

lemma end_ok_label:
  "end_ok buf n stop r \<Longrightarrow> offset < n \<Longrightarrow> end_ok buf offset stop r"
  by (cases r; cases stop) auto

lemma parse_name_loop_end:
  "end_ok buf offset stop (parse_name_loop buf offset name visited stop)"
proof (induction buf offset name visited stop rule: parse_name_induct)
  case (step buf offset name visited stop)
  then show ?case
    by (subst parse_name_loop_unfold)
      (auto simp: Let_def not_le intro: end_ok_zero end_ok_pointer end_ok_label)
qed

lemma parseName_end: "parseName buf offset = Inr (s, e) \<Longrightarrow> offset < e \<and> e \<le> length buf"
  using parse_name_loop_end [of buf offset None "[]" "[]"] by (simp add: parseName_def)

lemma parseName_no_panic: "parseName buf offset \<noteq> Inl NamePanic"
  by (simp add: parseName_def parse_name_loop_no_panic)

subsection \<open>What a parsed record and a parsed message satisfy\<close>

text \<open>A record's rdata is the slice of the packet at its offset.\<close>

definition rr_within :: "byte list \<Rightarrow> RR \<Rightarrow> bool" where
  "rr_within buf rr \<longleftrightarrow>
     rr_offset rr + length (rr_data rr) \<le> length buf \<and>
     rr_data rr = slice buf (rr_offset rr) (rr_offset rr + length (rr_data rr))"

definition panics :: "parse_error \<Rightarrow> bool" where
  "panics e \<longleftrightarrow> e \<in> {ParsePanic, QuestionNameError NamePanic, RRNameError NamePanic}"

lemma parse_rr_no_panic: "parse_rr buf offset = Inl e \<Longrightarrow> \<not> panics e"
  using parseName_no_panic [of buf offset]
  by (auto simp: parse_rr_def panics_def split: sum.splits prod.splits if_splits option.splits)

lemma parse_rr_Inr:
  assumes "parse_rr buf offset = Inr (rr, n)"
  shows "offset < n" "n \<le> length buf" "rr_within buf rr" "rr_offset rr + length (rr_data rr) = n"
    "12 \<le> offset \<Longrightarrow> 12 \<le> rr_offset rr"
proof -
  from assms obtain name e where "parseName buf offset = Inr (name, e)"
    by (auto simp: parse_rr_def split: sum.splits prod.splits)
  moreover from parseName_end [OF this] have "offset < e" "e \<le> length buf" by auto
  ultimately show "offset < n" "n \<le> length buf" "rr_within buf rr"
    "rr_offset rr + length (rr_data rr) = n" "12 \<le> offset \<Longrightarrow> 12 \<le> rr_offset rr"
    using assms
    by (auto simp: parse_rr_def rr_within_def length_slice read_slice_def
        split: if_splits option.splits)
qed

lemma parseRRs_no_panic: "parseRRs buf offset count = Inl e \<Longrightarrow> \<not> panics e"
proof (induction buf offset count rule: parseRRs.induct)
  case (2 buf offset count)
  then show ?case by (fastforce split: sum.splits prod.splits dest: parse_rr_no_panic)
qed simp

lemma parseRRs_Inr:
  "parseRRs buf offset count = Inr (rrs, n) \<Longrightarrow> offset \<le> length buf \<Longrightarrow>
   length rrs = count \<and> offset \<le> n \<and> n \<le> length buf \<and> list_all (rr_within buf) rrs"
proof (induction buf offset count arbitrary: rrs rule: parseRRs.induct)
  case (2 buf offset count)
  from "2.prems" obtain rr m rrs' where
    rr: "parse_rr buf offset = Inr (rr, m)" and rest: "parseRRs buf m count = Inr (rrs', n)"
    and rrs: "rrs = rr # rrs'"
    by (auto split: sum.splits)
  from parse_rr_Inr [OF rr] "2.IH" [OF rr refl rest] show ?case
    by (auto simp: rrs)
qed simp

lemma parse_question_no_panic: "parse_question buf offset = Inl e \<Longrightarrow> \<not> panics e"
  using parseName_no_panic [of buf offset]
  by (auto simp: parse_question_def panics_def split: sum.splits prod.splits if_splits option.splits)

lemma parse_question_Inr:
  "parse_question buf offset = Inr (q, n) \<Longrightarrow> offset < n \<and> n \<le> length buf"
  by (auto simp: parse_question_def split: sum.splits prod.splits if_splits option.splits
      dest: parseName_end)

lemma parse_questions_no_panic: "parse_questions buf offset count = Inl e \<Longrightarrow> \<not> panics e"
proof (induction buf offset count rule: parse_questions.induct)
  case (2 buf offset count)
  then show ?case by (fastforce split: sum.splits prod.splits dest: parse_question_no_panic)
qed simp

lemma parse_questions_Inr:
  "parse_questions buf offset count = Inr (qs, n) \<Longrightarrow> offset \<le> length buf \<Longrightarrow>
   length qs = count \<and> offset \<le> n \<and> n \<le> length buf"
proof (induction buf offset count arbitrary: qs rule: parse_questions.induct)
  case (2 buf offset count)
  from "2.prems" obtain q m qs' where
    q: "parse_question buf offset = Inr (q, m)" and rest: "parse_questions buf m count = Inr (qs', n)"
    and qs: "qs = q # qs'"
    by (auto split: sum.splits)
  from parse_question_Inr [OF q] "2.IH" [OF q refl rest] show ?case
    by (auto simp: qs)
qed simp

text \<open>\<open>ParseMessage\<close> with its checked reads resolved.\<close>

lemma ParseMessage_unfold:
  "ParseMessage buf =
     (if length buf < 12 then Inl MessageTooShort
      else case parse_questions buf 12 (unat (be16 buf 4)) of
          Inl e \<Rightarrow> Inl e
        | Inr (qs, o1) \<Rightarrow>
      (case parseRRs buf o1 (unat (be16 buf 6)) of
          Inl e \<Rightarrow> Inl e
        | Inr (ans, o2) \<Rightarrow>
      (case parseRRs buf o2 (unat (be16 buf 8)) of
          Inl e \<Rightarrow> Inl e
        | Inr (aut, o3) \<Rightarrow>
      (case parseRRs buf o3 (unat (be16 buf 10)) of
          Inl e \<Rightarrow> Inl e
        | Inr (add, o4) \<Rightarrow>
            Inr \<lparr>ID = be16 buf 0, Flags = be16 buf 2, QDCount = be16 buf 4, ANCount = be16 buf 6,
                 NSCount = be16 buf 8, ARCount = be16 buf 10, Questions = qs, Answers = ans,
                 Authority = aut, Additional = add, Raw = buf\<rparr>))))"
  by (simp add: ParseMessage_def)

lemma ParseMessage_InrE:
  assumes "ParseMessage buf = Inr m"
  obtains o1 o2 o3 o4 where
    "12 \<le> length buf"
    "parse_questions buf 12 (unat (be16 buf 4)) = Inr (Questions m, o1)"
    "parseRRs buf o1 (unat (be16 buf 6)) = Inr (Answers m, o2)"
    "parseRRs buf o2 (unat (be16 buf 8)) = Inr (Authority m, o3)"
    "parseRRs buf o3 (unat (be16 buf 10)) = Inr (Additional m, o4)"
    "ID m = be16 buf 0" "Flags m = be16 buf 2" "QDCount m = be16 buf 4" "ANCount m = be16 buf 6"
    "NSCount m = be16 buf 8" "ARCount m = be16 buf 10" "Raw m = buf"
  using assms by (auto simp: ParseMessage_unfold split: if_splits sum.splits prod.splits)

text \<open>
  C1: the parser is total and memory safe on every input. It returns a message or one of the
  errors of the source, and no index or slice expression that it evaluates is out of range,
  whatever bytes an attacker sends (truncated sections, pointers past the end, pointer
  loops, reserved labels).
\<close>

theorem ParseMessage_never_panics:
  "ParseMessage buf \<noteq> Inl ParsePanic \<and> ParseMessage buf \<noteq> Inl (QuestionNameError NamePanic) \<and>
   ParseMessage buf \<noteq> Inl (RRNameError NamePanic)"
proof -
  have "\<not> panics e" if "ParseMessage buf = Inl e" for e
    using that
    by (auto simp: ParseMessage_unfold split: if_splits sum.splits prod.splits
        dest: parse_questions_no_panic parseRRs_no_panic)
      (simp add: panics_def)
  then show ?thesis by (auto simp: panics_def)
qed

text \<open>
  C3: a parsed message is consistent with its packet. It keeps the packet, each section has
  exactly as many entries as its header count says, and the rdata of every record is the
  slice of the packet at the record's offset, so names inside rdata can be parsed again
  from the packet.
\<close>

theorem ParseMessage_sections:
  assumes "ParseMessage buf = Inr m"
  shows "Raw m = buf \<and>
    length (Questions m) = unat (QDCount m) \<and> length (Answers m) = unat (ANCount m) \<and>
    length (Authority m) = unat (NSCount m) \<and> length (Additional m) = unat (ARCount m) \<and>
    list_all (rr_within buf) (Answers m @ Authority m @ Additional m)"
  using assms
  by (elim ParseMessage_InrE) (auto dest!: parse_questions_Inr parseRRs_Inr)

text \<open>A query for the root with one record: the hypothesis of the previous theorem can hold.\<close>

definition sample_packet :: "byte list" where
  "sample_packet = [0, 7, 0x81, 0x80, 0, 1, 0, 1, 0, 0, 0, 0] @ [1, 97, 0, 0, 1, 0, 1] @
     [0xC0, 12, 0, 1, 0, 1, 0, 0, 0, 60, 0, 4, 10, 0, 0, 1]"

lemma ParseMessage_sections_witness:
  "\<exists>m. ParseMessage sample_packet = Inr m \<and> Raw m = sample_packet \<and> length (Answers m) = 1"
proof -
  have "case ParseMessage sample_packet of Inl _ \<Rightarrow> False | Inr m \<Rightarrow> ANCount m = 1"
    by code_simp
  then obtain m where "ParseMessage sample_packet = Inr m" "ANCount m = 1"
    by (auto split: sum.splits)
  with ParseMessage_sections [of sample_packet m] show ?thesis by simp
qed

end
