(* ===== verification/DnsPack.thy ===== *)
theory DnsPack
  imports DnsParse
begin

text \<open>
  The wire-format writer of \<open>internal/dns/message.go\<close>. \<open>packName\<close> writes a name without
  compression; \<open>packCompressedName\<close> threads the map from the lower-cased suffixes already
  written to their offsets, which Go mutates in place; \<open>Pack\<close> writes the header, the
  questions and the records, and patches the fixed fields of a record once the length of its
  rdata is known.
\<close>

subsection \<open>Uncompressed names\<close>

text \<open>\<open>byte(len(label))\<close> and the label: the length is cut to eight bits as in the source.\<close>

definition pack_label :: "string \<Rightarrow> byte list" where
  "pack_label l = of_nat (length l) # bytes_of l"

text \<open>The scan of \<open>packName\<close>: \<open>cur\<close> is \<open>name[start:i]\<close>, the second argument \<open>name[i:]\<close>.\<close>

fun pack_scan :: "string \<Rightarrow> string \<Rightarrow> byte list" where
  "pack_scan cur [] = pack_label cur"
| "pack_scan cur (c # s) =
     (if c = CHR ''.'' then pack_label cur @ pack_scan [] s else pack_scan (cur @ [c]) s)"

definition packName :: "string \<Rightarrow> byte list" where
  "packName name = (if name = '''' \<or> name = ''.'' then [0] else pack_scan [] name @ [0])"

abbreviation PackName :: "string \<Rightarrow> byte list" where
  "PackName \<equiv> packName"

abbreviation ParseName :: "byte list \<Rightarrow> nat \<Rightarrow> name_error + (string \<times> nat)" where
  "ParseName \<equiv> parseName"

subsection \<open>Compressed names\<close>

definition pointer_bytes :: "nat \<Rightarrow> byte list" where
  "pointer_bytes off = [of_nat (0xC0 OR drop_bit 8 off), of_nat off]"

fun pack_labels_compressed ::
  "byte list \<Rightarrow> string list \<Rightarrow> (string \<rightharpoonup> nat) \<Rightarrow> byte list \<times> (string \<rightharpoonup> nat)" where
  "pack_labels_compressed buf [] names = (buf @ [0], names)"
| "pack_labels_compressed buf (label # rest) names =
     (if label = [] then pack_labels_compressed buf rest names
      else let sfx = to_lower (join_with CHR ''.'' (label # rest));
               hit = (case names sfx of
                        Some off \<Rightarrow> if off \<le> 0x3FFF then Some off else None
                      | None \<Rightarrow> None)
           in case hit of
                Some off \<Rightarrow> (buf @ pointer_bytes off, names)
              | None \<Rightarrow>
                  pack_labels_compressed (buf @ pack_label label) rest
                    (if length buf \<le> 0x3FFF then names(sfx \<mapsto> length buf) else names))"

definition packCompressedName ::
  "byte list \<Rightarrow> string \<Rightarrow> (string \<rightharpoonup> nat) \<Rightarrow> byte list \<times> (string \<rightharpoonup> nat)" where
  "packCompressedName buf name names =
     (let name = trim_dots name
      in if name = [] then (buf @ [0], names)
         else pack_labels_compressed buf (split_on CHR ''.'' name) names)"

subsection \<open>Rdata\<close>

definition rdataName :: "RR \<Rightarrow> byte list \<Rightarrow> string option" where
  "rdataName rr raw =
     (let off = rr_offset rr + (if rr_type rr = TypeMX then 2 else 0);
          from_packet = (if raw \<noteq> [] \<and> 12 \<le> off \<and> off < length raw
                         then (case parseName raw off of Inl _ \<Rightarrow> None | Inr (name, _) \<Rightarrow> Some name)
                         else None)
      in case from_packet of
           Some name \<Rightarrow> Some name
         | None \<Rightarrow>
             if rr_type rr = TypeMX \<and> length (rr_data rr) < 2 then None
             else let data = (if rr_type rr = TypeMX then drop 2 (rr_data rr) else rr_data rr)
                  in case parseUncompressedName data of
                       Inl _ \<Rightarrow> None
                     | Inr (name, _) \<Rightarrow> Some name)"

definition appendRdata ::
  "byte list \<Rightarrow> RR \<Rightarrow> byte list \<Rightarrow> (string \<rightharpoonup> nat) \<Rightarrow> byte list \<times> (string \<rightharpoonup> nat)" where
  "appendRdata buf rr raw names =
     (if rr_type rr \<in> {TypeNS, TypeCNAME, TypePTR, TypeMX} then
        let buf' = (if rr_type rr = TypeMX
                    then buf @ (case rr_data rr of a # b # _ \<Rightarrow> [a, b] | _ \<Rightarrow> [0, 0])
                    else buf)
        in case rdataName rr raw of
             Some name \<Rightarrow> packCompressedName buf' name names
           | None \<Rightarrow> (buf' @ rr_data rr, names)
      else (buf @ rr_data rr, names))"

subsection \<open>Messages\<close>

text \<open>\<open>binary.BigEndian.Put\<dots>(buf[i:j], v)\<close>: the bytes overwrite those at \<open>i\<close>.\<close>

definition put_at :: "byte list \<Rightarrow> nat \<Rightarrow> byte list \<Rightarrow> byte list" where
  "put_at buf i bs = take i buf @ bs @ drop (i + length bs) buf"

definition pack_header :: "message \<Rightarrow> byte list" where
  "pack_header m =
     put16 (ID m) @ put16 (Flags m) @ put16 (of_nat (length (Questions m))) @
     put16 (of_nat (length (Answers m))) @ put16 (of_nat (length (Authority m))) @
     put16 (of_nat (length (Additional m)))"

type_synonym pack_state = "byte list \<times> (string \<rightharpoonup> nat)"

definition pack_question :: "question \<Rightarrow> pack_state \<Rightarrow> pack_state" where
  "pack_question q st =
     (case st of (buf, names) \<Rightarrow>
       (case packCompressedName buf (q_name q) names of (buf1, names1) \<Rightarrow>
         let buf2 = buf1 @ [0, 0, 0, 0];
             buf3 = put_at buf2 (length buf2 - 4) (put16 (q_type q));
             buf4 = put_at buf3 (length buf3 - 2) (put16 (q_class q))
         in (buf4, names1)))"

definition pack_rr :: "byte list \<Rightarrow> RR \<Rightarrow> pack_state \<Rightarrow> pack_state" where
  "pack_rr raw rr st =
     (case st of (buf, names) \<Rightarrow>
       (case packCompressedName buf (rr_name rr) names of (buf1, names1) \<Rightarrow>
         let fixed = length buf1;
             buf2 = buf1 @ replicate 10 0;
             rdStart = length buf2
         in (case appendRdata buf2 rr raw names1 of (buf3, names2) \<Rightarrow>
              let b1 = put_at buf3 fixed (put16 (rr_type rr));
                  b2 = put_at b1 (fixed + 2) (put16 (rr_class rr));
                  b3 = put_at b2 (fixed + 4) (put32 (rr_ttl rr));
                  b4 = put_at b3 (fixed + 8) (put16 (of_nat (length b3 - rdStart)))
              in (b4, names2))))"

definition Pack :: "message \<Rightarrow> byte list" where
  "Pack m =
     fst (fold (pack_rr (Raw m)) (Answers m @ Authority m @ Additional m)
           (fold pack_question (Questions m) (pack_header m, Map.empty)))"

subsection \<open>The scan and the split\<close>

lemma pack_scan_split:
  "CHR ''.'' \<notin> set cur \<Longrightarrow>
   pack_scan cur s = concat (map pack_label (split_on CHR ''.'' (cur @ s)))"
  by (induction cur s rule: pack_scan.induct) (auto simp: split_on_no_sep split_on_append)

lemma packName_labels:
  "name \<noteq> [] \<Longrightarrow> name \<noteq> ''.'' \<Longrightarrow>
   packName name = concat (map pack_label (split_on CHR ''.'' name)) @ [0]"
  by (simp add: packName_def pack_scan_split)

lemma length_pack_label [simp]: "length (pack_label l) = length l + 1"
  by (simp add: pack_label_def)

lemma length_pointer_bytes [simp]: "length (pointer_bytes off) = 2"
  by (simp add: pointer_bytes_def)

subsection \<open>What the writers append does not depend on the bytes before\<close>

text \<open>\<open>same_output r1 b1 r2 b2\<close>: two runs append the same bytes and end with the same map.\<close>

definition same_output :: "pack_state \<Rightarrow> byte list \<Rightarrow> pack_state \<Rightarrow> byte list \<Rightarrow> bool" where
  "same_output r1 b1 r2 b2 \<longleftrightarrow> (\<exists>out names. r1 = (b1 @ out, names) \<and> r2 = (b2 @ out, names))"

lemma same_output_append:
  "same_output (f (b1 @ xs)) (b1 @ xs) (f (b2 @ xs)) (b2 @ xs) \<Longrightarrow>
   same_output (f (b1 @ xs)) b1 (f (b2 @ xs)) b2"
  by (auto simp: same_output_def)

lemma same_output_refl: "same_output (b1 @ xs, names) b1 (b2 @ xs, names) b2"
  by (auto simp: same_output_def)

lemma pack_labels_compressed_same:
  "length b1 = length b2 \<Longrightarrow>
   same_output (pack_labels_compressed b1 ls names) b1 (pack_labels_compressed b2 ls names) b2"
proof (induction ls arbitrary: b1 b2 names)
  case Nil
  then show ?case by (simp add: same_output_refl)
next
  case (Cons l ls)
  have "same_output (pack_labels_compressed (b1 @ pack_label l) ls nm) b1
          (pack_labels_compressed (b2 @ pack_label l) ls nm) b2" for nm
    by (rule same_output_append) (rule Cons.IH, simp add: Cons.prems)
  with Cons show ?case
    by (simp add: Let_def same_output_refl split: option.split)
qed

lemma packCompressedName_same:
  "length b1 = length b2 \<Longrightarrow>
   same_output (packCompressedName b1 name names) b1 (packCompressedName b2 name names) b2"
  by (simp add: packCompressedName_def Let_def same_output_refl pack_labels_compressed_same)

lemma appendRdata_same:
  "length b1 = length b2 \<Longrightarrow>
   same_output (appendRdata b1 rr raw names) b1 (appendRdata b2 rr raw names) b2"
proof -
  assume len: "length b1 = length b2"
  have "same_output (packCompressedName (b1 @ xs) name names) b1
          (packCompressedName (b2 @ xs) name names) b2" for xs name
    by (rule same_output_append) (rule packCompressedName_same, simp add: len)
  with len show ?thesis
    by (simp add: appendRdata_def Let_def same_output_refl packCompressedName_same split: option.split)
qed

lemma packCompressedName_out:
  obtains out names' where "packCompressedName buf name names = (buf @ out, names')"
  using packCompressedName_same [of buf buf name names] by (auto simp: same_output_def)

text \<open>
  Hence a record is written as its name, its ten fixed bytes and its rdata, where the rdata
  may be computed behind the fields themselves instead of their placeholders.
\<close>

definition rr_fields :: "RR \<Rightarrow> nat \<Rightarrow> byte list" where
  "rr_fields rr n = put16 (rr_type rr) @ put16 (rr_class rr) @ put32 (rr_ttl rr) @ put16 (of_nat n)"

lemma length_rr_fields [simp]: "length (rr_fields rr n) = 10"
  by (simp add: rr_fields_def)

lemma patch_fields:
  "put_at (put_at (put_at (put_at (xs @ replicate 10 0 @ out) (length xs) (put16 a))
       (length xs + 2) (put16 b)) (length xs + 4) (put32 c)) (length xs + 8) (put16 d) =
   xs @ put16 a @ put16 b @ put32 c @ put16 d @ out"
  by (simp add: put_at_def put16_def put32_def numeral_eq_Suc)

lemma length_put_at:
  "i + length bs \<le> length buf \<Longrightarrow> length (put_at buf i bs) = length buf"
  by (simp add: put_at_def)

lemma pack_rr_eq:
  obtains nm names1 out names2 where
    "packCompressedName buf (rr_name rr) names = (buf @ nm, names1)"
    "appendRdata (buf @ nm @ rr_fields rr (length out)) rr raw names1 =
       (buf @ nm @ rr_fields rr (length out) @ out, names2)"
    "pack_rr raw rr (buf, names) = (buf @ nm @ rr_fields rr (length out) @ out, names2)"
proof -
  from packCompressedName_out obtain nm names1 where
    nm: "packCompressedName buf (rr_name rr) names = (buf @ nm, names1)" by blast
  define xs where "xs = buf @ nm"
  obtain out names2 where
    zeros: "appendRdata (xs @ replicate 10 0) rr raw names1 = ((xs @ replicate 10 0) @ out, names2)"
    using appendRdata_same [OF refl, of "xs @ replicate 10 0"] unfolding same_output_def by blast
  then have out: "appendRdata (xs @ rr_fields rr (length out)) rr raw names1 =
      ((xs @ rr_fields rr (length out)) @ out, names2)"
    using appendRdata_same [of "xs @ replicate 10 0" "xs @ rr_fields rr (length out)" rr raw names1]
    by (auto simp: same_output_def)
  have "pack_rr raw rr (buf, names) = (xs @ rr_fields rr (length out) @ out, names2)"
    using patch_fields [of xs out "rr_type rr" "rr_class rr" "rr_ttl rr" "of_nat (length out)"]
    by (simp add: pack_rr_def nm zeros [simplified] Let_def rr_fields_def length_put_at flip: xs_def)
  with nm out show thesis using that by (simp add: xs_def)
qed

lemma pack_question_eq:
  "packCompressedName buf (q_name q) names = (buf @ nm, names1) \<Longrightarrow>
   pack_question q (buf, names) = (buf @ nm @ put16 (q_type q) @ put16 (q_class q), names1)"
  by (simp add: pack_question_def Let_def put_at_def put16_def)

end
