(* ===== verification/WireName.thy ===== *)
theory WireName
  imports DnsPack
begin

text \<open>
  The specification of a name on the wire, independent of how the code reads it: the relation
  \<open>wire_name\<close> gives the labels that start at an offset of a packet, through compression
  pointers that point strictly backwards. The parser computes it (\<open>parseName_wire\<close>), and it is
  kept when the packet grows (\<open>wire_name_append\<close>).
\<close>

subsection \<open>Names that DNS admits\<close>

text \<open>Labels of 1 to 63 ASCII bytes without a dot, at most 255 bytes in all; the empty name is the root.\<close>

definition ok_label :: "string \<Rightarrow> bool" where
  "ok_label l \<longleftrightarrow> l \<noteq> [] \<and> length l < 64 \<and> CHR ''.'' \<notin> set l \<and> is_ascii l"

definition ok_name :: "string \<Rightarrow> bool" where
  "ok_name n \<longleftrightarrow> length n \<le> 255 \<and> (n = [] \<or> list_all ok_label (split_on CHR ''.'' n))"

definition same_labels :: "string list \<Rightarrow> string list \<Rightarrow> bool" where
  "same_labels ls ms \<longleftrightarrow> map (map lower_char) ls = map (map lower_char) ms"

lemma same_labels_simps [simp]:
  "same_labels [] ms \<longleftrightarrow> ms = []" "same_labels ls [] \<longleftrightarrow> ls = []" "same_labels ls ls"
  "same_labels (l # ls) (m # ms) \<longleftrightarrow> map lower_char l = map lower_char m \<and> same_labels ls ms"
  by (auto simp: same_labels_def)

lemma ok_labels_join:
  "list_all ok_label ls \<Longrightarrow> is_ascii (join_with CHR ''.'' ls)"
  by (auto simp: is_ascii_join list_all_iff ok_label_def)

lemma to_lower_join:
  "list_all ok_label ls \<Longrightarrow>
   to_lower (join_with CHR ''.'' ls) = join_with CHR ''.'' (map (map lower_char) ls)"
  by (simp add: to_lower_ascii ok_labels_join map_join_with)

lemma same_labels_iff:
  assumes "list_all ok_label ls" "list_all ok_label ms" "ls \<noteq> []" "ms \<noteq> []"
  shows "same_labels ls ms \<longleftrightarrow>
         to_lower (join_with CHR ''.'' ls) = to_lower (join_with CHR ''.'' ms)"
proof -
  have "\<forall>l \<in> set (map (map lower_char) ns). CHR ''.'' \<notin> set l" if "list_all ok_label ns" for ns
    using that by (simp add: list_all_iff ok_label_def)
  then have "join_with CHR ''.'' (map (map lower_char) ls) = join_with CHR ''.'' (map (map lower_char) ms) \<longleftrightarrow>
      map (map lower_char) ls = map (map lower_char) ms"
    using assms by (intro inj_join_with) simp_all
  with assms show ?thesis by (simp add: to_lower_join same_labels_def)
qed

lemma same_labels_join:
  "same_labels ls ms \<Longrightarrow> list_all ok_label ls \<Longrightarrow> list_all ok_label ms \<Longrightarrow>
   to_lower (join_with CHR ''.'' ls) = to_lower (join_with CHR ''.'' ms)"
  by (simp add: to_lower_join same_labels_def)

subsection \<open>Label bytes and pointer bytes\<close>

lemma bit_less_exp: "(n :: nat) < 2 ^ k \<Longrightarrow> bit n i \<Longrightarrow> i < k"
  by (metis bit_take_bit_iff take_bit_nat_eq_self)

lemma bit_C0: "bit (0xC0 :: nat) i \<longleftrightarrow> i = 6 \<or> i = 7"
proof -
  have three: "bit (3 :: nat) k \<longleftrightarrow> k = 0 \<or> k = 1" for k
    by (cases k; cases "k - 1") (auto simp: bit_Suc bit_0)
  have "bit (push_bit 6 (3 :: nat)) i \<longleftrightarrow> 6 \<le> i \<and> bit (3 :: nat) (i - 6)"
    by (rule bit_push_bit_iff_nat)
  then show ?thesis by (auto simp: three push_bit_eq_mult)
qed

lemma bit_C0_int: "bit (0xC0 :: int) i \<longleftrightarrow> i = 6 \<or> i = 7"
  using bit_of_nat_iff_bit [of "0xC0" i, where 'a = int] by (simp add: bit_C0)

lemma label_byte:
  assumes "0 < n" "n < 64"
  shows "(of_nat n :: byte) \<noteq> 0" "(of_nat n :: byte) AND 0xC0 = 0" "unat (of_nat n :: byte) = n"
proof -
  show "unat (of_nat n :: byte) = n" using assms by (simp add: unat_of_nat)
  with assms show "(of_nat n :: byte) \<noteq> 0" by auto
  show "(of_nat n :: byte) AND 0xC0 = 0"
    using assms bit_less_exp [of n 6 6] bit_less_exp [of n 6 7]
    by (intro bit_word_eqI) (auto simp: bit_simps bit_C0_int)
qed

lemma pointer_word:
  assumes "off \<le> 0x3FFF"
  shows "(of_nat (0xC0 OR drop_bit 8 off) :: byte) AND 0xC0 = 0xC0"
    "unat (get16 (of_nat (0xC0 OR drop_bit 8 off)) (of_nat off) AND 0x3FFF) = off"
proof -
  have mask14: "(0x3FFF :: u16) = mask 14" by (simp add: mask_eq_exp_minus_1)
  show "(of_nat (0xC0 OR drop_bit 8 off) :: byte) AND 0xC0 = 0xC0"
    by (rule bit_word_eqI) (auto simp: bit_simps bit_C0 bit_C0_int)
  have "get16 (of_nat (0xC0 OR drop_bit 8 off)) (of_nat off) AND 0x3FFF = (of_nat off :: u16)"
  proof (rule bit_word_eqI)
    fix n
    assume n: "n < LENGTH(16)"
    have low: "14 \<le> n \<Longrightarrow> \<not> bit off n" using assms bit_less_exp [of off 14 n] by auto
    consider "n < 8" | "8 \<le> n" "n < 14" | "14 \<le> n" by linarith
    then show "bit (get16 (of_nat (0xC0 OR drop_bit 8 off)) (of_nat off) AND 0x3FFF) n \<longleftrightarrow>
        bit (of_nat off :: u16) n"
      using n low by cases (auto simp: mask14 get16_def bit_simps bit_C0)
  qed
  with assms show "unat (get16 (of_nat (0xC0 OR drop_bit 8 off)) (of_nat off) AND 0x3FFF) = off"
    by (simp add: unat_of_nat)
qed

subsection \<open>Names on the wire\<close>

text \<open>
  \<open>wire_name buf lim off ls e\<close>: from \<open>off\<close> the packet spells the labels \<open>ls\<close>, the name's own
  bytes end before \<open>e\<close>, and every pointer on the way points below the last one, the first
  below \<open>lim\<close>.
\<close>

inductive wire_name :: "byte list \<Rightarrow> nat \<Rightarrow> nat \<Rightarrow> string list \<Rightarrow> nat \<Rightarrow> bool" where
  wire_root: "off < length buf \<Longrightarrow> buf ! off = 0 \<Longrightarrow> wire_name buf lim off [] (off + 1)"
| wire_label:
    "ok_label l \<Longrightarrow> off + 1 + length l \<le> length buf \<Longrightarrow>
     slice buf off (off + 1 + length l) = pack_label l \<Longrightarrow>
     wire_name buf lim (off + 1 + length l) ls e \<Longrightarrow> wire_name buf lim off (l # ls) e"
| wire_pointer:
    "p < lim \<Longrightarrow> p \<le> 0x3FFF \<Longrightarrow> off + 2 \<le> length buf \<Longrightarrow>
     slice buf off (off + 2) = pointer_bytes p \<Longrightarrow>
     wire_name buf p p ls e \<Longrightarrow> wire_name buf lim off ls (off + 2)"

lemma wire_name_ok: "wire_name buf lim off ls e \<Longrightarrow> list_all ok_label ls"
  by (induction rule: wire_name.induct) auto

lemma wire_name_append: "wire_name buf lim off ls e \<Longrightarrow> wire_name (buf @ xs) lim off ls e"
proof (induction rule: wire_name.induct)
  case (wire_root off buf lim)
  then show ?case by (intro wire_name.wire_root) (simp_all add: nth_append)
next
  case (wire_label l off buf lim ls e)
  then show ?case by (intro wire_name.wire_label) (simp_all add: slice_append)
next
  case (wire_pointer p lim off buf ls e)
  then show ?case by (intro wire_name.wire_pointer) (simp_all add: slice_append)
qed

lemma wire_name_mono: "wire_name buf lim off ls e \<Longrightarrow> lim \<le> lim' \<Longrightarrow> wire_name buf lim' off ls e"
proof (induction rule: wire_name.induct)
  case (wire_root off buf lim)
  then show ?case by (intro wire_name.wire_root)
next
  case (wire_label l off buf lim ls e)
  then show ?case by (intro wire_name.wire_label) simp_all
next
  case (wire_pointer p lim off buf ls e)
  then show ?case by (intro wire_name.wire_pointer) simp_all
qed

lemma slice_nth: "slice buf i j = xs \<Longrightarrow> j \<le> length buf \<Longrightarrow> k < length xs \<Longrightarrow> buf ! (i + k) = xs ! k"
  by (auto simp: slice_def)

lemma slice_tail:
  "slice buf i (Suc i + n) = x # xs \<Longrightarrow> slice buf (Suc i) (Suc i + n) = xs"
  by (cases "drop i buf") (auto simp: slice_def drop_Suc simp flip: tl_drop)

text \<open>The text of the name read so far, as the parser accumulates it.\<close>

definition read_labels :: "byte list \<Rightarrow> string list \<Rightarrow> byte list" where
  "read_labels name ls = foldl (\<lambda>acc l. add_label acc (bytes_of l)) name ls"

lemma read_labels_Cons: "read_labels name (l # ls) = read_labels (add_label name (bytes_of l)) ls"
  by (simp add: read_labels_def)

lemma read_labels_join_from:
  "name \<noteq> [] \<Longrightarrow> read_labels name ls = name @ bytes_of (concat (map ((#) CHR ''.'') ls))"
proof (induction ls arbitrary: name)
  case (Cons l ls)
  then show ?case by (simp add: read_labels_Cons add_label_def bytes_of_Cons)
qed (simp add: read_labels_def)

lemma join_with_concat:
  "join_with c (l # ls) = l @ concat (map ((#) c) ls)"
  by (induction ls arbitrary: l) auto

lemma read_labels_join: "list_all ok_label ls \<Longrightarrow> read_labels [] ls = bytes_of (join_with CHR ''.'' ls)"
proof (cases ls)
  case (Cons l ms)
  assume "list_all ok_label ls"
  with Cons show ?thesis
    by (simp add: read_labels_Cons add_label_def read_labels_join_from join_with_concat ok_label_def
        del: join_with.simps)
qed (simp add: read_labels_def)

lemma parse_loop_wire:
  "wire_name buf lim off ls e \<Longrightarrow> \<forall>v \<in> set visited. lim \<le> v \<Longrightarrow>
   parse_name_loop buf off name visited stop = Inr (string_of (read_labels name ls), end_or stop e)"
proof (induction arbitrary: name visited stop rule: wire_name.induct)
  case (wire_root off buf lim)
  then show ?case by (subst parse_name_loop_unfold) (simp add: read_labels_def)
next
  case (wire_label l off buf lim ls e)
  have len: "0 < length l" "length l < 64" using wire_label.hyps(1) by (auto simp: ok_label_def)
  have b: "buf ! off = of_nat (length l)"
    using slice_nth [OF wire_label.hyps(3,2), of 0] by (simp add: pack_label_def)
  have "slice buf (off + 1) (off + 1 + length l) = bytes_of l"
    using wire_label.hyps(3) slice_tail [of buf off "length l"] by (simp add: pack_label_def)
  with label_byte [OF len] b wire_label show ?case
    by (subst parse_name_loop_unfold) (simp add: read_labels_Cons)
next
  case (wire_pointer p lim off buf ls e)
  have b: "buf ! off = of_nat (0xC0 OR drop_bit 8 p)" "buf ! (off + 1) = of_nat p"
    using slice_nth [OF wire_pointer.hyps(4,3), of 0] slice_nth [OF wire_pointer.hyps(4,3), of 1]
    by (simp_all add: pointer_bytes_def)
  note w = pointer_word [OF wire_pointer.hyps(2)]
  have nz: "buf ! off \<noteq> 0" using w(1) b(1) by auto
  have ptr: "unat (be16 buf off AND 0x3FFF) = p" using w(2) b by (simp add: be16_def)
  have "p \<notin> set visited" using wire_pointer.prems wire_pointer.hyps(1) by auto
  moreover have "parse_name_loop buf p name (p # visited) (Some (end_or stop (off + 2))) =
      Inr (string_of (read_labels name ls), end_or stop (off + 2))"
    using wire_pointer.IH [of "p # visited" name "Some (end_or stop (off + 2))"]
      wire_pointer.prems wire_pointer.hyps(1) by fastforce
  moreover have "buf ! off AND 0xC0 = 0xC0" using w(1) b(1) by simp
  ultimately show ?case
    using wire_pointer.hyps(3) nz by (subst parse_name_loop_unfold) (simp add: ptr Let_def)
qed

text \<open>The parser computes the specification.\<close>

lemma parseName_wire:
  "wire_name buf lim off ls e \<Longrightarrow> parseName buf off = Inr (join_with CHR ''.'' ls, e)"
  using parse_loop_wire [of buf lim off ls e "[]" "[]" None] wire_name_ok [of buf lim off ls e]
  by (simp add: parseName_def read_labels_join)

end
