(* ===== verification/DnsRoundtrip.thy ===== *)
theory DnsRoundtrip
  imports WireName
begin

text \<open>
  The writer and the parser of the wire format are inverse up to the case of names. The
  invariant of the compression map is \<open>names_ok\<close>: every remembered offset spells, in the
  packet written so far, a name that lower-cases to its key. Each writer keeps it and
  establishes \<open>wire_name\<close> for the name it writes; the parser then reads the packet back.
\<close>

subsection \<open>The invariant of the compression map\<close>

definition names_ok :: "byte list \<Rightarrow> (string \<rightharpoonup> nat) \<Rightarrow> bool" where
  "names_ok buf names \<longleftrightarrow>
     (\<forall>sfx p. names sfx = Some p \<longrightarrow>
        p < length buf \<and> p \<le> 0x3FFF \<and>
        (\<exists>ls e. ls \<noteq> [] \<and> wire_name buf p p ls e \<and> sfx = to_lower (join_with CHR ''.'' ls)))"

lemma names_ok_empty [simp]: "names_ok buf Map.empty"
  by (simp add: names_ok_def)

lemma names_okD:
  assumes "names_ok buf names" "names sfx = Some p"
  obtains ls e where "p < length buf" "p \<le> 0x3FFF" "ls \<noteq> []" "wire_name buf p p ls e"
    "sfx = to_lower (join_with CHR ''.'' ls)"
  using assms unfolding names_ok_def by metis

lemma names_ok_append: "names_ok buf names \<Longrightarrow> names_ok (buf @ xs) names"
  by (fastforce simp: names_ok_def intro: wire_name_append)

text \<open>
  While a name is being written, the map also holds the suffixes of this very name, whose
  bytes are not complete. They are longer than every suffix still to be looked up, so the
  lookup never finds them: \<open>pending\<close> says so.
\<close>

definition pending :: "(string \<rightharpoonup> nat) \<Rightarrow> (string \<rightharpoonup> nat) \<Rightarrow> nat \<Rightarrow> bool" where
  "pending complete names n \<longleftrightarrow>
     (\<forall>sfx p. names sfx = Some p \<longrightarrow> complete sfx = Some p \<or> n < length sfx)"

lemma pending_mono: "pending complete names n \<Longrightarrow> m \<le> n \<Longrightarrow> pending complete names m"
  unfolding pending_def by (meson le_less_trans)

lemma pending_update:
  "pending complete names n \<Longrightarrow> n < length s \<Longrightarrow> pending complete (names(s \<mapsto> p)) n"
  by (simp add: pending_def)

lemma length_join_Cons: "l \<noteq> [] \<Longrightarrow> length (join_with c ls) < length (join_with c (l # ls))"
  by (cases ls) auto

text \<open>An entry made while the name was written: it spells its suffix in the finished packet.\<close>

definition new_entry :: "byte list \<Rightarrow> nat \<Rightarrow> string \<Rightarrow> nat \<Rightarrow> bool" where
  "new_entry buf lim s p \<longleftrightarrow>
     lim \<le> p \<and> p < length buf \<and> p \<le> 0x3FFF \<and>
     (\<exists>ks e. ks \<noteq> [] \<and> wire_name buf lim p ks e \<and> s = to_lower (join_with CHR ''.'' ks))"

lemma pack_labels_wire:
  assumes "pack_labels_compressed buf ls names = (buf', names')"
    and "list_all ok_label ls" and "names_ok (take lim buf) complete" and "lim \<le> length buf"
    and "pending complete names (length (join_with CHR ''.'' ls))"
  shows "\<exists>ms. wire_name buf' lim (length buf) ms (length buf') \<and> same_labels ls ms \<and>
    (\<forall>s p. names' s = Some p \<longrightarrow> names s = Some p \<or> new_entry buf' lim s p)"
  using assms
proof (induction ls arbitrary: buf names)
  case Nil
  then have b: "buf' = buf @ [0]" by simp
  then have "wire_name buf' lim (length buf) [] (length buf')"
    using wire_root [of "length buf" buf' lim] by simp
  with Nil b show ?case by auto
next
  case (Cons l ls)
  define sfx where "sfx = to_lower (join_with CHR ''.'' (l # ls))"
  have ok: "ok_label l" "list_all ok_label ls" using Cons.prems(2) by auto
  have len_sfx: "length sfx = length (join_with CHR ''.'' (l # ls))"
    unfolding sfx_def using ok_labels_join [OF Cons.prems(2)] by (rule length_to_lower)
  show ?case
  proof (cases "\<exists>p. names sfx = Some p \<and> p \<le> 0x3FFF")
    case True
    then obtain p where p: "names sfx = Some p" "p \<le> 0x3FFF" by blast
    with Cons.prems(5) len_sfx have "complete sfx = Some p"
      unfolding pending_def by (metis less_irrefl)
    from names_okD [OF Cons.prems(3) this] obtain ms e where
      ms: "p < length (take lim buf)" "ms \<noteq> []" "wire_name (take lim buf) p p ms e"
        "sfx = to_lower (join_with CHR ''.'' ms)" by metis
    have out: "buf' = buf @ pointer_bytes p" "names' = names"
      using Cons.prems(1) ok(1) p by (auto simp: Let_def ok_label_def simp flip: sfx_def)
    have "wire_name buf' p p ms e"
      using wire_name_append [OF ms(3), of "drop lim buf @ pointer_bytes p"]
      by (simp add: out flip: append_assoc)
    then have "wire_name buf' lim (length buf) ms (length buf + 2)"
      using ms(1) p(2) slice_at [of buf "pointer_bytes p" "[]"]
      by (intro wire_pointer [where p = p]) (auto simp: out)
    moreover have "same_labels (l # ls) ms"
      using ms sfx_def wire_name_ok [OF ms(3)] Cons.prems(2) by (subst same_labels_iff) auto
    ultimately show ?thesis by (auto simp: out)
  next
    case False
    define names1 where "names1 = (if length buf \<le> 0x3FFF then names(sfx \<mapsto> length buf) else names)"
    have step: "pack_labels_compressed (buf @ pack_label l) ls names1 = (buf', names')"
      using Cons.prems(1) ok(1) False
      by (auto simp: Let_def ok_label_def names1_def simp flip: sfx_def split: option.splits)
    have "pending complete names1 (length (join_with CHR ''.'' ls))"
      using pending_mono [OF Cons.prems(5), of "length (join_with CHR ''.'' ls)"]
        length_join_Cons [of l "CHR ''.''" ls] ok(1) len_sfx
      by (auto simp: names1_def ok_label_def intro: pending_update)
    from Cons.IH [OF step ok(2) _ _ this] Cons.prems(3,4) obtain ms where
      ms: "wire_name buf' lim (length (buf @ pack_label l)) ms (length buf')" "same_labels ls ms"
      and new: "\<forall>s p. names' s = Some p \<longrightarrow> names1 s = Some p \<or> new_entry buf' lim s p"
      by auto
    obtain out where out: "buf' = (buf @ pack_label l) @ out"
      using pack_labels_compressed_same [OF refl, of "buf @ pack_label l" ls names1] step
      by (auto simp: same_output_def)
    have "wire_name buf' lim (length buf) (l # ms) (length buf')"
      using ms(1) ok(1) slice_at [of buf "pack_label l" out]
      by (intro wire_label) (auto simp: out)
    moreover have "sfx = to_lower (join_with CHR ''.'' (l # ms))"
      using same_labels_join [of "l # ls" "l # ms"] ms wire_name_ok [OF ms(1)] Cons.prems(2)
      by (simp add: sfx_def)
    ultimately have "length buf \<le> 0x3FFF \<Longrightarrow> new_entry buf' lim sfx (length buf)"
      using Cons.prems(4) out by (auto simp: new_entry_def)
    then have "\<forall>s p. names' s = Some p \<longrightarrow> names s = Some p \<or> new_entry buf' lim s p"
      using new by (auto simp: names1_def split: if_splits)
    moreover have "wire_name buf' lim (length buf) (l # ms) (length buf')" by fact
    moreover have "same_labels (l # ls) (l # ms)" using ms(2) by simp
    ultimately show ?thesis by blast
  qed
qed

subsection \<open>One name\<close>

definition same_name :: "string \<Rightarrow> string \<Rightarrow> bool" where
  "same_name n m \<longleftrightarrow> to_lower n = to_lower m"

lemma ok_label_ends: "ok_label l \<Longrightarrow> l \<noteq> [] \<and> hd l \<noteq> CHR ''.'' \<and> last l \<noteq> CHR ''.''"
  by (metis ok_label_def hd_in_set last_in_set)

lemma join_ok_ends:
  "list_all ok_label ls \<Longrightarrow> ls \<noteq> [] \<Longrightarrow>
   join_with CHR ''.'' ls \<noteq> [] \<and> hd (join_with CHR ''.'' ls) \<noteq> CHR ''.'' \<and>
   last (join_with CHR ''.'' ls) \<noteq> CHR ''.''"
proof (induction ls)
  case (Cons l ls)
  from Cons.prems(1) have "l \<noteq> []" "hd l \<noteq> CHR ''.''" "last l \<noteq> CHR ''.''"
    using ok_label_ends [of l] by simp_all
  with Cons show ?case by (cases ls) simp_all
qed simp

lemma ok_name_trim: "ok_name n \<Longrightarrow> trim_dots n = n"
  using join_ok_ends [of "split_on CHR ''.'' n"]
  by (auto simp: ok_name_def join_split intro!: trim_dots_id)

lemma packCompressedName_wire:
  assumes pack: "packCompressedName buf name names = (buf', names')"
    and ok: "ok_name name" and inv: "names_ok buf names"
  shows "\<exists>ms. wire_name buf' (length buf) (length buf) ms (length buf') \<and>
     same_name name (join_with CHR ''.'' ms) \<and> names_ok buf' names'"
proof (cases "name = []")
  case True
  with pack have b: "buf' = buf @ [0]" "names' = names"
    by (simp_all add: packCompressedName_def trim_dots_def)
  then have "wire_name buf' (length buf) (length buf) [] (length buf')"
    using wire_root [of "length buf" buf' "length buf"] by simp
  with True b inv show ?thesis by (auto simp: same_name_def intro: names_ok_append)
next
  case False
  with ok have labels: "list_all ok_label (split_on CHR ''.'' name)" by (simp add: ok_name_def)
  have "pack_labels_compressed buf (split_on CHR ''.'' name) names = (buf', names')"
    using pack False by (simp add: packCompressedName_def ok_name_trim [OF ok])
  from pack_labels_wire [OF this labels, of "length buf" names] inv obtain ms where
    ms: "wire_name buf' (length buf) (length buf) ms (length buf')"
      "same_labels (split_on CHR ''.'' name) ms"
    and new: "\<forall>s p. names' s = Some p \<longrightarrow> names s = Some p \<or> new_entry buf' (length buf) s p"
    by (auto simp: pending_def)
  obtain out where out: "buf' = buf @ out"
    using packCompressedName_out [of buf name names] pack by auto
  have "names_ok buf' names'"
    unfolding names_ok_def
  proof (intro allI impI)
    fix s p
    assume "names' s = Some p"
    with new consider "names s = Some p" | "new_entry buf' (length buf) s p" by blast
    then show "p < length buf' \<and> p \<le> 0x3FFF \<and>
        (\<exists>ls e. ls \<noteq> [] \<and> wire_name buf' p p ls e \<and> s = to_lower (join_with CHR ''.'' ls))"
    proof cases
      case 1
      then show ?thesis
        using names_ok_append [OF inv, of out] by (simp add: names_ok_def out)
    next
      case 2
      then show ?thesis unfolding new_entry_def using wire_name_mono by blast
    qed
  qed
  moreover have "same_name name (join_with CHR ''.'' ms)"
    using same_labels_join [OF ms(2) labels wire_name_ok [OF ms(1)]]
    by (simp add: same_name_def join_split)
  ultimately show ?thesis using ms(1) by blast
qed

text \<open>What the parser reads at the start of a name that was just written.\<close>

lemma packCompressedName_read:
  assumes "packCompressedName buf name names = (buf @ nm, names')"
    and "ok_name name" and "names_ok buf names"
  obtains name' where "\<And>ys. parseName (buf @ nm @ ys) (length buf) = Inr (name', length (buf @ nm))"
    and "same_name name name'" and "names_ok (buf @ nm) names'"
proof -
  from packCompressedName_wire [OF assms] obtain ms where
    ms: "wire_name (buf @ nm) (length buf) (length buf) ms (length (buf @ nm))"
      "same_name name (join_with CHR ''.'' ms)" "names_ok (buf @ nm) names'"
    by blast
  have "parseName (buf @ nm @ ys) (length buf) = Inr (join_with CHR ''.'' ms, length (buf @ nm))" for ys
    using parseName_wire [OF wire_name_append [OF ms(1), of ys]] by simp
  with ms that show thesis by blast
qed

lemma pack_labels_length:
  "length (fst (pack_labels_compressed buf ls names)) \<le>
     length buf + length (join_with CHR ''.'' ls) + 2"
proof (induction ls arbitrary: buf names)
  case (Cons l ls)
  have IH: "length (fst (pack_labels_compressed (buf @ pack_label l) ls nm)) \<le>
      length buf + length (join_with CHR ''.'' (l # ls)) + 2" for nm
  proof (cases "ls = []")
    case False
    with Cons.IH [of "buf @ pack_label l" nm] show ?thesis by (simp add: join_with_Cons)
  qed simp
  have "length (join_with CHR ''.'' ls) \<le> length (join_with CHR ''.'' (l # ls))"
    by (cases ls) auto
  with IH Cons.IH [of buf names] show ?case
    by (auto simp: Let_def split: option.split)
qed simp

lemma packCompressedName_length:
  assumes "packCompressedName buf name names = (buf @ nm, names')" "ok_name name"
  shows "length nm \<le> 257"
proof (cases "name = []")
  case True
  with assms show ?thesis by (auto simp: packCompressedName_def trim_dots_def)
next
  case False
  with assms pack_labels_length [of buf "split_on CHR ''.'' name" names] show ?thesis
    by (auto simp: packCompressedName_def ok_name_trim join_split ok_name_def)
qed

end
