(* ===== verification/MessageRoundtrip.thy ===== *)
theory MessageRoundtrip
  imports DnsRoundtrip
begin

text \<open>
  The round trip of whole messages: what \<open>Pack\<close> writes, \<open>ParseMessage\<close> reads back with the
  same header fields, counts, questions and records. Names agree up to the case of ASCII
  letters, because a compression pointer may reuse a suffix spelled with other capitals;
  the names inside the rdata of NS, CNAME, PTR and MX records agree in the same sense, and
  all other rdata is unchanged. \<open>ok_message\<close> states what DNS admits: legal names, sections
  below \<open>2 ^ 16\<close> entries, rdata below \<open>2 ^ 16\<close> bytes.
\<close>

subsection \<open>Admissible messages and their equality\<close>

definition name_rdata :: "u16 \<Rightarrow> bool" where
  "name_rdata t \<longleftrightarrow> t \<in> {TypeNS, TypeCNAME, TypePTR, TypeMX}"

definition ok_rr :: "byte list \<Rightarrow> RR \<Rightarrow> bool" where
  "ok_rr raw rr \<longleftrightarrow>
     ok_name (rr_name rr) \<and>
     (if name_rdata (rr_type rr)
      then (\<exists>n. rdataName rr raw = Some n \<and> ok_name n) \<and>
           (rr_type rr = TypeMX \<longrightarrow> 2 \<le> length (rr_data rr))
      else length (rr_data rr) < 65536)"

definition ok_message :: "message \<Rightarrow> bool" where
  "ok_message m \<longleftrightarrow>
     list_all (\<lambda>q. ok_name (q_name q)) (Questions m) \<and>
     list_all (ok_rr (Raw m)) (Answers m @ Authority m @ Additional m) \<and>
     length (Questions m) < 65536 \<and> length (Answers m) < 65536 \<and>
     length (Authority m) < 65536 \<and> length (Additional m) < 65536"

definition same_question :: "question \<Rightarrow> question \<Rightarrow> bool" where
  "same_question q q' \<longleftrightarrow>
     same_name (q_name q) (q_name q') \<and> q_type q' = q_type q \<and> q_class q' = q_class q"

definition same_rdata :: "byte list \<Rightarrow> byte list \<Rightarrow> RR \<Rightarrow> RR \<Rightarrow> bool" where
  "same_rdata raw raw' rr rr' \<longleftrightarrow>
     (if name_rdata (rr_type rr)
      then (\<exists>n n'. rdataName rr raw = Some n \<and> rdataName rr' raw' = Some n' \<and> same_name n n') \<and>
           (rr_type rr = TypeMX \<longrightarrow> take 2 (rr_data rr') = take 2 (rr_data rr))
      else rr_data rr' = rr_data rr)"

definition same_rr :: "byte list \<Rightarrow> byte list \<Rightarrow> RR \<Rightarrow> RR \<Rightarrow> bool" where
  "same_rr raw raw' rr rr' \<longleftrightarrow>
     same_name (rr_name rr) (rr_name rr') \<and>
     rr_type rr' = rr_type rr \<and> rr_class rr' = rr_class rr \<and> rr_ttl rr' = rr_ttl rr \<and>
     same_rdata raw raw' rr rr'"

subsection \<open>One question\<close>

lemma be16_put16: "be16 (xs @ put16 w @ ys) (length xs) = w"
  by (rule be16_at)

lemma pack_question_read:
  assumes "ok_name (q_name q)" "names_ok buf names"
  obtains out names' q' where "pack_question q (buf, names) = (buf @ out, names')"
    "names_ok (buf @ out) names'" "same_question q q'"
    "\<And>ys. parse_question (buf @ out @ ys) (length buf) = Inr (q', length (buf @ out))"
proof -
  obtain nm names' where nm: "packCompressedName buf (q_name q) names = (buf @ nm, names')"
    using packCompressedName_out by metis
  from packCompressedName_read [OF nm assms] obtain name' where
    name': "\<And>ys. parseName (buf @ nm @ ys) (length buf) = Inr (name', length (buf @ nm))"
    and same: "same_name (q_name q) name'" and inv: "names_ok (buf @ nm) names'" by metis
  define out where "out = nm @ put16 (q_type q) @ put16 (q_class q)"
  define q' where "q' = \<lparr>q_name = name', q_type = q_type q, q_class = q_class q\<rparr>"
  have "parse_question (buf @ out @ ys) (length buf) = Inr (q', length (buf @ out))" for ys
    using name' [of "put16 (q_type q) @ put16 (q_class q) @ ys"]
      be16_at [of "buf @ nm" "q_type q" "put16 (q_class q) @ ys"]
      be16_at [of "buf @ nm @ put16 (q_type q)" "q_class q" ys]
    by (simp add: parse_question_def out_def q'_def)
  moreover have "pack_question q (buf, names) = (buf @ out, names')"
    using pack_question_eq [OF nm] by (simp add: out_def)
  moreover have "names_ok (buf @ out) names'"
    using names_ok_append [OF inv] by (simp add: out_def)
  moreover have "same_question q q'" using same by (simp add: same_question_def q'_def)
  ultimately show thesis using that by blast
qed

subsection \<open>One record\<close>

lemma rr_fields_read:
  "be16 (xs @ rr_fields rr k @ ys) (length xs) = rr_type rr"
  "be16 (xs @ rr_fields rr k @ ys) (length xs + 2) = rr_class rr"
  "be32 (xs @ rr_fields rr k @ ys) (length xs + 4) = rr_ttl rr"
  "be16 (xs @ rr_fields rr k @ ys) (length xs + 8) = of_nat k"
  using be16_at [of xs "rr_type rr"] be16_at [of "xs @ put16 (rr_type rr)" "rr_class rr"]
    be32_at [of "xs @ put16 (rr_type rr) @ put16 (rr_class rr)" "rr_ttl rr"]
    be16_at [of "xs @ put16 (rr_type rr) @ put16 (rr_class rr) @ put32 (rr_ttl rr)" "of_nat k"]
  by (simp_all add: rr_fields_def)

text \<open>The rdata that \<open>appendRdata\<close> writes, and what \<open>rdataName\<close> later reads from it.\<close>

lemma appendRdata_read:
  assumes app: "appendRdata buf rr raw names = (buf @ out, names')"
    and ok: "ok_rr raw rr" and inv: "names_ok buf names" and pos: "12 \<le> length buf"
  shows "length out < 65536 \<and> names_ok (buf @ out) names' \<and>
     (\<forall>rr' ys. rr_data rr' = out \<longrightarrow> rr_offset rr' = length buf \<longrightarrow> rr_type rr' = rr_type rr \<longrightarrow>
        same_rdata raw (buf @ out @ ys) rr rr')"
proof (cases "name_rdata (rr_type rr)")
  case False
  with app ok inv show ?thesis
    by (auto simp: appendRdata_def name_rdata_def ok_rr_def same_rdata_def intro: names_ok_append)
next
  case True
  define pre where "pre = (if rr_type rr = TypeMX then take 2 (rr_data rr) else [])"
  from True ok obtain n where n: "rdataName rr raw = Some n" "ok_name n"
    and mx: "rr_type rr = TypeMX \<Longrightarrow> 2 \<le> length (rr_data rr)"
    by (auto simp: ok_rr_def)
  have pre_len: "length pre = (if rr_type rr = TypeMX then 2 else 0)"
    using mx by (simp add: pre_def)
  have "rr_type rr = TypeMX \<Longrightarrow> (case rr_data rr of a # b # _ \<Rightarrow> [a, b] | _ \<Rightarrow> [0, 0]) = pre"
    using mx by (auto simp: pre_def numeral_2_eq_2 Suc_le_length_iff)
  then have "packCompressedName (buf @ pre) n names = (buf @ out, names')"
    using app True n(1) by (auto simp: appendRdata_def name_rdata_def pre_def)
  moreover obtain nm names'' where "packCompressedName (buf @ pre) n names = ((buf @ pre) @ nm, names'')"
    using packCompressedName_out by metis
  ultimately have nm: "packCompressedName (buf @ pre) n names = ((buf @ pre) @ nm, names')"
    and out: "out = pre @ nm" by auto
  from packCompressedName_read [OF nm n(2) names_ok_append [OF inv]] obtain n' where
    n': "\<And>ys. parseName ((buf @ pre) @ nm @ ys) (length (buf @ pre)) = Inr (n', length ((buf @ pre) @ nm))"
      "same_name n n'" "names_ok ((buf @ pre) @ nm) names'" by metis
  have nonempty: "0 < length nm" using parseName_end [OF n'(1) [of "[]"]] by simp
  have "rdataName rr' (buf @ out @ ys) = Some n'"
    if "rr_offset rr' = length buf" "rr_type rr' = rr_type rr" for ys rr'
    using n'(1) [of ys] nonempty that pos pre_len by (auto simp: rdataName_def out Let_def)
  moreover have "length out < 65536"
    using packCompressedName_length [OF nm n(2)] pre_len by (auto simp: out split: if_splits)
  moreover have "rr_type rr = TypeMX \<Longrightarrow> take 2 out = take 2 (rr_data rr)"
    using pre_len mx by (simp add: out pre_def)
  ultimately show ?thesis using True n' n(1) out by (auto simp: same_rdata_def)
qed

lemma pack_rr_read:
  assumes ok: "ok_rr raw rr" and inv: "names_ok buf names" and pos: "12 \<le> length buf"
  obtains out names' rr' where "pack_rr raw rr (buf, names) = (buf @ out, names')"
    "names_ok (buf @ out) names'"
    "\<And>ys. same_rr raw (buf @ out @ ys) rr rr'"
    "\<And>ys. parse_rr (buf @ out @ ys) (length buf) = Inr (rr', length (buf @ out))"
proof -
  obtain nm names1 rd names2 where
    nm: "packCompressedName buf (rr_name rr) names = (buf @ nm, names1)"
    and rd: "appendRdata (buf @ nm @ rr_fields rr (length rd)) rr raw names1 =
       (buf @ nm @ rr_fields rr (length rd) @ rd, names2)"
    and pack: "pack_rr raw rr (buf, names) = (buf @ nm @ rr_fields rr (length rd) @ rd, names2)"
    using pack_rr_eq by metis
  define fs where "fs = rr_fields rr (length rd)"
  define out where "out = nm @ fs @ rd"
  have name_ok: "ok_name (rr_name rr)" using ok by (simp add: ok_rr_def)
  from packCompressedName_read [OF nm name_ok inv] obtain name' where
    name': "\<And>ys. parseName (buf @ nm @ ys) (length buf) = Inr (name', length (buf @ nm))"
    and same: "same_name (rr_name rr) name'" and inv1: "names_ok (buf @ nm) names1" by metis
  have inv2: "names_ok (buf @ nm @ fs) names1"
    using names_ok_append [OF inv1, of fs] by simp
  define rr' where "rr' = \<lparr>rr_name = name', rr_type = rr_type rr, rr_class = rr_class rr,
      rr_ttl = rr_ttl rr, rr_data = rd, rr_offset = length (buf @ nm) + 10\<rparr>"
  have "appendRdata (buf @ nm @ fs) rr raw names1 = ((buf @ nm @ fs) @ rd, names2)"
    using rd by (simp add: fs_def)
  note rdata = appendRdata_read [OF this ok inv2]
  have len: "unat (of_nat (length rd) :: u16) = length rd"
    using rdata pos by (simp add: unat_of_nat)
  have "parse_rr (buf @ out @ ys) (length buf) = Inr (rr', length (buf @ out))" for ys
    using name' [of "fs @ rd @ ys"] rr_fields_read [of "buf @ nm" rr "length rd" "rd @ ys"] len
      slice_at [of "buf @ nm @ fs" rd ys]
    by (simp add: parse_rr_def out_def fs_def rr'_def ac_simps)
  moreover have "same_rr raw (buf @ out @ ys) rr rr'" for ys
    using rdata pos same by (simp add: same_rr_def rr'_def out_def fs_def)
  moreover have "names_ok (buf @ out) names2"
    using rdata pos by (simp add: out_def)
  moreover have "pack_rr raw rr (buf, names) = (buf @ out, names2)"
    using pack by (simp add: out_def fs_def)
  ultimately show thesis using that by blast
qed

subsection \<open>Sections\<close>

lemma pack_questions_read:
  assumes "list_all (\<lambda>q. ok_name (q_name q)) qs" and "names_ok buf names"
  shows "\<exists>out names' qs'. fold pack_question qs (buf, names) = (buf @ out, names') \<and>
    names_ok (buf @ out) names' \<and> list_all2 same_question qs qs' \<and>
    (\<forall>ys. parse_questions (buf @ out @ ys) (length buf) (length qs) = Inr (qs', length (buf @ out)))"
  using assms
proof (induction qs arbitrary: buf names)
  case Nil
  then show ?case by (auto intro!: exI [where x = "[]"])
next
  case (Cons q qs)
  then have ok: "ok_name (q_name q)" "list_all (\<lambda>q. ok_name (q_name q)) qs" by auto
  obtain out1 names1 q' where
    q: "pack_question q (buf, names) = (buf @ out1, names1)" "same_question q q'"
      "\<And>ys. parse_question (buf @ out1 @ ys) (length buf) = Inr (q', length (buf @ out1))"
    and inv: "names_ok (buf @ out1) names1"
    using pack_question_read [OF ok(1) Cons.prems(2)] by metis
  from Cons.IH [OF ok(2) inv] obtain out2 names2 qs' where
    "fold pack_question qs (buf @ out1, names1) = ((buf @ out1) @ out2, names2)"
    "names_ok ((buf @ out1) @ out2) names2" "list_all2 same_question qs qs'"
    "\<And>ys. parse_questions ((buf @ out1) @ out2 @ ys) (length (buf @ out1)) (length qs) =
       Inr (qs', length ((buf @ out1) @ out2))"
    by blast
  with q q(3) [of "out2 @ _"] show ?case
    by (intro exI [where x = "out1 @ out2"] exI [where x = names2] exI [where x = "q' # qs'"]) simp
qed

lemma pack_rrs_read:
  assumes "list_all (ok_rr raw) rrs" and "names_ok buf names" and "12 \<le> length buf"
  shows "\<exists>out names' rrs'. fold (pack_rr raw) rrs (buf, names) = (buf @ out, names') \<and>
    names_ok (buf @ out) names' \<and>
    (\<forall>ys. list_all2 (same_rr raw (buf @ out @ ys)) rrs rrs' \<and>
       parseRRs (buf @ out @ ys) (length buf) (length rrs) = Inr (rrs', length (buf @ out)))"
  using assms
proof (induction rrs arbitrary: buf names)
  case Nil
  then show ?case by (auto intro!: exI [where x = "[]"])
next
  case (Cons rr rrs)
  then have ok: "ok_rr raw rr" "list_all (ok_rr raw) rrs" by auto
  obtain out1 names1 rr' where
    rr: "pack_rr raw rr (buf, names) = (buf @ out1, names1)"
      "\<And>ys. same_rr raw (buf @ out1 @ ys) rr rr'"
      "\<And>ys. parse_rr (buf @ out1 @ ys) (length buf) = Inr (rr', length (buf @ out1))"
    and inv: "names_ok (buf @ out1) names1"
    using pack_rr_read [OF ok(1) Cons.prems(2,3)] by metis
  from Cons.IH [OF ok(2) inv] Cons.prems(3) obtain out2 names2 rrs' where
    "fold (pack_rr raw) rrs (buf @ out1, names1) = ((buf @ out1) @ out2, names2)"
    "names_ok ((buf @ out1) @ out2) names2"
    "\<And>ys. list_all2 (same_rr raw ((buf @ out1) @ out2 @ ys)) rrs rrs'"
    "\<And>ys. parseRRs ((buf @ out1) @ out2 @ ys) (length (buf @ out1)) (length rrs) =
       Inr (rrs', length ((buf @ out1) @ out2))"
    by auto
  with rr rr(2,3) [of "out2 @ _"] show ?case
    by (intro exI [where x = "out1 @ out2"] exI [where x = names2] exI [where x = "rr' # rrs'"]) simp
qed

lemma pack_header_read:
  "length (pack_header m) = 12"
  "be16 (pack_header m @ ys) 0 = ID m"
  "be16 (pack_header m @ ys) 2 = Flags m"
  "be16 (pack_header m @ ys) 4 = of_nat (length (Questions m))"
  "be16 (pack_header m @ ys) 6 = of_nat (length (Answers m))"
  "be16 (pack_header m @ ys) 8 = of_nat (length (Authority m))"
  "be16 (pack_header m @ ys) 10 = of_nat (length (Additional m))"
  by (simp_all add: pack_header_def put16_def be16_def get16_put16)

subsection \<open>Whole messages\<close>

lemma message_roundtrip:
  assumes "ok_message m"
  shows "\<exists>m'. ParseMessage (Pack m) = Inr m' \<and> ID m' = ID m \<and> Flags m' = Flags m \<and>
    list_all2 same_question (Questions m) (Questions m') \<and>
    list_all2 (same_rr (Raw m) (Raw m')) (Answers m) (Answers m') \<and>
    list_all2 (same_rr (Raw m) (Raw m')) (Authority m) (Authority m') \<and>
    list_all2 (same_rr (Raw m) (Raw m')) (Additional m) (Additional m')"
proof -
  define hd where "hd = pack_header m"
  have ok: "list_all (\<lambda>q. ok_name (q_name q)) (Questions m)"
    "list_all (ok_rr (Raw m)) (Answers m)" "list_all (ok_rr (Raw m)) (Authority m)"
    "list_all (ok_rr (Raw m)) (Additional m)"
    and short: "length (Questions m) < 65536" "length (Answers m) < 65536"
      "length (Authority m) < 65536" "length (Additional m) < 65536"
    using assms by (auto simp: ok_message_def)
  obtain qo qn qs where
    q: "fold pack_question (Questions m) (hd, Map.empty) = (hd @ qo, qn)" "names_ok (hd @ qo) qn"
      "list_all2 same_question (Questions m) qs"
      "\<And>ys. parse_questions (hd @ qo @ ys) (length hd) (length (Questions m)) =
         Inr (qs, length (hd @ qo))"
    using pack_questions_read [OF ok(1) names_ok_empty] by metis
  have len: "length hd = 12" by (simp add: hd_def pack_header_read)
  obtain ao an ans where
    a: "fold (pack_rr (Raw m)) (Answers m) (hd @ qo, qn) = ((hd @ qo) @ ao, an)"
      "names_ok ((hd @ qo) @ ao) an"
      "\<And>ys. list_all2 (same_rr (Raw m) ((hd @ qo) @ ao @ ys)) (Answers m) ans"
      "\<And>ys. parseRRs ((hd @ qo) @ ao @ ys) (length (hd @ qo)) (length (Answers m)) =
         Inr (ans, length ((hd @ qo) @ ao))"
    using pack_rrs_read [OF ok(2) q(2)] len by auto
  obtain uo un aut where
    u: "fold (pack_rr (Raw m)) (Authority m) ((hd @ qo) @ ao, an) = (((hd @ qo) @ ao) @ uo, un)"
      "names_ok (((hd @ qo) @ ao) @ uo) un"
      "\<And>ys. list_all2 (same_rr (Raw m) (((hd @ qo) @ ao) @ uo @ ys)) (Authority m) aut"
      "\<And>ys. parseRRs (((hd @ qo) @ ao) @ uo @ ys) (length ((hd @ qo) @ ao)) (length (Authority m)) =
         Inr (aut, length (((hd @ qo) @ ao) @ uo))"
    using pack_rrs_read [OF ok(3) a(2)] len by auto
  obtain xo xn add where
    x: "fold (pack_rr (Raw m)) (Additional m) (((hd @ qo) @ ao) @ uo, un) =
         ((((hd @ qo) @ ao) @ uo) @ xo, xn)"
      "\<And>ys. list_all2 (same_rr (Raw m) ((((hd @ qo) @ ao) @ uo) @ xo @ ys)) (Additional m) add"
      "\<And>ys. parseRRs ((((hd @ qo) @ ao) @ uo) @ xo @ ys) (length (((hd @ qo) @ ao) @ uo))
           (length (Additional m)) = Inr (add, length ((((hd @ qo) @ ao) @ uo) @ xo))"
    using pack_rrs_read [OF ok(4) u(2)] len by auto
  have pack: "Pack m = hd @ qo @ ao @ uo @ xo"
    using q(1) a(1) u(1) x(1) by (simp add: Pack_def flip: hd_def)
  have unat: "unat (of_nat n :: u16) = n" if "n < 65536" for n
    using that by (simp add: unat_of_nat)
  define m' where "m' = \<lparr>ID = ID m, Flags = Flags m, QDCount = of_nat (length (Questions m)),
     ANCount = of_nat (length (Answers m)), NSCount = of_nat (length (Authority m)),
     ARCount = of_nat (length (Additional m)), Questions = qs, Answers = ans, Authority = aut,
     Additional = add, Raw = Pack m\<rparr>"
  have "ParseMessage (Pack m) = Inr m'"
    using q(4) [of "ao @ uo @ xo"] a(4) [of "uo @ xo"] u(4) [of xo] x(3) [of "[]"] len short
      pack_header_read(2-) [of m "qo @ ao @ uo @ xo"]
    by (simp add: ParseMessage_unfold pack m'_def unat flip: hd_def)
  moreover have "list_all2 same_question (Questions m) (Questions m') \<and>
    list_all2 (same_rr (Raw m) (Raw m')) (Answers m) (Answers m') \<and>
    list_all2 (same_rr (Raw m) (Raw m')) (Authority m) (Authority m') \<and>
    list_all2 (same_rr (Raw m) (Raw m')) (Additional m) (Additional m')"
    using q(3) a(3) [of "uo @ xo"] u(3) [of xo] x(2) [of "[]"] by (simp add: m'_def pack)
  ultimately show ?thesis by (intro exI [where x = m']) (simp add: m'_def)
qed

text \<open>
  C2: parsing what \<open>Pack\<close> wrote gives the message back. The header's ID and flags are
  unchanged, and the four sections have the same entries in the same order: names agree up
  to ASCII case, whether they were written in full or as compression pointers; types,
  classes, TTLs and rdata are unchanged.
\<close>

theorem Pack_ParseMessage_roundtrip:
  assumes "ok_message m"
  shows "\<exists>m'. ParseMessage (Pack m) = Inr m' \<and> ID m' = ID m \<and> Flags m' = Flags m \<and>
    list_all2 same_question (Questions m) (Questions m') \<and>
    list_all2 (same_rr (Raw m) (Raw m')) (Answers m) (Answers m') \<and>
    list_all2 (same_rr (Raw m) (Raw m')) (Authority m) (Authority m') \<and>
    list_all2 (same_rr (Raw m) (Raw m')) (Additional m) (Additional m')"
  using assms by (rule message_roundtrip)

text \<open>
  An answer with two MX records whose owner and mail host share a suffix, so that the packet
  holds pointers in the owner names and in the rdata.
\<close>

definition sample_message :: message where
  "sample_message = empty_message\<lparr>ID := 7, Flags := 0x8180,
     Questions := [\<lparr>q_name = ''ab.c'', q_type = TypeMX, q_class = ClassIN\<rparr>],
     Answers := [\<lparr>rr_name = ''AB.c'', rr_type = TypeMX, rr_class = ClassIN, rr_ttl = 60,
                  rr_data = [0, 10, 1, 109, 1, 99, 0], rr_offset = 0\<rparr>]\<rparr>"

lemma sample_message_ok: "ok_message sample_message"
proof -
  have "rdataName (hd (Answers sample_message)) (Raw sample_message) = Some ''m.c''" by code_simp
  moreover have "ok_name ''m.c''" "ok_name ''ab.c''" "ok_name ''AB.c''" by code_simp+
  ultimately show ?thesis
    by (simp add: ok_message_def ok_rr_def sample_message_def empty_message_def)
qed

lemma Pack_ParseMessage_roundtrip_witness:
  "\<exists>m'. ParseMessage (Pack sample_message) = Inr m' \<and>
     list_all2 (same_rr (Raw sample_message) (Raw m')) (Answers sample_message) (Answers m')"
  using Pack_ParseMessage_roundtrip [OF sample_message_ok] by blast

end
