(* ===== verification/NameCodec.thy ===== *)
theory NameCodec
  imports WireName
begin

text \<open>
  Names outside a packet: \<open>packName\<close> (\<open>PackName\<close>), which the record store and the DNSSEC
  validator use to build rdata and signed data, against \<open>parseUncompressedName\<close>, which reads
  a name from rdata that has no packet around it.
\<close>

lemma parse_uncompressed_labels:
  "list_all ok_label ls \<Longrightarrow>
   parse_uncompressed_loop (xs @ concat (map pack_label ls) @ 0 # ys) (length xs) name =
     Inr (string_of (read_labels name ls), length xs + length (concat (map pack_label ls)) + 1)"
proof (induction ls arbitrary: xs name)
  case Nil
  then show ?case
    by (subst parse_uncompressed_loop.simps) (simp add: read_byte_def read_labels_def)
next
  case (Cons l ls)
  define rest where "rest = concat (map pack_label ls) @ 0 # ys"
  have len: "0 < length l" "length l < 64" using Cons.prems by (auto simp: ok_label_def)
  have cut: "slice (xs @ pack_label l @ rest) (Suc (length xs)) (Suc (length xs + length l)) = bytes_of l"
    using slice_at [of "xs @ [of_nat (length l)]" "bytes_of l" rest] by (simp add: pack_label_def)
  have "parse_uncompressed_loop (xs @ pack_label l @ rest) (length xs) name =
      parse_uncompressed_loop ((xs @ pack_label l) @ rest) (length (xs @ pack_label l))
        (add_label name (bytes_of l))"
    using cut label_byte [OF len]
    by (subst parse_uncompressed_loop.simps) (simp add: pack_label_def nth_append read_byte_def)
  with Cons.IH [of "xs @ pack_label l" "add_label name (bytes_of l)"] Cons.prems show ?case
    by (simp add: rest_def read_labels_Cons)
qed

text \<open>
  A legal name survives \<open>packName\<close> and \<open>parseUncompressedName\<close> exactly, letter case
  included, and the parser stops at the end of the name whatever bytes follow.
\<close>

theorem parseUncompressedName_packName:
  assumes "ok_name n"
  shows "parseUncompressedName (packName n @ ys) = Inr (n, length (packName n))"
proof (cases "n = []")
  case True
  then show ?thesis
    by (simp add: parseUncompressedName_def packName_def)
      (subst parse_uncompressed_loop.simps, simp add: read_byte_def)
next
  case False
  with assms have ok: "list_all ok_label (split_on CHR ''.'' n)" by (simp add: ok_name_def)
  moreover have "n \<noteq> ''.''" using ok by (auto simp: ok_label_def)
  ultimately show ?thesis
    using parse_uncompressed_labels [OF ok, of "[]" ys "[]"] False
    by (simp add: parseUncompressedName_def packName_labels read_labels_join join_split)
qed

lemma parseUncompressedName_packName_witness:
  "parseUncompressedName (packName ''ns1.Example.com'' @ [7, 7]) = Inr (''ns1.Example.com'', 17)"
proof -
  have "ok_name ''ns1.Example.com''" "length (packName ''ns1.Example.com'') = 17" by code_simp+
  then show ?thesis
    using parseUncompressedName_packName [of "''ns1.Example.com''" "[7, 7]"] by simp
qed

text \<open>
  \<open>packName\<close> does not drop the dot of a fully qualified name: it writes the empty label
  behind it as a second terminating zero, so the name takes one byte too many and whatever
  follows it in rdata is displaced.
\<close>

theorem packName_trailing_dot:
  assumes "n \<noteq> ''''" "n \<noteq> ''.''"
  shows "packName (n @ ''.'') = packName n @ [0]"
proof -
  have "split_on c (s @ [c]) = split_on c s @ [[]]" for c and s :: string
    by (induction s) (auto split: list.splits)
  with assms show ?thesis by (simp add: packName_labels pack_label_def)
qed

lemma packName_trailing_dot_witness:
  "packName ''a.b.'' = [1, 97, 1, 98, 0, 0]"
proof -
  have "packName ''a.b'' = [1, 97, 1, 98, 0]" by code_simp
  then show ?thesis using packName_trailing_dot [of "''a.b''"] by simp
qed

end
