(* ===== verification/Float64.thy ===== *)
theory Float64
  imports Complex_Main "HOL-Library.Log_Nat" "HOL-Library.Signed_Division" Prelude
begin

text \<open>
  IEEE 754 binary64 arithmetic as the program uses it. A finite float is the rational it
  stands for, and every operation is the exact operation followed by \<open>round64\<close>, rounding to
  nearest with ties to even at 53 significant bits. Overflow and subnormal results do not
  occur for the magnitudes involved (seconds, tokens, rates) and are not modelled.
\<close>

subsection \<open>The binade of a positive rational\<close>

definition log2_nat :: "nat \<Rightarrow> nat" where
  "log2_nat n = floorlog 2 n - 1"

definition binade :: "rat \<Rightarrow> int" where
  "binade x =
     (case quotient_of x of (p, q) \<Rightarrow>
        let e = int (log2_nat (nat p)) - int (log2_nat (nat q))
        in if x < 2 powi e then e - 1 else e)"

lemma log2_nat_bounds: "0 < n \<Longrightarrow> 2 ^ log2_nat n \<le> n \<and> n < 2 ^ (log2_nat n + 1)"
  using floorlog_bounds [of n 2] floorlog_eq_zero_iff [of 2 n]
  by (cases "floorlog 2 n") (simp_all add: log2_nat_def)

lemma powi_nat:
  "2 powi (int a - int b - 1) = (2 ^ a / (2 * 2 ^ b) :: rat)"
  "2 powi (int a - int b + 1) = (2 * 2 ^ a / 2 ^ b :: rat)"
proof -
  have "2 powi (int a - int b) = (2 ^ a / 2 ^ b :: rat)"
    by (simp add: power_int_diff)
  then show "2 powi (int a - int b - 1) = (2 ^ a / (2 * 2 ^ b) :: rat)"
    "2 powi (int a - int b + 1) = (2 * 2 ^ a / 2 ^ b :: rat)"
    by (subst power_int_diff power_int_add; simp)+
qed

lemma binade_bounds:
  assumes "0 < x"
  shows "2 powi binade x \<le> x \<and> x < 2 powi (binade x + 1)"
proof -
  obtain p q where pq: "quotient_of x = (p, q)" by (cases "quotient_of x")
  then have q: "0 < q" and x: "x = of_int p / of_int q"
    by (simp_all add: quotient_of_denom_pos quotient_of_div)
  with assms have p: "0 < p" by (simp add: zero_less_divide_iff)
  define a where "a = log2_nat (nat p)"
  define b where "b = log2_nat (nat q)"
  have ab_nat: "2 ^ a \<le> nat p" "nat p < 2 ^ (a + 1)" "2 ^ b \<le> nat q" "nat q < 2 ^ (b + 1)"
    using log2_nat_bounds [of "nat p"] log2_nat_bounds [of "nat q"] p q by (simp_all add: a_def b_def)
  have pn: "(of_int p :: rat) = of_nat (nat p)" and qn: "(of_int q :: rat) = of_nat (nat q)"
    using p q by simp_all
  have ab: "(2 ^ a :: rat) \<le> of_int p" "of_int p < (2 ^ (a + 1) :: rat)"
    "(2 ^ b :: rat) \<le> of_int q" "of_int q < (2 ^ (b + 1) :: rat)"
    using of_nat_less_iff [where 'a = rat, THEN iffD2, OF ab_nat(2)]
      of_nat_less_iff [where 'a = rat, THEN iffD2, OF ab_nat(4)]
      of_nat_mono [where 'a = rat, OF ab_nat(1)] of_nat_mono [where 'a = rat, OF ab_nat(3)]
    unfolding pn qn by simp_all
  have "2 ^ a * (of_int q :: rat) < 2 ^ a * 2 ^ (b + 1)"
    using ab(4) by simp
  also have "\<dots> \<le> 2 * 2 ^ b * of_int p"
    using mult_left_mono [OF ab(1), of "2 * 2 ^ b"] by (simp add: algebra_simps)
  finally have low: "2 powi (int a - int b - 1) \<le> x"
    using q unfolding x powi_nat by (simp add: field_simps)
  have "(of_int p :: rat) * 2 ^ b < 2 ^ (a + 1) * 2 ^ b"
    using ab(2) by simp
  also have "\<dots> \<le> 2 ^ (a + 1) * of_int q"
    using mult_left_mono [OF ab(3), of "2 ^ (a + 1)"] by simp
  finally have high: "x < 2 powi (int a - int b + 1)"
    using q unfolding x powi_nat by (simp add: field_simps)
  show ?thesis
    using low high pq by (auto simp: binade_def a_def b_def Let_def)
qed

lemma binade_mono:
  assumes "0 < x" "x \<le> y"
  shows "binade x \<le> binade y"
proof (rule ccontr)
  assume "\<not> binade x \<le> binade y"
  then have "2 powi (binade y + 1) \<le> (2 powi binade x :: rat)"
    by (intro power_int_increasing) simp_all
  with binade_bounds [of x] binade_bounds [of y] assms show False by simp
qed

subsection \<open>Rounding\<close>

text \<open>To the nearest integer, ties to even.\<close>

definition round_even :: "rat \<Rightarrow> int" where
  "round_even y =
     (let f = \<lfloor>y\<rfloor>; d = y - of_int f
      in if d < 1/2 then f else if 1/2 < d then f + 1 else if even f then f else f + 1)"

definition ulp :: "rat \<Rightarrow> rat" where
  "ulp x = 2 powi (binade x - 52)"

definition round64 :: "rat \<Rightarrow> rat" where
  "round64 x =
     (if x = 0 then 0
      else if 0 < x then of_int (round_even (x / ulp x)) * ulp x
      else - (of_int (round_even (- x / ulp (- x))) * ulp (- x)))"

lemma round_even_bounds: "\<lfloor>y\<rfloor> \<le> round_even y \<and> round_even y \<le> \<lfloor>y\<rfloor> + 1"
  by (simp add: round_even_def Let_def)

lemma round_even_of_int [simp]: "round_even (of_int k) = k"
  by (simp add: round_even_def)

lemma round_even_mono:
  assumes "x \<le> y"
  shows "round_even x \<le> round_even y"
proof (cases "\<lfloor>x\<rfloor> = \<lfloor>y\<rfloor>")
  case True
  with assms show ?thesis by (auto simp: round_even_def Let_def)
next
  case False
  with floor_mono [OF assms] have "\<lfloor>x\<rfloor> + 1 \<le> \<lfloor>y\<rfloor>" by simp
  with round_even_bounds [of x] round_even_bounds [of y] show ?thesis by linarith
qed

lemma ulp_pos [simp]: "0 < ulp x"
  by (simp add: ulp_def)

lemma scaled_bounds:
  assumes "0 < x"
  shows "of_int (2 ^ 52) \<le> x / ulp x" "x / ulp x \<le> of_int (2 ^ 53)"
proof -
  have "2 powi binade x = ulp x * 2 ^ 52" "2 powi (binade x + 1) = ulp x * 2 ^ 53"
    by (simp_all add: ulp_def power_int_diff power_int_add)
  with binade_bounds [OF assms] show "of_int (2 ^ 52) \<le> x / ulp x" "x / ulp x \<le> of_int (2 ^ 53)"
    by (simp_all add: pos_le_divide_eq pos_divide_le_eq mult.commute)
qed

lemma round64_pos:
  assumes "0 < x"
  shows "2 powi binade x \<le> round64 x" "round64 x \<le> 2 powi (binade x + 1)"
proof -
  have pow: "2 powi binade x = 2 ^ 52 * ulp x" "2 powi (binade x + 1) = 2 ^ 53 * ulp x"
    by (simp_all add: ulp_def power_int_diff power_int_add)
  have "2 ^ 52 \<le> round_even (x / ulp x)" "round_even (x / ulp x) \<le> 2 ^ 53"
    using round_even_mono [OF scaled_bounds(1) [OF assms]]
      round_even_mono [OF scaled_bounds(2) [OF assms]]
    by (simp_all only: round_even_of_int)
  then have "(of_int (2 ^ 52) :: rat) \<le> of_int (round_even (x / ulp x))"
    "of_int (round_even (x / ulp x)) \<le> (of_int (2 ^ 53) :: rat)"
    by (simp_all only: of_int_le_iff)
  then show "2 powi binade x \<le> round64 x" "round64 x \<le> 2 powi (binade x + 1)"
    using assms unfolding pow by (simp_all add: round64_def)
qed

lemma round64_0 [simp]: "round64 0 = 0"
  by (simp add: round64_def)

lemma round64_minus: "round64 (- x) = - round64 x"
  by (auto simp: round64_def)

lemma round64_nonneg: "0 \<le> x \<Longrightarrow> 0 \<le> round64 x"
proof (cases "x = 0")
  case False
  assume "0 \<le> x"
  with False have "0 < x" by simp
  from round64_pos(1) [OF this] show ?thesis
    by (meson less_le_trans less_imp_le zero_less_numeral zero_less_power_int)
qed simp

lemma round64_mono_pos:
  assumes "0 < x" "x \<le> y"
  shows "round64 x \<le> round64 y"
proof (cases "binade x = binade y")
  case True
  then have "x / ulp x \<le> y / ulp y" using assms by (simp add: ulp_def divide_right_mono)
  from round_even_mono [OF this] True assms show ?thesis
    by (simp add: round64_def ulp_def)
next
  case False
  with binade_mono [OF assms] have "binade x + 1 \<le> binade y" by simp
  then have "2 powi (binade x + 1) \<le> (2 powi binade y :: rat)"
    by (intro power_int_increasing) simp_all
  with round64_pos(2) [OF assms(1)] round64_pos(1) [of y] assms show ?thesis by linarith
qed

lemma round64_mono: "x \<le> y \<Longrightarrow> round64 x \<le> round64 y"
  using round64_mono_pos [of x y] round64_mono_pos [of "- y" "- x"]
    round64_nonneg [of y] round64_nonneg [of "- x"]
  by (cases "0 < x"; cases "y < 0") (auto simp: round64_minus)

text \<open>Rounding changes no number that fits in 53 bits.\<close>

lemma round64_fix_pos:
  assumes "0 < k" "k < 2 ^ 53"
  shows "round64 (of_int k * 2 powi j) = of_int k * 2 powi j"
proof -
  define x :: rat where "x = of_int k * 2 powi j"
  have x: "0 < x" using assms by (simp add: x_def)
  have "(of_int k :: rat) < 2 ^ 53"
    using assms(2) of_int_less_iff [of k "2 ^ 53", where 'a = rat] by simp
  then have "x < 2 powi (53 + j)" by (simp add: x_def power_int_add)
  with binade_bounds [OF x] have "(2 powi binade x :: rat) < 2 powi (53 + j)" by linarith
  then have "binade x < 53 + j"
    using power_int_increasing [of "53 + j" "binade x" "2 :: rat"] by fastforce
  define n where "n = nat (j - (binade x - 52))"
  have n: "j = binade x - 52 + int n"
    using \<open>binade x < 53 + j\<close> by (simp add: n_def)
  have "(2 powi j :: rat) = 2 powi (binade x - 52) * 2 ^ n"
    by (subst n, subst power_int_add) simp_all
  then have "of_int (k * 2 ^ n) * ulp x = of_int k * 2 powi j"
    unfolding ulp_def by simp
  then have "x = of_int (k * 2 ^ n) * ulp x"
    unfolding x_def [symmetric] by (rule sym)
  then have "x / ulp x = of_int (k * 2 ^ n)"
    using ulp_pos [of x] by (metis less_irrefl nonzero_mult_div_cancel_right)
  then have "round64 x = of_int (k * 2 ^ n) * ulp x"
    using x unfolding round64_def by (simp only: round_even_of_int) simp
  also have "\<dots> = x" by (rule \<open>x = of_int (k * 2 ^ n) * ulp x\<close> [symmetric])
  finally show ?thesis unfolding x_def .
qed

lemma round64_fix:
  assumes "\<bar>k\<bar> < 2 ^ 53"
  shows "round64 (of_int k * 2 powi j) = of_int k * 2 powi j"
proof -
  consider "k = 0" | "0 < k" | "0 < - k" by linarith
  then show ?thesis
    using round64_fix_pos [of k j] round64_fix_pos [of "- k" j] assms
    by cases (simp_all add: round64_minus)
qed

lemma round64_of_int [simp]: "\<bar>k\<bar> < 2 ^ 53 \<Longrightarrow> round64 (of_int k) = of_int k"
  using round64_fix [of k 0] by simp

subsection \<open>Durations in seconds\<close>

text \<open>\<open>d.Seconds()\<close>: the whole seconds and the remaining nanoseconds, each converted, and added.\<close>

definition duration_seconds :: "int \<Rightarrow> rat" where
  "duration_seconds d =
     (let sec = d sdiv second; nsec = d smod second
      in round64 (round64 (of_int sec) + round64 (round64 (of_int nsec) / 1000000000)))"

text \<open>
  \<open>uint32(f)\<close> truncates towards zero. Outside the range of \<open>uint32\<close> Go leaves the result to the
  implementation; on amd64 it is the truncated value modulo \<open>2 ^ 32\<close>.
\<close>

definition u32_of_float :: "rat \<Rightarrow> u32" where
  "u32_of_float x = of_int (if 0 \<le> x then \<lfloor>x\<rfloor> else \<lceil>x\<rceil>)"

text \<open>Adding a fraction below \<open>1 - 2 ^ -30\<close> to a whole number below \<open>2 ^ 22\<close> does not carry.\<close>

definition below_one :: rat where
  "below_one = (2 ^ 30 - 1) / 2 ^ 30"

lemma round64_add_fraction:
  assumes "0 \<le> q" "q < 2 ^ 22" "0 \<le> x" "x \<le> below_one"
  shows "of_int q \<le> round64 (of_int q + round64 x)" "round64 (of_int q + round64 x) < of_int q + 1"
proof -
  have "round64 x \<le> round64 below_one" using assms(4) by (rule round64_mono)
  also have "round64 below_one = below_one"
    using round64_fix [of "2 ^ 30 - 1" "- 30"] by (simp add: below_one_def power_int_minus)
  finally have f: "0 \<le> round64 x" "round64 x \<le> below_one"
    using assms(3) by (simp_all add: round64_nonneg)
  have "round64 (of_int q) \<le> round64 (of_int q + round64 x)" using f by (intro round64_mono) simp
  then show "of_int q \<le> round64 (of_int q + round64 x)" using assms(1,2) by simp
  have "round64 (of_int q + round64 x) \<le> round64 (of_int q + below_one)" using f by (intro round64_mono) simp
  also have "of_int q + below_one = of_int (q * 2 ^ 30 + (2 ^ 30 - 1)) * 2 powi (- 30)"
    by (simp add: below_one_def power_int_minus field_simps)
  also have "round64 \<dots> = \<dots>" using assms(1,2) by (intro round64_fix) simp
  also have "\<dots> < of_int q + 1" by (simp add: power_int_minus field_simps)
  finally show "round64 (of_int q + round64 x) < of_int q + 1" .
qed

lemma duration_seconds_bounds:
  assumes "0 \<le> d" "d < 2 ^ 22 * second"
  shows "of_int (d div second) \<le> duration_seconds d"
    "duration_seconds d < of_int (d div second) + 1"
proof -
  define s where "s = d div second"
  define n where "n = d mod second"
  have sn: "0 \<le> s" "s < 2 ^ 22" "0 \<le> n" "n \<le> 999999999"
    using assms by (simp_all add: s_def n_def second_def pos_imp_zdiv_nonneg_iff div_less_iff_less_mult)
  have sd: "d sdiv second = s" "d smod second = n"
    using assms by (simp_all add: s_def n_def second_def signed_divide_int_def
        signed_modulo_int_def sgn_if)
  have "(of_int n :: rat) \<le> 999999999" using sn(4) by linarith
  then have x: "0 \<le> of_int n / (1000000000 :: rat)" "of_int n / 1000000000 \<le> below_one"
    using sn(3) by (simp_all add: below_one_def)
  have "duration_seconds d = round64 (of_int s + round64 (of_int n / 1000000000))"
    using sn by (simp add: duration_seconds_def Let_def sd)
  with round64_add_fraction [OF sn(1,2) x]
  show "of_int (d div second) \<le> duration_seconds d" "duration_seconds d < of_int (d div second) + 1"
    by (simp_all add: s_def)
qed

lemma duration_seconds_floor:
  "0 \<le> d \<Longrightarrow> d < 2 ^ 22 * second \<Longrightarrow> \<lfloor>duration_seconds d\<rfloor> = d div second"
  using duration_seconds_bounds [of d] by (simp add: floor_eq_iff)

text \<open>For durations below \<open>2 ^ 22\<close> seconds (48 days) the conversion is the floor.\<close>

lemma u32_duration_seconds:
  assumes "0 \<le> d" "d < 2 ^ 22 * second"
  shows "u32_of_float (duration_seconds d) = of_int (d div second)"
proof -
  have "(0 :: rat) \<le> of_int (d div second)"
    using assms(1) by (simp add: second_def pos_imp_zdiv_nonneg_iff)
  with duration_seconds_bounds(1) [OF assms] have "0 \<le> duration_seconds d" by linarith
  then show ?thesis by (simp add: u32_of_float_def duration_seconds_floor [OF assms])
qed

end
