(* ===== verification/ExpiringStore.thy ===== *)
theory ExpiringStore
  imports Prelude
begin

text \<open>
  The contract that the caches of the program share: a keyed store that changes only through
  a fixed set of operations, each of which writes at most one key, and whose readers hide
  values that have expired. A client of such a store may rely on one thing, proved here once
  for every history of operations: what it reads was written under that key by an earlier
  operation, no later operation wrote the key, and the value is still fresh. The response
  cache, its negative part, the cache of zone keys of the validator and the sessions and
  nonces of the dashboard are interpretations.
\<close>

text \<open>The last write to a key in a history, computed from the operations alone.\<close>

fun last_write ::
  "('op \<Rightarrow> 's \<Rightarrow> 's) \<Rightarrow> ('s \<Rightarrow> 'op \<Rightarrow> ('k \<times> 'v) option) \<Rightarrow> 's \<Rightarrow> 'op list \<Rightarrow> 'k \<Rightarrow> 'v option" where
  "last_write step writes s [] k = None"
| "last_write step writes s (op # ops) k =
     (case last_write step writes (step op s) ops k of
        Some v \<Rightarrow> Some v
      | None \<Rightarrow> (case writes s op of
                  Some (k', v) \<Rightarrow> if k' = k then Some v else None
                | None \<Rightarrow> None))"

lemma last_write_append:
  "last_write step writes s (xs @ ys) k =
     (case last_write step writes (fold step xs s) ys k of
        Some v \<Rightarrow> Some v
      | None \<Rightarrow> last_write step writes s xs k)"
  by (induction xs arbitrary: s) (auto split: option.split)

lemma last_write_split:
  "last_write step writes s ops k = Some v \<Longrightarrow>
   \<exists>pre op post. ops = pre @ op # post \<and> writes (fold step pre s) op = Some (k, v) \<and>
     last_write step writes (step op (fold step pre s)) post k = None"
proof (induction ops rule: rev_induct)
  case (snoc op ops)
  show ?case
  proof (cases "writes (fold step ops s) op = Some (k, v)")
    case True
    then show ?thesis by (intro exI [of _ ops] exI [of _ op] exI [of _ "[]"]) simp
  next
    case False
    with snoc.prems have none: "last_write step writes (fold step ops s) [op] k = None"
      and "last_write step writes s ops k = Some v"
      by (auto simp: last_write_append split: option.splits if_splits)
    from snoc.IH [OF this(2)] obtain pre x post where
      x: "ops = pre @ x # post" "writes (fold step pre s) x = Some (k, v)"
        "last_write step writes (step x (fold step pre s)) post k = None" by blast
    with none have "last_write step writes (step x (fold step pre s)) (post @ [op]) k = None"
      by (simp add: last_write_append)
    with x show ?thesis by (intro exI [of _ pre] exI [of _ x] exI [of _ "post @ [op]"]) simp
  qed
qed simp

locale keyed_store =
  fixes inv :: "'s \<Rightarrow> bool"
    and find :: "'s \<Rightarrow> 'k \<Rightarrow> 'v option"
    and step :: "'op \<Rightarrow> 's \<Rightarrow> 's"
    and writes :: "'s \<Rightarrow> 'op \<Rightarrow> ('k \<times> 'v) option"
  assumes step_inv: "inv s \<Longrightarrow> inv (step op s)"
    and step_find: "inv s \<Longrightarrow> find (step op s) k = Some v \<Longrightarrow>
      writes s op = Some (k, v) \<or> (find s k = Some v \<and> (\<forall>w. writes s op \<noteq> Some (k, w)))"
begin

lemma fold_inv: "inv s \<Longrightarrow> inv (fold step ops s)"
  by (induction ops arbitrary: s) (auto intro: step_inv)

lemma find_provenance:
  "inv s \<Longrightarrow> find (fold step ops s) k = Some v \<Longrightarrow>
   last_write step writes s ops k = Some v \<or>
   (last_write step writes s ops k = None \<and> find s k = Some v)"
proof (induction ops arbitrary: s)
  case (Cons op ops)
  from Cons.prems(1) have "inv (step op s)" by (rule step_inv)
  with Cons.IH [of "step op s"] Cons.prems step_find [of s op k v] show ?case
    by (auto split: option.split)
qed simp

lemma find_provenance_empty:
  "inv s \<Longrightarrow> find s k = None \<Longrightarrow> find (fold step ops s) k = Some v \<Longrightarrow>
   last_write step writes s ops k = Some v"
  using find_provenance by fastforce

end

text \<open>A store whose values expire: the reader sees a value only while it is fresh.\<close>

locale expiring_store = keyed_store inv find step writes
  for inv :: "'s \<Rightarrow> bool"
    and find :: "'s \<Rightarrow> 'k \<Rightarrow> 'v option"
    and step :: "'op \<Rightarrow> 's \<Rightarrow> 's"
    and writes :: "'s \<Rightarrow> 'op \<Rightarrow> ('k \<times> 'v) option" +
  fixes fresh :: "int \<Rightarrow> 'v \<Rightarrow> bool"
    and read :: "int \<Rightarrow> 's \<Rightarrow> 'k \<Rightarrow> 'v option"
  assumes read_find: "inv s \<Longrightarrow> read t s k = Some v \<longleftrightarrow> find s k = Some v \<and> fresh t v"
begin

lemma read_provenance:
  assumes "inv s" "find s k = None" "read t (fold step ops s) k = Some v"
  shows "last_write step writes s ops k = Some v \<and> fresh t v"
  using assms find_provenance_empty read_find fold_inv by metis

lemma read_after_write:
  assumes "inv s" "find (step op s) k = Some v" "fresh t v"
  shows "read t (step op s) k = Some v"
  using assms read_find step_inv by metis

end

end
