(* ===== verification/Cache.thy ===== *)
theory Cache
  imports DnsMessage Float64 ExpiringStore
begin

text \<open>
  The response cache of \<open>internal/cache/cache.go\<close>. A shard's maps are association lists with
  distinct keys, because the eviction of \<open>Set\<close> ranges over the map: the order of that range,
  which Go leaves open, is the argument \<open>ord\<close>. Each \<open>time.Now()\<close> of the source is an
  argument of its own, in nanoseconds since the zero time. An entry is a pointer in Go, and a
  prefetch goroutine keeps it while the map may forget it: \<open>ce_id\<close> is its address, and
  \<open>allocated\<close> counts the allocations. The operations hold the shard's lock from their first
  access of a map to the last one, except \<open>Get\<close>, which touches only the entry afterwards,
  and \<open>evictShard\<close>, whose lock sections are modelled one by one. \<open>Flush\<close> and the tick of \<open>evictLoop\<close> go from
  shard to shard, here in one step. Messages are values here and pointers in Go: after \<open>Set\<close> the
  handler that resolved a message, and those that waited for it, still write their ID, three flags
  and questions into it (\<open>HandleQuery\<close>), so these fields of a stored message are not determined;
  \<open>Get\<close> returns a copy, in which every handler overwrites them.
\<close>

subsection \<open>State\<close>

type_synonym cacheKey = "string \<times> u16"

record cacheEntry =
  ce_msg :: message
  ce_expires :: int
  ce_cached :: int
  ce_prefetching :: bool
  ce_id :: nat

record negEntry =
  ne_expires :: int

record cacheShard =
  entries :: "(cacheKey \<times> cacheEntry) list"
  negative :: "(cacheKey \<times> negEntry) list"

record Cache =
  shards :: "cacheShard list"
  prefetchFn :: bool
  minTTL :: u32
  maxPerShard :: int
  allocated :: nat

definition numShards :: nat where
  "numShards = 64"

definition NewCache :: Cache where
  "NewCache =
     \<lparr>shards = replicate numShards \<lparr>entries = [], negative = []\<rparr>, prefetchFn = False,
      minTTL = 0, maxPerShard = 0, allocated = 0\<rparr>"

definition SetMinTTL :: "u32 \<Rightarrow> Cache \<Rightarrow> Cache" where
  "SetMinTTL n c = c\<lparr>minTTL := n\<rparr>"

definition SetMaxSize :: "int \<Rightarrow> Cache \<Rightarrow> Cache" where
  "SetMaxSize n c =
     (if 0 < n then c\<lparr>maxPerShard := wrap64 (n + int numShards - 1) sdiv int numShards\<rparr>
      else c\<lparr>maxPerShard := 0\<rparr>)"

definition SetPrefetchFn :: "Cache \<Rightarrow> Cache" where
  "SetPrefetchFn c = c\<lparr>prefetchFn := True\<rparr>"

subsection \<open>Shards\<close>

definition shardIdx :: "cacheKey \<Rightarrow> u32" where
  "shardIdx k =
     (let h = foldl fnv_byte 2166136261 (bytes_of (fst k));
          h' = (h XOR ucast (snd k)) * 16777619
      in h' AND 63)"

definition shard_no :: "cacheKey \<Rightarrow> nat" where
  "shard_no k = unat (shardIdx k)"

definition shard :: "Cache \<Rightarrow> cacheKey \<Rightarrow> cacheShard" where
  "shard c k = shards c ! shard_no k"

definition put_shard :: "cacheKey \<Rightarrow> cacheShard \<Rightarrow> Cache \<Rightarrow> Cache" where
  "put_shard k s c = c\<lparr>shards := (shards c)[shard_no k := s]\<rparr>"

subsection \<open>Negative entries\<close>

definition SetNegative :: "int \<Rightarrow> string \<Rightarrow> u16 \<Rightarrow> int \<Rightarrow> Cache \<Rightarrow> Cache" where
  "SetNegative now name qtype ttl c =
     (let ttl = (if ttl = 0 then 300 else ttl);
          k = (name, qtype); s = shard c k;
          e = \<lparr>ne_expires = now + wrap64 (ttl * second)\<rparr>
      in put_shard k (s\<lparr>negative := AList.update k e (negative s)\<rparr>) c)"

definition IsNegative :: "int \<Rightarrow> string \<Rightarrow> u16 \<Rightarrow> Cache \<Rightarrow> bool" where
  "IsNegative now name qtype c =
     (case map_of (negative (shard c (name, qtype))) (name, qtype) of
        None \<Rightarrow> False
      | Some e \<Rightarrow> now < ne_expires e)"

subsection \<open>Reading\<close>

definition decrementRRs :: "RR list \<Rightarrow> u32 \<Rightarrow> RR list" where
  "decrementRRs rrs elapsed =
     map (\<lambda>rr. if elapsed < rr_ttl rr then rr\<lparr>rr_ttl := rr_ttl rr - elapsed\<rparr>
               else rr\<lparr>rr_ttl := 0\<rparr>) rrs"

definition cloneMessageWithDecrementedTTL :: "message \<Rightarrow> u32 \<Rightarrow> message" where
  "cloneMessageWithDecrementedTTL msg elapsed =
     (if elapsed = 0 then msg
      else msg\<lparr>Answers := decrementRRs (Answers msg) elapsed,
               Authority := decrementRRs (Authority msg) elapsed,
               Additional := decrementRRs (Additional msg) elapsed\<rparr>)"

definition elapsed_seconds :: "int \<Rightarrow> int \<Rightarrow> u32" where
  "elapsed_seconds now cached = u32_of_float (duration_seconds (time_sub now cached))"

text \<open>
  \<open>Get\<close> reads the clock up to three times: for the expiry test, for the time remaining and for
  the age. The result also says whether a prefetch goroutine was started; its own steps are
  the call of \<open>prefetchFn\<close> and \<open>prefetch_done\<close> below.
\<close>

definition Get ::
  "int \<Rightarrow> int \<Rightarrow> int \<Rightarrow> bool \<Rightarrow> string \<Rightarrow> u16 \<Rightarrow> Cache \<Rightarrow> message option \<times> bool \<times> Cache" where
  "Get t1 t2 t3 prefetch name qtype c =
     (let k = (name, qtype); s = shard c k
      in case map_of (entries s) k of
           None \<Rightarrow> (None, False, c)
         | Some e \<Rightarrow>
             if ce_expires e < t1 then (None, False, c)
             else
               let total = time_sub (ce_expires e) (ce_cached e);
                   remaining = time_sub (ce_expires e) t2;
                   start = prefetch \<and> prefetchFn c \<and> remaining < total sdiv 10 \<and>
                           \<not> ce_prefetching e;
                   c' = (if start
                         then put_shard k
                                (s\<lparr>entries := AList.update k (e\<lparr>ce_prefetching := True\<rparr>) (entries s)\<rparr>) c
                         else c)
               in (Some (cloneMessageWithDecrementedTTL (ce_msg e) (elapsed_seconds t3 (ce_cached e))),
                   start, c'))"

subsection \<open>Writing\<close>

text \<open>The zero \<open>ttl\<close> of a message without answers and of one whose TTLs are all \<open>2^32 - 1\<close>.\<close>

definition lowestTTL :: "message \<Rightarrow> u32" where
  "lowestTTL msg =
     (let m = foldl (\<lambda>m rr. if rr_ttl rr < m then rr_ttl rr else m) 0xFFFFFFFF (Answers msg)
      in if m = 0xFFFFFFFF then 0 else m)"

text \<open>The range loop of \<open>Set\<close>: the earliest expiry so far (0 is the zero time) and its key.\<close>

definition evict_scan :: "(cacheKey \<times> cacheEntry) list \<Rightarrow> int \<times> cacheKey" where
  "evict_scan items =
     foldl (\<lambda>(earliest, evictKey) (ek, ee).
              if earliest = 0 \<or> ce_expires ee < earliest then (ce_expires ee, ek)
              else (earliest, evictKey))
       (0, ('''', 0)) items"

type_synonym range_order = "(cacheKey \<times> cacheEntry) list \<Rightarrow> (cacheKey \<times> cacheEntry) list"

definition entry_ttl :: "Cache \<Rightarrow> message \<Rightarrow> u32" where
  "entry_ttl c msg =
     (let ttl = lowestTTL msg in if 0 < minTTL c \<and> ttl < minTTL c then minTTL c else ttl)"

definition Set :: "range_order \<Rightarrow> int \<Rightarrow> string \<Rightarrow> u16 \<Rightarrow> message \<Rightarrow> Cache \<Rightarrow> Cache" where
  "Set ord now name qtype msg c =
     (if lowestTTL msg = 0 then c
      else
        let ttl = entry_ttl c msg;
            k = (name, qtype); s = shard c k;
            es = (if 0 < maxPerShard c \<and> maxPerShard c \<le> int (length (entries s)) \<and>
                     map_of (entries s) k = None
                  then AList.delete (snd (evict_scan (ord (entries s)))) (entries s)
                  else entries s);
            e = \<lparr>ce_msg = msg, ce_expires = now + uint ttl * second, ce_cached = now,
                 ce_prefetching = False, ce_id = allocated c\<rparr>
        in put_shard k (s\<lparr>entries := AList.update k e es\<rparr>) (c\<lparr>allocated := allocated c + 1\<rparr>))"

text \<open>
  The prefetch goroutine, once \<open>prefetchFn\<close> has returned: it stores the message, if there is
  one, and then clears the flag of the entry it was started for, by its address.
\<close>

definition clear_flag :: "nat \<Rightarrow> cacheShard \<Rightarrow> cacheShard" where
  "clear_flag i s =
     s\<lparr>entries := map (\<lambda>(k, e). (k, if ce_id e = i then e\<lparr>ce_prefetching := False\<rparr> else e)) (entries s)\<rparr>"

definition prefetch_done ::
  "range_order \<Rightarrow> int \<Rightarrow> nat \<Rightarrow> string \<Rightarrow> u16 \<Rightarrow> message option \<Rightarrow> Cache \<Rightarrow> Cache" where
  "prefetch_done ord now i name qtype result c =
     (let c1 = (case result of Some msg \<Rightarrow> Set ord now name qtype msg c | None \<Rightarrow> c)
      in c1\<lparr>shards := map (clear_flag i) (shards c1)\<rparr>)"

subsection \<open>Eviction\<close>

definition evictBatch :: nat where
  "evictBatch = 64"

definition collect_dead :: "int \<Rightarrow> cacheShard \<Rightarrow> cacheKey list \<times> cacheKey list" where
  "collect_dead now s =
     (map fst (filter (\<lambda>(k, e). ce_expires e < now) (entries s)),
      map fst (filter (\<lambda>(k, e). ne_expires e < now) (negative s)))"

text \<open>One batch under the write lock: every key is looked up and tested again.\<close>

definition evict_entry :: "int \<Rightarrow> cacheKey \<Rightarrow> cacheShard \<Rightarrow> cacheShard" where
  "evict_entry now k s =
     (case map_of (entries s) k of
        Some e \<Rightarrow> if ce_expires e < now then s\<lparr>entries := AList.delete k (entries s)\<rparr> else s
      | None \<Rightarrow> s)"

definition evict_neg :: "int \<Rightarrow> cacheKey \<Rightarrow> cacheShard \<Rightarrow> cacheShard" where
  "evict_neg now k s =
     (case map_of (negative s) k of
        Some e \<Rightarrow> if ne_expires e < now then s\<lparr>negative := AList.delete k (negative s)\<rparr> else s
      | None \<Rightarrow> s)"

function batches :: "'a list \<Rightarrow> 'a list list" where
  "batches [] = []"
| "batches (x # xs) = take evictBatch (x # xs) # batches (drop evictBatch (x # xs))"
  by pat_completeness auto
termination batches
  by (relation "measure length") (auto simp: evictBatch_def)

definition evictShard :: "int \<Rightarrow> cacheShard \<Rightarrow> cacheShard" where
  "evictShard now s =
     (case collect_dead now s of (deadEntries, deadNeg) \<Rightarrow>
        fold (fold (evict_neg now)) (batches deadNeg)
          (fold (fold (evict_entry now)) (batches deadEntries) s))"

text \<open>One tick of \<open>evictLoop\<close>.\<close>

definition evict_tick :: "int \<Rightarrow> Cache \<Rightarrow> Cache" where
  "evict_tick now c = c\<lparr>shards := map (evictShard now) (shards c)\<rparr>"

subsection \<open>Sizes and flushing\<close>

definition Size :: "Cache \<Rightarrow> nat" where
  "Size c = foldl (\<lambda>total s. total + length (entries s)) 0 (shards c)"

definition NegativeSize :: "Cache \<Rightarrow> nat" where
  "NegativeSize c = foldl (\<lambda>total s. total + length (negative s)) 0 (shards c)"

definition flush_shard :: "string \<Rightarrow> int \<Rightarrow> cacheShard \<Rightarrow> cacheShard" where
  "flush_shard mode now s =
     (if mode = ''negative'' then s\<lparr>negative := []\<rparr>
      else if mode = ''expired'' then
        s\<lparr>entries := filter (\<lambda>(k, e). \<not> ce_expires e < now) (entries s),
          negative := filter (\<lambda>(k, e). \<not> ne_expires e < now) (negative s)\<rparr>
      else s\<lparr>entries := [], negative := []\<rparr>)"

text \<open>The clock is read once per shard; \<open>now i\<close> is the reading at shard \<open>i\<close>.\<close>

definition Flush :: "(nat \<Rightarrow> int) \<Rightarrow> string \<Rightarrow> Cache \<Rightarrow> Cache" where
  "Flush now mode c = c\<lparr>shards := map2 (\<lambda>i s. flush_shard mode (now i) s) [0..<length (shards c)] (shards c)\<rparr>"

end
