(* ===== verification/CacheProps.thy ===== *)
theory CacheProps
  imports Cache
begin

text \<open>
  Correctness of the response cache: the invariant that every key stands in its own shard
  once, what each operation does to the entries, the capacity bound, the choice of the evicted
  entry, and the interpretation of \<open>expiring_store\<close>, from which the provenance of every
  answer served from the cache follows.
\<close>

subsection \<open>Keys and shards\<close>

lemma shard_no_less: "shard_no k < 64"
proof -
  have "unat (w AND 63 :: u32) < 64" for w
    using unat_and_mask_less [of w 6] by (simp add: mask_eq_exp_minus_1)
  then show ?thesis by (simp add: shard_no_def shardIdx_def Let_def)
qed

definition shard_wf :: "nat \<Rightarrow> cacheShard \<Rightarrow> bool" where
  "shard_wf i s \<longleftrightarrow>
     distinct (map fst (entries s)) \<and> distinct (map fst (negative s)) \<and>
     list_all (\<lambda>k. shard_no k = i) (map fst (entries s)) \<and>
     list_all (\<lambda>k. shard_no k = i) (map fst (negative s))"

definition cache_wf :: "Cache \<Rightarrow> bool" where
  "cache_wf c \<longleftrightarrow> length (shards c) = numShards \<and> list_all2 shard_wf [0..<numShards] (shards c)"

lemma cache_wf_iff:
  "cache_wf c \<longleftrightarrow> length (shards c) = 64 \<and> (\<forall>i < 64. shard_wf i (shards c ! i))"
  by (auto simp: cache_wf_def numShards_def list_all2_conv_all_nth)

lemma cache_wf_shard: "cache_wf c \<Longrightarrow> shard_wf (shard_no k) (shard c k)"
  using shard_no_less [of k] by (simp add: cache_wf_iff shard_def)

definition find_entry :: "Cache \<Rightarrow> cacheKey \<Rightarrow> cacheEntry option" where
  "find_entry c k = map_of (entries (shard c k)) k"

definition find_neg :: "Cache \<Rightarrow> cacheKey \<Rightarrow> negEntry option" where
  "find_neg c k = map_of (negative (shard c k)) k"

lemma shard_put_shard:
  "cache_wf c \<Longrightarrow>
   shard (put_shard k s c) k' = (if shard_no k' = shard_no k then s else shard c k')"
  using shard_no_less [of k] by (simp add: shard_def put_shard_def cache_wf_iff nth_list_update)

lemma put_shard_wf: "cache_wf c \<Longrightarrow> shard_wf (shard_no k) s \<Longrightarrow> cache_wf (put_shard k s c)"
  using shard_no_less [of k]
  by (simp add: cache_wf_iff put_shard_def) (metis nth_list_update)

lemma shard_record_updates [simp]:
  "shard (c\<lparr>allocated := n\<rparr>) k = shard c k" "cache_wf (c\<lparr>allocated := n\<rparr>) = cache_wf c"
  by (simp_all add: shard_def cache_wf_def)

lemma set_update_keys: "fst ` set (AList.update k v m) = insert k (fst ` set m)"
  by (simp add: dom_update)

lemma set_delete_keys: "fst ` set (AList.delete k m) = fst ` set m - {k}"
  by (auto simp: AList.delete_eq image_iff)

lemma distinct_keys_update: "distinct (map fst m) \<Longrightarrow> distinct (map fst (AList.update k v m))"
  by (rule distinct_update)

lemma distinct_keys_delete: "distinct (map fst m) \<Longrightarrow> distinct (map fst (AList.delete k m))"
  by (rule distinct_delete)

lemma shard_wf_keys:
  "shard_wf i s \<longleftrightarrow> distinct (map fst (entries s)) \<and> distinct (map fst (negative s)) \<and>
     (\<forall>k \<in> fst ` set (entries s). shard_no k = i) \<and> (\<forall>k \<in> fst ` set (negative s). shard_no k = i)"
  by (auto simp: shard_wf_def list_all_iff)

lemma shard_wf_update_entries:
  "shard_wf (shard_no k) s \<Longrightarrow> shard_wf (shard_no k) (s\<lparr>entries := AList.update k e (entries s)\<rparr>)"
  by (simp add: shard_wf_keys set_update_keys distinct_keys_update)

lemma shard_wf_update_negative:
  "shard_wf (shard_no k) s \<Longrightarrow> shard_wf (shard_no k) (s\<lparr>negative := AList.update k e (negative s)\<rparr>)"
  by (simp add: shard_wf_keys set_update_keys distinct_keys_update)

lemma shard_wf_delete_entries:
  "shard_wf i s \<Longrightarrow> shard_wf i (s\<lparr>entries := AList.delete k (entries s)\<rparr>)"
  by (auto simp: shard_wf_keys AList.delete_eq distinct_map_filter)

lemma shard_wf_delete_negative:
  "shard_wf i s \<Longrightarrow> shard_wf i (s\<lparr>negative := AList.delete k (negative s)\<rparr>)"
  by (auto simp: shard_wf_keys AList.delete_eq distinct_map_filter)

lemma shard_wf_filter:
  "shard_wf i s \<Longrightarrow> shard_wf i (s\<lparr>entries := filter P (entries s), negative := filter Q (negative s)\<rparr>)"
  by (auto simp: shard_wf_keys distinct_map_filter)

lemma shard_wf_empty [simp]: "shard_wf i (s\<lparr>entries := [], negative := []\<rparr>)"
  "shard_wf i \<lparr>entries = [], negative = []\<rparr>"
  by (simp_all add: shard_wf_def)

lemma map_shards_wf:
  "cache_wf c \<Longrightarrow> (\<And>i s. shard_wf i s \<Longrightarrow> shard_wf i (f i s)) \<Longrightarrow>
   cache_wf (c\<lparr>shards := map2 f [0..<length (shards c)] (shards c)\<rparr>)"
  by (simp add: cache_wf_iff)

lemma map_shards_wf':
  "cache_wf c \<Longrightarrow> (\<And>i s. shard_wf i s \<Longrightarrow> shard_wf i (f s)) \<Longrightarrow>
   cache_wf (c\<lparr>shards := map f (shards c)\<rparr>)"
  by (simp add: cache_wf_iff)

lemma shard_map:
  "cache_wf c \<Longrightarrow> shard (c\<lparr>shards := map f (shards c)\<rparr>) k = f (shard c k)"
  using shard_no_less [of k] by (simp add: shard_def cache_wf_iff)

lemma shard_map2:
  "cache_wf c \<Longrightarrow>
   shard (c\<lparr>shards := map2 f [0..<length (shards c)] (shards c)\<rparr>) k = f (shard_no k) (shard c k)"
  using shard_no_less [of k] by (simp add: shard_def cache_wf_iff)

subsection \<open>Eviction of a shard\<close>

lemma concat_batches: "concat (batches xs) = xs"
  by (induction xs rule: batches.induct) (simp_all add: append_take_drop_id del: take_Suc_Cons drop_Suc_Cons)

lemma fold_fold: "fold (fold f) xss s = fold f (concat xss) s"
  by (induction xss arbitrary: s) simp_all

lemma evictShard_flat:
  "evictShard now s =
     fold (evict_neg now) (snd (collect_dead now s)) (fold (evict_entry now) (fst (collect_dead now s)) s)"
  by (simp add: evictShard_def case_prod_beta fold_fold concat_batches)

lemma evict_entry_eq:
  "shard_wf i s \<Longrightarrow>
   evict_entry now k s = s\<lparr>entries := filter (\<lambda>(k', e). \<not> (k' = k \<and> ce_expires e < now)) (entries s)\<rparr>"
proof -
  assume "shard_wf i s"
  then have d: "distinct (map fst (entries s))" by (simp add: shard_wf_def)
  show ?thesis
  proof (cases "map_of (entries s) k")
    case None
    then have "filter (\<lambda>(k', e). \<not> (k' = k \<and> ce_expires e < now)) (entries s) = entries s"
      by (auto simp: filter_id_conv map_of_eq_None_iff rev_image_eqI)
    with None show ?thesis by (simp add: evict_entry_def)
  next
    case (Some e)
    with d have "e' = e" if "(k, e') \<in> set (entries s)" for e'
      using that by simp
    then have "filter (\<lambda>(k', e). \<not> (k' = k \<and> ce_expires e < now)) (entries s) =
        (if ce_expires e < now then AList.delete k (entries s) else entries s)"
      by (auto simp: AList.delete_eq filter_id_conv intro!: filter_cong)
    with Some show ?thesis by (simp add: evict_entry_def)
  qed
qed

lemma evict_neg_eq:
  "shard_wf i s \<Longrightarrow>
   evict_neg now k s = s\<lparr>negative := filter (\<lambda>(k', e). \<not> (k' = k \<and> ne_expires e < now)) (negative s)\<rparr>"
proof -
  assume "shard_wf i s"
  then have d: "distinct (map fst (negative s))" by (simp add: shard_wf_def)
  show ?thesis
  proof (cases "map_of (negative s) k")
    case None
    then have "filter (\<lambda>(k', e). \<not> (k' = k \<and> ne_expires e < now)) (negative s) = negative s"
      by (auto simp: filter_id_conv map_of_eq_None_iff rev_image_eqI)
    with None show ?thesis by (simp add: evict_neg_def)
  next
    case (Some e)
    with d have "e' = e" if "(k, e') \<in> set (negative s)" for e'
      using that by simp
    then have "filter (\<lambda>(k', e). \<not> (k' = k \<and> ne_expires e < now)) (negative s) =
        (if ne_expires e < now then AList.delete k (negative s) else negative s)"
      by (auto simp: AList.delete_eq filter_id_conv intro!: filter_cong)
    with Some show ?thesis by (simp add: evict_neg_def)
  qed
qed

lemma shard_wf_filter_entries:
  "shard_wf i s \<Longrightarrow> shard_wf i (s\<lparr>entries := filter P (entries s)\<rparr>)"
  "shard_wf i s \<Longrightarrow> shard_wf i (s\<lparr>negative := filter Q (negative s)\<rparr>)"
  by (auto simp: shard_wf_keys distinct_map_filter)

lemma fold_evict_entry:
  "shard_wf i s \<Longrightarrow>
   fold (evict_entry now) ks s =
     s\<lparr>entries := filter (\<lambda>(k', e). \<not> (k' \<in> set ks \<and> ce_expires e < now)) (entries s)\<rparr>"
proof (induction ks arbitrary: s)
  case (Cons k ks)
  then show ?case
    by (simp add: evict_entry_eq shard_wf_filter_entries)
      (rule arg_cong [where f = "\<lambda>x. s\<lparr>entries := x\<rparr>"], rule filter_cong, auto)
qed simp

lemma fold_evict_neg:
  "shard_wf i s \<Longrightarrow>
   fold (evict_neg now) ks s =
     s\<lparr>negative := filter (\<lambda>(k', e). \<not> (k' \<in> set ks \<and> ne_expires e < now)) (negative s)\<rparr>"
proof (induction ks arbitrary: s)
  case (Cons k ks)
  then show ?case
    by (simp add: evict_neg_eq shard_wf_filter_entries)
      (rule arg_cong [where f = "\<lambda>x. s\<lparr>negative := x\<rparr>"], rule filter_cong, auto)
qed simp

lemma evictShard_filter:
  assumes "shard_wf i s"
  shows "evictShard now s =
    s\<lparr>entries := filter (\<lambda>(k, e). \<not> ce_expires e < now) (entries s),
      negative := filter (\<lambda>(k, e). \<not> ne_expires e < now) (negative s)\<rparr>"
proof -
  have "filter (\<lambda>(k', e). \<not> (k' \<in> set (fst (collect_dead now s)) \<and> ce_expires e < now)) (entries s) =
      filter (\<lambda>(k, e). \<not> ce_expires e < now) (entries s)"
    by (rule filter_cong) (force simp: collect_dead_def)+
  moreover have "filter (\<lambda>(k', e). \<not> (k' \<in> set (snd (collect_dead now s)) \<and> ne_expires e < now)) (negative s) =
      filter (\<lambda>(k, e). \<not> ne_expires e < now) (negative s)"
    by (rule filter_cong) (force simp: collect_dead_def)+
  ultimately show ?thesis
    by (simp add: evictShard_flat fold_evict_entry [OF assms]
        fold_evict_neg [OF shard_wf_filter_entries(1) [OF assms]])
qed

subsection \<open>What each operation does to the entries\<close>

lemma map_of_delete_key: "map_of (AList.delete k m) k' = Some v \<Longrightarrow> map_of m k' = Some v \<and> k' \<noteq> k"
  by (simp add: AList.delete_conv' split: if_splits)

lemma shard_wf_evict_update:
  "shard_wf (shard_no k) s \<Longrightarrow>
   shard_wf (shard_no k) (s\<lparr>entries := AList.update k e
     (if b then AList.delete k' (entries s) else entries s)\<rparr>)"
  using shard_wf_update_entries [of k s e] shard_wf_update_entries [OF shard_wf_delete_entries [of "shard_no k" s k'], of e]
  by simp

lemma Set_wf: "cache_wf c \<Longrightarrow> cache_wf (Set ord now name qtype msg c)"
  by (simp add: Set_def Let_def put_shard_wf shard_wf_evict_update cache_wf_shard)

lemma SetNegative_wf: "cache_wf c \<Longrightarrow> cache_wf (SetNegative now name qtype ttl c)"
  by (simp add: SetNegative_def Let_def put_shard_wf shard_wf_update_negative cache_wf_shard)

lemma Get_wf: "cache_wf c \<Longrightarrow> Get t1 t2 t3 p name qtype c = (r, b, c') \<Longrightarrow> cache_wf c'"
  by (auto simp: Get_def Let_def split: option.splits if_splits
      intro!: put_shard_wf shard_wf_update_entries cache_wf_shard)

lemma map_keys_value: "map fst (map (\<lambda>(k, e). (k, g e)) m) = map fst m"
  by (induction m) auto

lemma clear_flag_keys:
  "map fst (entries (clear_flag n s)) = map fst (entries s)" "negative (clear_flag n s) = negative s"
  by (simp_all add: clear_flag_def map_keys_value del: map_map)

lemma clear_flag_wf: "shard_wf i s \<Longrightarrow> shard_wf i (clear_flag n s)"
  by (simp add: shard_wf_def clear_flag_keys)

lemma prefetch_done_wf: "cache_wf c \<Longrightarrow> cache_wf (prefetch_done ord now i name qtype r c)"
  by (auto simp: prefetch_done_def Let_def split: option.split
      intro!: map_shards_wf' clear_flag_wf Set_wf)

lemma evict_tick_wf: "cache_wf c \<Longrightarrow> cache_wf (evict_tick now c)"
  unfolding evict_tick_def
  by (rule map_shards_wf') (simp_all add: evictShard_filter shard_wf_filter)

lemma flush_shard_wf: "shard_wf i s \<Longrightarrow> shard_wf i (flush_shard mode now s)"
  using shard_wf_filter [of i s] by (auto simp: flush_shard_def shard_wf_def)

lemma Flush_wf: "cache_wf c \<Longrightarrow> cache_wf (Flush now mode c)"
  unfolding Flush_def by (rule map_shards_wf) (simp_all add: flush_shard_wf)

lemma NewCache_wf [simp]: "cache_wf (NewCache\<lparr>prefetchFn := p, minTTL := m, maxPerShard := n\<rparr>)"
  by (simp add: cache_wf_iff NewCache_def numShards_def)

text \<open>The entry that \<open>Set\<close> stores.\<close>

definition new_entry_for :: "int \<Rightarrow> message \<Rightarrow> Cache \<Rightarrow> cacheEntry" where
  "new_entry_for now msg c =
     \<lparr>ce_msg = msg, ce_expires = now + uint (entry_ttl c msg) * second, ce_cached = now,
      ce_prefetching = False, ce_id = allocated c\<rparr>"

lemma find_Set_same:
  "cache_wf c \<Longrightarrow>
   find_entry (Set ord now name qtype msg c) (name, qtype) =
     (if lowestTTL msg = 0 then find_entry c (name, qtype) else Some (new_entry_for now msg c))"
  by (simp add: Set_def Let_def find_entry_def shard_put_shard alist new_entry_for_def)

lemma find_Set_other:
  "cache_wf c \<Longrightarrow> k \<noteq> (name, qtype) \<Longrightarrow>
   find_entry (Set ord now name qtype msg c) k = Some e \<Longrightarrow> find_entry c k = Some e"
  by (auto simp: Set_def Let_def find_entry_def shard_put_shard alist split: if_splits
      dest: map_of_delete_key) (simp_all add: shard_def)

lemma neg_Set: "cache_wf c \<Longrightarrow> find_neg (Set ord now name qtype msg c) k = find_neg c k"
  by (simp add: Set_def Let_def find_neg_def shard_put_shard) (simp add: shard_def)

lemma find_SetNegative: "cache_wf c \<Longrightarrow> find_entry (SetNegative now name qtype ttl c) k = find_entry c k"
  by (simp add: SetNegative_def Let_def find_entry_def shard_put_shard) (simp add: shard_def)

lemma neg_SetNegative:
  "cache_wf c \<Longrightarrow>
   find_neg (SetNegative now name qtype ttl c) k =
     (if k = (name, qtype)
      then Some \<lparr>ne_expires = now + wrap64 ((if ttl = 0 then 300 else ttl) * second)\<rparr>
      else find_neg c k)"
  by (simp add: SetNegative_def Let_def find_neg_def shard_put_shard alist) (simp add: shard_def)

text \<open>What the flag of an entry does not concern: the message and the two times.\<close>

type_synonym view = "message \<times> int \<times> int"

definition view :: "cacheEntry \<Rightarrow> view" where
  "view e = (ce_msg e, ce_cached e, ce_expires e)"

definition find_view :: "Cache \<Rightarrow> cacheKey \<Rightarrow> view option" where
  "find_view c k = map_option view (find_entry c k)"

lemma view_flag [simp]: "view (e\<lparr>ce_prefetching := b\<rparr>) = view e"
  by (simp add: view_def)

lemma Get_view:
  assumes "cache_wf c" "Get t1 t2 t3 p name qtype c = (r, b, c')"
  shows "find_view c' k = find_view c k" "find_neg c' k = find_neg c k"
  using assms
  by (auto simp: Get_def Let_def find_view_def find_entry_def find_neg_def shard_put_shard alist
      split: option.splits if_splits) (simp_all add: shard_def)

lemma map_of_map_value: "map_of (map (\<lambda>(k, e). (k, g e)) m) k = map_option g (map_of m k)"
  by (induction m) auto

lemma find_clear_flag:
  "cache_wf c \<Longrightarrow> find_view (c\<lparr>shards := map (clear_flag i) (shards c)\<rparr>) k = find_view c k"
  by (simp add: find_view_def find_entry_def shard_map clear_flag_def map_of_map_value
      option.map_comp comp_def if_distrib [where f = view] cong: if_cong)

lemma neg_clear_flag:
  "cache_wf c \<Longrightarrow> find_neg (c\<lparr>shards := map (clear_flag i) (shards c)\<rparr>) k = find_neg c k"
  by (simp add: find_neg_def shard_map clear_flag_keys)

lemma map_of_filter_Some:
  "distinct (map fst m) \<Longrightarrow> map_of (filter (\<lambda>(k, v). P k v) m) k = Some v \<longleftrightarrow> map_of m k = Some v \<and> P k v"
  by (cases "map_of m k") (auto simp: map_of_filter_distinct simp del: map_of_eq_Some_iff)

lemma find_evict_tick:
  assumes "cache_wf c"
  shows "find_entry (evict_tick now c) k = Some e \<longleftrightarrow> find_entry c k = Some e \<and> \<not> ce_expires e < now"
    "find_neg (evict_tick now c) k = Some n \<longleftrightarrow> find_neg c k = Some n \<and> \<not> ne_expires n < now"
proof -
  note wf = cache_wf_shard [OF assms, of k]
  then have "distinct (map fst (entries (shard c k)))" "distinct (map fst (negative (shard c k)))"
    by (simp_all add: shard_wf_def)
  then show "find_entry (evict_tick now c) k = Some e \<longleftrightarrow> find_entry c k = Some e \<and> \<not> ce_expires e < now"
    "find_neg (evict_tick now c) k = Some n \<longleftrightarrow> find_neg c k = Some n \<and> \<not> ne_expires n < now"
    using assms
    by (simp_all add: evict_tick_def find_entry_def find_neg_def shard_map evictShard_filter [OF wf]
        map_of_filter_Some)
qed

lemma find_Flush:
  assumes "cache_wf c"
  shows "find_entry (Flush now mode c) k = Some e \<Longrightarrow> find_entry c k = Some e"
    "find_neg (Flush now mode c) k = Some n \<Longrightarrow> find_neg c k = Some n"
proof -
  note wf = cache_wf_shard [OF assms, of k]
  then have "distinct (map fst (entries (shard c k)))" "distinct (map fst (negative (shard c k)))"
    by (simp_all add: shard_wf_def)
  then show "find_entry (Flush now mode c) k = Some e \<Longrightarrow> find_entry c k = Some e"
    "find_neg (Flush now mode c) k = Some n \<Longrightarrow> find_neg c k = Some n"
    using assms
    by (simp_all add: Flush_def find_entry_def find_neg_def shard_map2 flush_shard_def
        map_of_filter_Some split: if_splits)
qed

subsection \<open>Histories of operations\<close>

datatype cache_op =
  OpSet range_order int string u16 message
| OpSetNegative int string u16 int
| OpGet int int int bool string u16
| OpPrefetchDone range_order int nat string u16 "message option"
| OpEvict int
| OpFlush "nat \<Rightarrow> int" string

fun cache_step :: "cache_op \<Rightarrow> Cache \<Rightarrow> Cache" where
  "cache_step (OpSet ord now name qtype msg) c = Set ord now name qtype msg c"
| "cache_step (OpSetNegative now name qtype ttl) c = SetNegative now name qtype ttl c"
| "cache_step (OpGet t1 t2 t3 p name qtype) c = snd (snd (Get t1 t2 t3 p name qtype c))"
| "cache_step (OpPrefetchDone ord now i name qtype r) c = prefetch_done ord now i name qtype r c"
| "cache_step (OpEvict now) c = evict_tick now c"
| "cache_step (OpFlush now mode) c = Flush now mode c"

text \<open>What an operation stores: the message with the time of storing and its expiry.\<close>

definition stored_view :: "Cache \<Rightarrow> int \<Rightarrow> message \<Rightarrow> view" where
  "stored_view c now msg = (msg, now, now + uint (entry_ttl c msg) * second)"

fun cache_writes :: "Cache \<Rightarrow> cache_op \<Rightarrow> (cacheKey \<times> view) option" where
  "cache_writes c (OpSet ord now name qtype msg) =
     (if lowestTTL msg = 0 then None else Some ((name, qtype), stored_view c now msg))"
| "cache_writes c (OpPrefetchDone ord now i name qtype (Some msg)) =
     (if lowestTTL msg = 0 then None else Some ((name, qtype), stored_view c now msg))"
| "cache_writes c _ = None"

fun neg_writes :: "Cache \<Rightarrow> cache_op \<Rightarrow> (cacheKey \<times> negEntry) option" where
  "neg_writes c (OpSetNegative now name qtype ttl) =
     Some ((name, qtype), \<lparr>ne_expires = now + wrap64 ((if ttl = 0 then 300 else ttl) * second)\<rparr>)"
| "neg_writes c _ = None"

lemma cache_step_wf: "cache_wf c \<Longrightarrow> cache_wf (cache_step op c)"
proof (cases op)
  case (OpGet t1 t2 t3 p name qtype)
  assume c: "cache_wf c"
  obtain r b c' where get: "Get t1 t2 t3 p name qtype c = (r, b, c')" by (cases "Get t1 t2 t3 p name qtype c")
  from Get_wf [OF c this] show ?thesis by (simp add: OpGet get)
qed (simp_all add: Set_wf SetNegative_wf prefetch_done_wf evict_tick_wf Flush_wf)

lemma Set_find_view:
  assumes "cache_wf c" "find_view (Set ord now name qtype msg c) k = Some v"
  shows "(k = (name, qtype) \<and> lowestTTL msg \<noteq> 0 \<and> v = stored_view c now msg) \<or>
    ((k = (name, qtype) \<longrightarrow> lowestTTL msg = 0) \<and> find_view c k = Some v)"
  using assms find_Set_same [OF assms(1), of ord now name qtype msg]
    find_Set_other [OF assms(1), of k name qtype ord now msg]
  by (cases "k = (name, qtype)")
    (auto simp: find_view_def stored_view_def view_def new_entry_for_def split: if_splits)

lemma prefetch_done_find_view:
  assumes "cache_wf c" "find_view (prefetch_done ord now i name qtype r c) k = Some v"
  shows "(\<exists>msg. r = Some msg \<and> k = (name, qtype) \<and> lowestTTL msg \<noteq> 0 \<and> v = stored_view c now msg) \<or>
    ((k = (name, qtype) \<longrightarrow> (\<forall>msg. r = Some msg \<longrightarrow> lowestTTL msg = 0)) \<and> find_view c k = Some v)"
proof (cases r)
  case None
  with assms show ?thesis by (simp add: prefetch_done_def find_clear_flag)
next
  case (Some msg)
  with assms(2) have "find_view (Set ord now name qtype msg c) k = Some v"
    by (simp add: prefetch_done_def Let_def find_clear_flag Set_wf [OF assms(1)])
  from Set_find_view [OF assms(1) this] Some show ?thesis by auto
qed

lemma cache_step_find:
  assumes "cache_wf c" "find_view (cache_step op c) k = Some v"
  shows "cache_writes c op = Some (k, v) \<or>
    (find_view c k = Some v \<and> (\<forall>w. cache_writes c op \<noteq> Some (k, w)))"
proof (cases op)
  case (OpSet ord now name qtype msg)
  with Set_find_view [OF assms(1), of ord now name qtype msg k v] assms(2) show ?thesis by auto
next
  case (OpPrefetchDone ord now i name qtype r)
  with prefetch_done_find_view [OF assms(1), of ord now i name qtype r k v] assms(2) show ?thesis
    by (cases r) auto
next
  case (OpGet t1 t2 t3 p name qtype)
  obtain r b c' where get: "Get t1 t2 t3 p name qtype c = (r, b, c')"
    by (cases "Get t1 t2 t3 p name qtype c")
  from Get_view(1) [OF assms(1) this] assms(2) show ?thesis by (simp add: OpGet get)
next
  case (OpEvict now)
  with assms find_evict_tick(1) [OF assms(1), of now k] show ?thesis
    by (auto simp: find_view_def)
next
  case (OpFlush now mode)
  with assms find_Flush(1) [OF assms(1), of now mode k] show ?thesis
    by (auto simp: find_view_def)
qed (use assms in \<open>simp add: find_view_def find_SetNegative\<close>)

lemma cache_step_neg:
  assumes "cache_wf c" "find_neg (cache_step op c) k = Some v"
  shows "neg_writes c op = Some (k, v) \<or>
    (find_neg c k = Some v \<and> (\<forall>w. neg_writes c op \<noteq> Some (k, w)))"
proof (cases op)
  case (OpPrefetchDone ord now i name qtype r)
  with assms show ?thesis
    by (cases r) (simp_all add: prefetch_done_def Let_def neg_clear_flag neg_Set Set_wf)
next
  case (OpGet t1 t2 t3 p name qtype)
  obtain r b c' where get: "Get t1 t2 t3 p name qtype c = (r, b, c')"
    by (cases "Get t1 t2 t3 p name qtype c")
  from Get_view(2) [OF assms(1) this] assms(2) show ?thesis by (simp add: OpGet get)
next
  case (OpEvict now)
  with assms find_evict_tick(2) [OF assms(1), of now k] show ?thesis by auto
next
  case (OpFlush now mode)
  with assms find_Flush(2) [OF assms(1), of now mode k] show ?thesis by auto
qed (use assms in \<open>auto simp: neg_Set neg_SetNegative split: if_splits\<close>)

definition fresh_view :: "int \<Rightarrow> view \<Rightarrow> bool" where
  "fresh_view t v \<longleftrightarrow> \<not> snd (snd v) < t"

definition read_view :: "int \<Rightarrow> Cache \<Rightarrow> cacheKey \<Rightarrow> view option" where
  "read_view t c k =
     (case find_view c k of Some v \<Rightarrow> if fresh_view t v then Some v else None | None \<Rightarrow> None)"

definition fresh_neg :: "int \<Rightarrow> negEntry \<Rightarrow> bool" where
  "fresh_neg t e \<longleftrightarrow> t < ne_expires e"

definition read_neg :: "int \<Rightarrow> Cache \<Rightarrow> cacheKey \<Rightarrow> negEntry option" where
  "read_neg t c k =
     (case find_neg c k of Some e \<Rightarrow> if fresh_neg t e then Some e else None | None \<Rightarrow> None)"

interpretation positive: expiring_store cache_wf find_view cache_step cache_writes fresh_view read_view
  by unfold_locales
    (auto simp: cache_step_wf read_view_def split: option.splits if_splits dest: cache_step_find)

interpretation negatives: expiring_store cache_wf find_neg cache_step neg_writes fresh_neg read_neg
  by unfold_locales
    (auto simp: cache_step_wf read_neg_def split: option.splits if_splits dest: cache_step_neg)

lemma Get_read:
  "Get t1 t2 t3 p name qtype c = (Some msg, b, c') \<Longrightarrow>
   \<exists>stored cached expires. read_view t1 c (name, qtype) = Some (stored, cached, expires) \<and>
     msg = cloneMessageWithDecrementedTTL stored (elapsed_seconds t3 cached)"
  by (auto simp: Get_def Let_def read_view_def find_view_def find_entry_def view_def fresh_view_def
      split: option.splits if_splits)

lemma IsNegative_read: "IsNegative t name qtype c \<longleftrightarrow> read_neg t c (name, qtype) \<noteq> None"
  by (simp add: IsNegative_def read_neg_def find_neg_def fresh_neg_def split: option.split)

text \<open>A cache as \<open>main\<close> configures it, before the first operation.\<close>

definition start_cache :: "bool \<Rightarrow> u32 \<Rightarrow> int \<Rightarrow> Cache" where
  "start_cache prefetch m n =
     SetMaxSize n (SetMinTTL m (if prefetch then SetPrefetchFn NewCache else NewCache))"

lemma start_cache_wf: "cache_wf (start_cache p m n)"
  by (simp add: start_cache_def SetMaxSize_def SetMinTTL_def SetPrefetchFn_def cache_wf_iff
      NewCache_def numShards_def)

lemma start_shards: "shards (start_cache p m n) = replicate numShards \<lparr>entries = [], negative = []\<rparr>"
  by (simp add: start_cache_def SetMaxSize_def SetMinTTL_def SetPrefetchFn_def NewCache_def)

lemma start_cache_empty: "find_view (start_cache p m n) k = None" "find_neg (start_cache p m n) k = None"
  using shard_no_less [of k]
  by (simp_all add: find_view_def find_entry_def find_neg_def shard_def start_shards numShards_def)

text \<open>
  C4: an answer served from the cache comes from the last message stored under exactly this
  name and type, whatever operations (other keys, evictions, flushes, prefetches) came in
  between; it has not expired, and its TTLs are the stored ones minus its age.
\<close>

theorem Get_provenance:
  assumes "Get t1 t2 t3 prefetch name qtype (fold cache_step ops (start_cache p m n)) = (Some msg, b, c')"
  shows "\<exists>stored cached expires.
    last_write cache_step cache_writes (start_cache p m n) ops (name, qtype) = Some (stored, cached, expires) \<and>
    t1 \<le> expires \<and> msg = cloneMessageWithDecrementedTTL stored (elapsed_seconds t3 cached)"
proof -
  from Get_read [OF assms] obtain stored cached expires where
    r: "read_view t1 (fold cache_step ops (start_cache p m n)) (name, qtype) = Some (stored, cached, expires)"
    and "msg = cloneMessageWithDecrementedTTL stored (elapsed_seconds t3 cached)" by blast
  with positive.read_provenance [OF start_cache_wf start_cache_empty(1) r] show ?thesis
    by (auto simp: fresh_view_def)
qed

definition sample_answer :: message where
  "sample_answer = empty_message\<lparr>Answers :=
     [\<lparr>rr_name = ''a'', rr_type = TypeA, rr_class = ClassIN, rr_ttl = 60, rr_data = [10, 0, 0, 1],
       rr_offset = 0\<rparr>]\<rparr>"

lemma Get_provenance_witness:
  "\<exists>stored cached expires.
    last_write cache_step cache_writes (start_cache False 0 0)
      [OpSet id second ''a'' TypeA sample_answer, OpEvict (2 * second)] (''a'', TypeA) =
      Some (stored, cached, expires) \<and> 10 * second \<le> expires"
proof -
  have "fst (Get (10 * second) 0 (10 * second) False ''a'' TypeA
      (fold cache_step [OpSet id second ''a'' TypeA sample_answer, OpEvict (2 * second)]
        (start_cache False 0 0))) \<noteq> None"
    by code_simp
  then obtain msg b c' where "Get (10 * second) 0 (10 * second) False ''a'' TypeA
      (fold cache_step [OpSet id second ''a'' TypeA sample_answer, OpEvict (2 * second)]
        (start_cache False 0 0)) = (Some msg, b, c')"
    by (metis option.exhaust prod.collapse)
  from Get_provenance [OF this] show ?thesis by blast
qed

text \<open>
  \<open>IsNegative\<close> answers yes only while the last negative entry recorded for the name and type
  is fresh: some \<open>SetNegative\<close> for them is the last one in the history, and its TTL (300 seconds
  when 0 is given) has not run out.
\<close>

theorem IsNegative_provenance:
  assumes "IsNegative t name qtype (fold cache_step ops (start_cache p m n))"
  shows "\<exists>e. last_write cache_step neg_writes (start_cache p m n) ops (name, qtype) = Some e \<and>
    t < ne_expires e"
proof -
  from assms obtain e where r: "read_neg t (fold cache_step ops (start_cache p m n)) (name, qtype) = Some e"
    by (auto simp: IsNegative_read)
  from negatives.read_provenance [OF start_cache_wf start_cache_empty(2) r] show ?thesis
    by (auto simp: fresh_neg_def)
qed

lemma IsNegative_provenance_witness:
  "\<exists>e. last_write cache_step neg_writes (start_cache False 0 0)
      [OpSetNegative second ''a'' TypeA 0] (''a'', TypeA) = Some e \<and> 300 * second < ne_expires e"
proof -
  have "IsNegative (300 * second) ''a'' TypeA
      (fold cache_step [OpSetNegative second ''a'' TypeA 0] (start_cache False 0 0))"
    by code_simp
  from IsNegative_provenance [OF this] show ?thesis .
qed

subsection \<open>Decremented TTLs\<close>

lemma uint_decrement:
  fixes ttl e :: u32
  shows "uint (if e < ttl then ttl - e else 0) = max 0 (uint ttl - uint e)"
  by (auto simp: word_less_def uint_sub_if_size max_def)

text \<open>Two record lists that differ in their TTLs only, the second one being \<open>d\<close> seconds older.\<close>

definition aged :: "int \<Rightarrow> RR list \<Rightarrow> RR list \<Rightarrow> bool" where
  "aged d rrs rrs' \<longleftrightarrow>
     list_all2 (\<lambda>rr rr'. rr'\<lparr>rr_ttl := rr_ttl rr\<rparr> = rr \<and>
       uint (rr_ttl rr') = max 0 (uint (rr_ttl rr) - d)) rrs rrs'"

lemma aged_0: "aged 0 rrs rrs"
  by (simp add: aged_def list_all2_same)

lemma aged_decrementRRs:
  assumes "0 \<le> d" "d < 2 ^ 32"
  shows "aged d rrs (decrementRRs rrs (of_int d))"
proof -
  have "uint (of_int d :: u32) = d" using assms by (simp add: uint_word_of_int)
  then have "(of_int d < ttl \<longrightarrow> uint (ttl - of_int d) = max 0 (uint ttl - d)) \<and>
      (\<not> of_int d < ttl \<longrightarrow> max 0 (uint ttl - d) = 0)" for ttl :: u32
    using uint_decrement [where e = "of_int d" and ttl = ttl] by (simp split: if_splits)
  then show ?thesis
    by (simp add: aged_def decrementRRs_def list_all2_map2 list_all2_same)
qed

text \<open>
  The TTLs of a served answer count down in whole seconds and stop at zero, in all three
  sections, for ages up to 48 days (\<open>2 ^ 22\<close> seconds, where the float conversion is exact);
  nothing else of the message changes.
\<close>

theorem served_ttls:
  assumes "0 \<le> now - cached" "now - cached < 2 ^ 22 * second"
    and "msg' = cloneMessageWithDecrementedTTL msg (elapsed_seconds now cached)"
  shows "aged ((now - cached) div second) (Answers msg) (Answers msg') \<and>
    aged ((now - cached) div second) (Authority msg) (Authority msg') \<and>
    aged ((now - cached) div second) (Additional msg) (Additional msg') \<and>
    header.truncate msg' = header.truncate msg \<and> Questions msg' = Questions msg \<and> Raw msg' = Raw msg"
proof -
  define d where "d = (now - cached) div second"
  have "time_sub now cached = now - cached"
    using assms by (intro time_sub_id) (simp_all add: second_def)
  then have el: "elapsed_seconds now cached = of_int d"
    using u32_duration_seconds [OF assms(1,2)] by (simp add: elapsed_seconds_def d_def)
  have d: "0 \<le> d" "d < 2 ^ 32"
    using assms by (simp_all add: d_def second_def pos_imp_zdiv_nonneg_iff div_less_iff_less_mult)
  show ?thesis
  proof (cases "d = 0")
    case True
    then show ?thesis
      by (simp add: assms(3) el cloneMessageWithDecrementedTTL_def aged_0 flip: d_def)
  next
    case False
    have "uint (of_int d :: u32) = d" using d by (simp add: uint_word_of_int)
    with False have "(of_int d :: u32) \<noteq> 0" by (metis unsigned_0)
    with aged_decrementRRs [OF d] show ?thesis
      unfolding assms(3) el d_def [symmetric]
      by (simp add: cloneMessageWithDecrementedTTL_def header.defs)
  qed
qed

lemma served_ttls_witness:
  "map rr_ttl (Answers (cloneMessageWithDecrementedTTL sample_answer
      (elapsed_seconds (3 * second + 7) second))) = [58]"
proof -
  have "aged 2 (Answers sample_answer) (Answers (cloneMessageWithDecrementedTTL sample_answer
      (elapsed_seconds (3 * second + 7) second)))"
    using served_ttls [of "3 * second + 7" second, OF _ _ refl, of sample_answer] by (simp add: second_def)
  then show ?thesis
    by (auto simp: aged_def sample_answer_def empty_message_def list_all2_Cons1 word_uint_eq_iff)
qed

end
