(* ===== verification/CacheCapacity.thy ===== *)
theory CacheCapacity
  imports CacheProps "HOL-Library.Multiset"
begin

text \<open>
  The bounds of the response cache: the entry that \<open>Set\<close> evicts from a full shard, the number
  of entries, the work of the eviction loop, and that at most one prefetch runs per entry.
\<close>

subsection \<open>The range loop of \<open>Set\<close>\<close>

definition permutes :: "range_order \<Rightarrow> bool" where
  "permutes ord \<longleftrightarrow> (\<forall>xs. mset (ord xs) = mset xs)"

lemma permutes_set: "permutes ord \<Longrightarrow> set (ord xs) = set xs"
  unfolding permutes_def by (metis set_mset_mset)

lemma evict_scan_snoc:
  "evict_scan (xs @ [(k, e)]) =
     (if fst (evict_scan xs) = 0 \<or> ce_expires e < fst (evict_scan xs) then (ce_expires e, k)
      else evict_scan xs)"
  by (simp add: evict_scan_def case_prod_beta)

lemma evict_scan_Nil: "evict_scan [] = (0, ('''', 0))"
  by (simp add: evict_scan_def)

lemma evict_scan_in:
  "items \<noteq> [] \<Longrightarrow> \<exists>e. (snd (evict_scan items), e) \<in> set items \<and> fst (evict_scan items) = ce_expires e"
proof (induction items rule: rev_induct)
  case (snoc x xs)
  obtain k e where x: "x = (k, e)" by (cases x)
  show ?case
  proof (cases "xs = []")
    case True
    then show ?thesis by (simp add: x evict_scan_def)
  next
    case False
    with snoc.IH show ?thesis by (auto simp: x evict_scan_snoc)
  qed
qed simp

lemma evict_scan_min:
  "\<forall>(k, e) \<in> set items. 0 < ce_expires e \<Longrightarrow> (k, e) \<in> set items \<Longrightarrow>
   fst (evict_scan items) \<le> ce_expires e"
proof (induction items arbitrary: k e rule: rev_induct)
  case (snoc x xs)
  obtain k' e' where x: "x = (k', e')" by (cases x)
  have IH: "(k, e) \<in> set xs \<Longrightarrow> fst (evict_scan xs) \<le> ce_expires e" using snoc by auto
  show ?case
  proof (cases "xs = []")
    case True
    with snoc.prems show ?thesis by (simp add: x evict_scan_def)
  next
    case False
    from evict_scan_in [OF this] snoc.prems(1) have "0 < fst (evict_scan xs)" by force
    with snoc.prems(2) IH show ?thesis by (auto simp: x evict_scan_snoc)
  qed
qed simp

subsection \<open>Capacity\<close>

definition capped :: "Cache \<Rightarrow> bool" where
  "capped c \<longleftrightarrow>
     0 < maxPerShard c \<and> list_all (\<lambda>s. int (length (entries s)) \<le> maxPerShard c) (shards c)"

fun op_ok :: "cache_op \<Rightarrow> bool" where
  "op_ok (OpSet ord now name qtype msg) \<longleftrightarrow> permutes ord"
| "op_ok (OpPrefetchDone ord now i name qtype r) \<longleftrightarrow> permutes ord"
| "op_ok _ \<longleftrightarrow> True"

lemma capped_shard: "cache_wf c \<Longrightarrow> capped c \<Longrightarrow> int (length (entries (shard c k))) \<le> maxPerShard c"
  using shard_no_less [of k] by (simp add: capped_def cache_wf_iff shard_def list_all_length)

lemma capped_put_shard:
  "cache_wf c \<Longrightarrow> capped c \<Longrightarrow> int (length (entries s)) \<le> maxPerShard c \<Longrightarrow> capped (put_shard k s c)"
  by (auto simp: capped_def put_shard_def list_all_iff dest: set_update_subset_insert [THEN subsetD])

lemma capped_map:
  "capped c \<Longrightarrow> (\<And>s. s \<in> set (shards c) \<Longrightarrow> length (entries (f s)) \<le> length (entries s)) \<Longrightarrow>
   capped (c\<lparr>shards := map f (shards c)\<rparr>)"
  by (fastforce simp: capped_def list_all_iff)

lemma Set_capped:
  assumes c: "cache_wf c" "capped c" and ord: "permutes ord"
  shows "capped (Set ord now name qtype msg c)"
proof -
  define k where "k = (name, qtype)"
  define s where "s = shard c k"
  define full where "full \<longleftrightarrow> 0 < maxPerShard c \<and> maxPerShard c \<le> int (length (entries s)) \<and>
    map_of (entries s) k = None"
  define v where "v = snd (evict_scan (ord (entries s)))"
  have len: "int (length (entries s)) \<le> maxPerShard c" using capped_shard [OF c] by (simp add: s_def)
  have d: "distinct (map fst (entries s))"
    using cache_wf_shard [OF c(1), of k] by (simp add: s_def shard_wf_def)
  have "int (length (AList.update k e (if full then AList.delete v (entries s) else entries s))) \<le> maxPerShard c"
    for e
  proof (cases full)
    case True
    then have "entries s \<noteq> []" "k \<notin> fst ` set (entries s)"
      by (auto simp: full_def map_of_eq_None_iff)
    have same: "set (ord (entries s)) = set (entries s)" using permutes_set [OF ord] .
    with \<open>entries s \<noteq> []\<close> have "ord (entries s) \<noteq> []" by auto
    from evict_scan_in [OF this] obtain e where "(v, e) \<in> set (entries s)" unfolding v_def same by blast
    then have "v \<in> fst ` set (entries s)" by (metis fst_conv image_eqI)
    then have "map_of (entries s) v \<noteq> None" by (simp add: map_of_eq_None_iff)
    then have "length (AList.delete v (entries s)) = length (entries s) - 1"
      by (rule length_delete_in [OF d])
    moreover have "map_of (AList.delete v (entries s)) k = None"
      using True by (simp add: alist full_def)
    ultimately show ?thesis
      using True len \<open>entries s \<noteq> []\<close> by (simp add: map_of_None_length_update)
  next
    case False
    show ?thesis
    proof (cases "map_of (entries s) k")
      case None
      with False len c(2) show ?thesis
        by (simp add: full_def map_of_None_length_update capped_def)
    next
      case (Some w)
      with False len show ?thesis by (simp add: map_of_Some_length_update)
    qed
  qed
  with c show ?thesis
    unfolding Set_def Let_def k_def [symmetric] s_def [symmetric] full_def [symmetric] v_def [symmetric]
    by (auto intro!: capped_put_shard simp del: if_split) (simp_all add: capped_def)
qed

lemma Get_capped:
  assumes "cache_wf c" "capped c" "Get t1 t2 t3 p name qtype c = (r, b, c')"
  shows "capped c'"
  using assms capped_shard [OF assms(1,2), of "(name, qtype)"]
  by (auto simp: Get_def Let_def map_of_Some_length_update split: option.splits if_splits
      intro!: capped_put_shard)

lemma shards_wf_in: "cache_wf c \<Longrightarrow> s \<in> set (shards c) \<Longrightarrow> \<exists>i. shard_wf i s"
  by (metis cache_wf_iff in_set_conv_nth)

lemma evict_tick_capped: "cache_wf c \<Longrightarrow> capped c \<Longrightarrow> capped (evict_tick now c)"
  unfolding evict_tick_def
  by (rule capped_map) (auto dest!: shards_wf_in simp: evictShard_filter)

lemma Flush_capped: "capped c \<Longrightarrow> capped (Flush now mode c)"
proof -
  have "length (entries (flush_shard mode t s)) \<le> length (entries s)" for t s
    by (simp add: flush_shard_def)
  then have "int (length (entries s)) \<le> n \<Longrightarrow> int (length (entries (flush_shard mode t s))) \<le> n" for n t s
    by (meson of_nat_mono order_trans)
  then show "capped c \<Longrightarrow> capped (Flush now mode c)"
    by (simp add: capped_def Flush_def list_all_length)
qed

lemma clear_flags_capped: "capped c \<Longrightarrow> capped (c\<lparr>shards := map (clear_flag i) (shards c)\<rparr>)"
  by (rule capped_map) (simp_all add: clear_flag_def)

lemma cache_step_capped:
  assumes "cache_wf c" "capped c" "op_ok op"
  shows "capped (cache_step op c)"
proof (cases op)
  case (OpGet t1 t2 t3 p name qtype)
  obtain r b c' where get: "Get t1 t2 t3 p name qtype c = (r, b, c')"
    by (cases "Get t1 t2 t3 p name qtype c")
  from Get_capped [OF assms(1,2) this] show ?thesis by (simp add: OpGet get)
next
  case (OpSetNegative now name qtype ttl)
  with assms capped_shard [OF assms(1,2), of "(name, qtype)"] show ?thesis
    by (simp add: SetNegative_def Let_def capped_put_shard)
next
  case (OpPrefetchDone ord now i name qtype r)
  with assms show ?thesis
    by (cases r) (simp_all add: prefetch_done_def Let_def clear_flags_capped Set_capped)
qed (use assms in \<open>simp_all add: Set_capped evict_tick_capped Flush_capped\<close>)

lemma history_capped:
  "cache_wf c \<Longrightarrow> capped c \<Longrightarrow> list_all op_ok ops \<Longrightarrow> capped (fold cache_step ops c)"
  by (induction ops arbitrary: c) (simp_all add: cache_step_wf cache_step_capped)

lemma maxPerShard_step: "maxPerShard (cache_step op c) = maxPerShard c"
proof (cases op)
  case (OpPrefetchDone ord now i name qtype r)
  then show ?thesis by (cases r) (simp_all add: prefetch_done_def Set_def Let_def put_shard_def)
qed (simp_all add: Set_def SetNegative_def Get_def evict_tick_def Flush_def Let_def put_shard_def
      split: option.split)

lemma maxPerShard_history: "maxPerShard (fold cache_step ops c) = maxPerShard c"
  by (induction ops arbitrary: c) (simp_all add: maxPerShard_step)

lemma foldl_length_sum: "foldl (\<lambda>total s. total + f s) (n :: nat) ss = n + sum_list (map f ss)"
  by (induction ss arbitrary: n) simp_all

lemma Size_capped:
  assumes "cache_wf c" "capped c"
  shows "int (Size c) \<le> int numShards * maxPerShard c"
proof -
  have total: "int (sum_list (map (\<lambda>s. length (entries s)) ss)) \<le> int (length ss) * b"
    if "list_all (\<lambda>s. int (length (entries s)) \<le> b) ss" for ss b
    using that by (induction ss) (auto simp: algebra_simps)
  from total [of "maxPerShard c" "shards c"] assms show ?thesis
    by (simp add: Size_def foldl_length_sum capped_def cache_wf_def)
qed

text \<open>
  C25: with \<open>max_size\<close> configured to \<open>n\<close>, no history of operations makes the cache hold \<open>n + 64\<close>
  entries: every shard keeps to \<open>n / 64\<close>, rounded up, because a full shard gives up an entry
  before it takes a new key, whatever order Go iterates its map in. The bound is the one the
  code enforces; the configured number itself can be exceeded by up to 63.
\<close>

theorem Size_bounded:
  assumes "0 < n" "n < 2 ^ 62" "list_all op_ok ops"
  shows "int (Size (fold cache_step ops (start_cache p m n))) < n + 64"
proof -
  define c where "c = start_cache p m n"
  have max: "maxPerShard c = (n + 63) div 64"
    using assms by (simp add: c_def start_cache_def SetMaxSize_def SetMinTTL_def numShards_def
        wrap64_id signed_divide_int_def sgn_if)
  have c: "cache_wf c" by (simp add: c_def start_cache_wf)
  have "capped c"
    using assms max by (simp add: capped_def c_def start_shards list_all_iff numShards_def)
      (simp add: zdiv_mono1 [of 64 "n + 63" 64, simplified] pos_imp_zdiv_pos_iff)
  from history_capped [OF c this assms(3)] positive.fold_inv [OF c]
  have "int (Size (fold cache_step ops c)) \<le> 64 * ((n + 63) div 64)"
    using Size_capped maxPerShard_history max by (metis numShards_def of_nat_numeral)
  also have "\<dots> < n + 64"
    using div_mult_mod_eq [of "n + 63" 64] pos_mod_sign [of 64 "n + 63"] by linarith
  finally show ?thesis by (simp add: c_def)
qed

lemma id_permutes: "permutes id" "permutes rev"
  by (simp_all add: permutes_def)

lemma Size_bounded_witness:
  "int (Size (fold cache_step [OpSet rev 1 ''a'' TypeA sample_answer, OpSet id 2 ''b'' TypeA sample_answer]
     (start_cache False 0 1))) < 1 + 64"
  using Size_bounded [of 1 "[OpSet rev 1 ''a'' TypeA sample_answer, OpSet id 2 ''b'' TypeA sample_answer]"
      False 0]
  by (simp add: id_permutes)

subsection \<open>The evicted entry\<close>

text \<open>
  When a shard is full, \<open>Set\<close> evicts exactly one entry for a new key, and that entry expires
  no later than any other of the shard; the entry stored is found afterwards, and all entries
  of other shards stay.
\<close>

theorem Set_evicts_earliest:
  assumes "cache_wf c" "permutes ord" "lowestTTL msg \<noteq> 0" "0 < maxPerShard c"
    and "maxPerShard c \<le> int (length (entries (shard c (name, qtype))))"
    and "find_entry c (name, qtype) = None"
    and "list_all (\<lambda>(k, e). 0 < ce_expires e) (entries (shard c (name, qtype)))"
  shows "\<exists>k e. find_entry c k = Some e \<and> find_entry (Set ord now name qtype msg c) k = None \<and>
    list_all (\<lambda>(k', e'). ce_expires e \<le> ce_expires e') (entries (shard c (name, qtype))) \<and>
    find_entry (Set ord now name qtype msg c) (name, qtype) = Some (new_entry_for now msg c) \<and>
    (\<forall>k'. k' = k \<or> k' = (name, qtype) \<or>
       find_entry (Set ord now name qtype msg c) k' = find_entry c k')"
proof -
  define kk where "kk = (name, qtype)"
  define s where "s = shard c kk"
  define items where "items = ord (entries s)"
  define v where "v = snd (evict_scan items)"
  have wf: "shard_wf (shard_no kk) s" using assms(1) by (simp add: s_def cache_wf_shard)
  have set: "set items = set (entries s)" by (simp add: items_def permutes_set assms(2))
  have "entries s \<noteq> []" using assms(4,5) by (auto simp: s_def kk_def)
  then have "items \<noteq> []" using set by auto
  from evict_scan_in [OF this] obtain e where e: "(v, e) \<in> set (entries s)" "fst (evict_scan items) = ce_expires e"
    using set by (auto simp: v_def)
  have v: "shard_no v = shard_no kk" "map_of (entries s) v = Some e"
    using wf e(1) by (auto simp: shard_wf_keys)
  have min: "list_all (\<lambda>(k', e'). ce_expires e \<le> ce_expires e') (entries s)"
    using evict_scan_min [of items] assms(7) set e(2) by (fastforce simp: list_all_iff s_def kk_def)
  have none: "map_of (entries s) kk = None" using assms(6) by (simp add: find_entry_def s_def kk_def)
  then have "v \<noteq> kk" using v by auto
  define s' where "s' = s\<lparr>entries := AList.update kk (new_entry_for now msg c) (AList.delete v (entries s))\<rparr>"
  have Set: "Set ord now name qtype msg c = put_shard kk s' (c\<lparr>allocated := allocated c + 1\<rparr>)"
    using assms(3,4,5) none
    by (simp add: Set_def Let_def s'_def new_entry_for_def v_def items_def s_def kk_def)
  have found: "find_entry (Set ord now name qtype msg c) k' =
      (if k' = kk then Some (new_entry_for now msg c) else if k' = v then None else find_entry c k')" for k'
    using assms(1) v(1) \<open>v \<noteq> kk\<close>
    by (simp add: Set find_entry_def shard_put_shard s'_def alist) (simp add: s_def shard_def)
  moreover have "find_entry c v = Some e" using v by (simp add: find_entry_def s_def shard_def)
  ultimately show ?thesis
    using min \<open>v \<noteq> kk\<close> by (intro exI [where x = v] exI [where x = e]) (simp add: s_def kk_def)
qed

lemma Set_evicts_earliest_witness:
  "\<exists>k e. find_entry (Set id 1 ''a'' TypeA sample_answer (start_cache False 0 1)) k = Some e \<and>
     find_entry (Set id 2 ''cv'' TypeA sample_answer
       (Set id 1 ''a'' TypeA sample_answer (start_cache False 0 1))) k = None"
proof -
  define c where "c = Set id 1 ''a'' TypeA sample_answer (start_cache False 0 1)"
  have "cache_wf c" by (simp add: c_def Set_wf start_cache_wf)
  moreover have "lowestTTL sample_answer \<noteq> 0" "0 < maxPerShard c"
    "maxPerShard c \<le> int (length (entries (shard c (''cv'', TypeA))))"
    "find_entry c (''cv'', TypeA) = None"
    "list_all (\<lambda>(k, e). 0 < ce_expires e) (entries (shard c (''cv'', TypeA)))"
    unfolding c_def by code_simp+
  ultimately show ?thesis
    using Set_evicts_earliest [of c id sample_answer "''cv''" TypeA 2] id_permutes
    by (fold c_def) blast
qed

subsection \<open>The eviction loop\<close>

text \<open>
  A tick of the eviction loop, in batches of 64 keys that are looked up and tested again
  under the write lock, removes exactly the expired entries of both maps in every shard and
  keeps the others in place.
\<close>

theorem evict_tick_exact:
  "shards (evict_tick now (fold cache_step ops (start_cache p m n))) =
     map (\<lambda>s. s\<lparr>entries := filter (\<lambda>(k, e). now \<le> ce_expires e) (entries s),
               negative := filter (\<lambda>(k, e). now \<le> ne_expires e) (negative s)\<rparr>)
       (shards (fold cache_step ops (start_cache p m n)))"
proof -
  have "cache_wf (fold cache_step ops (start_cache p m n))"
    by (rule positive.fold_inv [OF start_cache_wf])
  then show ?thesis
    by (auto simp: evict_tick_def not_less dest!: shards_wf_in evictShard_filter [where now = now])
qed

subsection \<open>One prefetch per entry\<close>

definition ids_ok :: "Cache \<Rightarrow> bool" where
  "ids_ok c \<longleftrightarrow>
     (\<forall>k e. find_entry c k = Some e \<longrightarrow> ce_id e < allocated c) \<and>
     (\<forall>k k' e e'. find_entry c k = Some e \<longrightarrow> find_entry c k' = Some e' \<longrightarrow> ce_id e = ce_id e' \<longrightarrow> k = k')"

fun op_key :: "cache_op \<Rightarrow> cacheKey option" where
  "op_key (OpSet ord now name qtype msg) = Some (name, qtype)"
| "op_key (OpPrefetchDone ord now i name qtype r) = Some (name, qtype)"
| "op_key _ = None"

definition finishes :: "nat \<Rightarrow> cache_op \<Rightarrow> bool" where
  "finishes i op \<longleftrightarrow> (case op of OpPrefetchDone ord now j name qtype r \<Rightarrow> j = i | _ \<Rightarrow> False)"

text \<open>
  An entry after a step is new, under the key of the operation, or it was there before, and then
  its flag is only cleared by the end of its own prefetch.
\<close>

definition entry_origin :: "cache_op \<Rightarrow> Cache \<Rightarrow> cacheKey \<Rightarrow> cacheEntry \<Rightarrow> bool" where
  "entry_origin op c k e' \<longleftrightarrow>
     (op_key op = Some k \<and> ce_id e' = allocated c \<and> allocated (cache_step op c) = allocated c + 1) \<or>
     (\<exists>e. find_entry c k = Some e \<and> ce_id e' = ce_id e \<and>
        (ce_prefetching e \<longrightarrow> \<not> finishes (ce_id e) op \<longrightarrow> ce_prefetching e'))"

lemma allocated_mono: "allocated c \<le> allocated (cache_step op c)"
proof (cases op)
  case (OpPrefetchDone ord now i name qtype r)
  then show ?thesis by (cases r) (simp_all add: prefetch_done_def Set_def Let_def put_shard_def)
qed (simp_all add: Set_def SetNegative_def Get_def evict_tick_def Flush_def Let_def put_shard_def
      split: option.split)

lemma Set_origin:
  assumes "cache_wf c" "find_entry (Set ord now name qtype msg c) k = Some e'"
  shows "(k = (name, qtype) \<and> ce_id e' = allocated c \<and>
      allocated (Set ord now name qtype msg c) = allocated c + 1) \<or> find_entry c k = Some e'"
proof (cases "k = (name, qtype) \<and> lowestTTL msg \<noteq> 0")
  case True
  with assms find_Set_same [OF assms(1), of ord now name qtype msg] show ?thesis
    by (auto simp: new_entry_for_def Set_def Let_def put_shard_def)
next
  case False
  show ?thesis
  proof (cases "k = (name, qtype)")
    case True
    with False assms(2) find_Set_same [OF assms(1), of ord now name qtype msg] show ?thesis by simp
  next
    case False
    from find_Set_other [OF assms(1) this assms(2)] show ?thesis ..
  qed
qed

lemma find_clear_flag_entry:
  "cache_wf c \<Longrightarrow> find_entry (c\<lparr>shards := map (clear_flag i) (shards c)\<rparr>) k =
     map_option (\<lambda>e. if ce_id e = i then e\<lparr>ce_prefetching := False\<rparr> else e) (find_entry c k)"
  by (simp add: find_entry_def shard_map clear_flag_def map_of_map_value)

lemma Get_entry:
  assumes "cache_wf c" "Get t1 t2 t3 p name qtype c = (r, b, c')" "find_entry c' k = Some e'"
  shows "\<exists>e. find_entry c k = Some e \<and> ce_id e' = ce_id e \<and> (ce_prefetching e \<longrightarrow> ce_prefetching e')"
  using assms
  by (auto simp: Get_def Let_def find_entry_def shard_put_shard alist split: option.splits if_splits)
    (simp_all add: shard_def)

lemma step_origin:
  assumes "cache_wf c" "find_entry (cache_step op c) k = Some e'"
  shows "entry_origin op c k e'"
proof (cases op)
  case (OpSet ord now name qtype msg)
  with Set_origin [OF assms(1), of ord now name qtype msg k e'] assms(2) show ?thesis
    by (auto simp: entry_origin_def)
next
  case (OpPrefetchDone ord now i name qtype r)
  define c1 where "c1 = (case r of Some msg \<Rightarrow> Set ord now name qtype msg c | None \<Rightarrow> c)"
  have step: "cache_step op c = c1\<lparr>shards := map (clear_flag i) (shards c1)\<rparr>"
    by (simp add: OpPrefetchDone prefetch_done_def c1_def Let_def)
  have "cache_wf c1" using assms(1) by (simp add: c1_def Set_wf split: option.split)
  from find_clear_flag_entry [OF this] assms(2) step obtain e where
    e: "find_entry c1 k = Some e" "e' = (if ce_id e = i then e\<lparr>ce_prefetching := False\<rparr> else e)"
    by auto
  have "(k = (name, qtype) \<and> ce_id e = allocated c \<and> allocated c1 = allocated c + 1) \<or>
      find_entry c k = Some e"
    using e(1) Set_origin [OF assms(1)] by (cases r) (auto simp: c1_def)
  moreover have "op_key op = Some (name, qtype)" "allocated (cache_step op c) = allocated c1"
    "\<And>j. finishes j op \<longleftrightarrow> i = j"
    by (simp_all only: step) (simp_all add: OpPrefetchDone finishes_def)
  ultimately show ?thesis using e(2) by (auto simp: entry_origin_def)
next
  case (OpGet t1 t2 t3 p name qtype)
  obtain r b c' where get: "Get t1 t2 t3 p name qtype c = (r, b, c')"
    by (cases "Get t1 t2 t3 p name qtype c")
  from Get_entry [OF assms(1) this, of k e'] assms(2) show ?thesis
    by (auto simp: entry_origin_def OpGet get)
next
  case (OpEvict now)
  with assms find_evict_tick(1) [OF assms(1), of now k] show ?thesis by (auto simp: entry_origin_def)
next
  case (OpFlush now mode)
  with assms find_Flush(1) [OF assms(1), of now mode k] show ?thesis by (auto simp: entry_origin_def)
qed (use assms in \<open>simp add: entry_origin_def find_SetNegative\<close>)

lemma step_ids:
  assumes "cache_wf c" "ids_ok c"
  shows "ids_ok (cache_step op c)"
proof -
  have old: "ce_id e < allocated c" if "find_entry c k = Some e" for k e
    using assms(2) that unfolding ids_ok_def by blast
  have inj: "k = k'" if "find_entry c k = Some e" "find_entry c k' = Some e'" "ce_id e = ce_id e'" for k k' e e'
    using assms(2) that unfolding ids_ok_def by blast
  have or: "entry_origin op c k e'" if "find_entry (cache_step op c) k = Some e'" for k e'
    by (rule step_origin [OF assms(1) that])
  have "ce_id e < allocated (cache_step op c)" if "find_entry (cache_step op c) k = Some e" for k e
    using or [OF that] old allocated_mono [of c op] by (fastforce simp: entry_origin_def)
  moreover have "k = k'" if "find_entry (cache_step op c) k = Some e"
    "find_entry (cache_step op c) k' = Some e'" "ce_id e = ce_id e'" for k k' e e'
    using or [OF that(1)] or [OF that(2)] that(3) old inj
    unfolding entry_origin_def by (metis less_irrefl option.inject)
  ultimately show ?thesis unfolding ids_ok_def by blast
qed

definition busy :: "nat \<Rightarrow> Cache \<Rightarrow> bool" where
  "busy i c \<longleftrightarrow>
     i < allocated c \<and> (\<forall>k e. find_entry c k = Some e \<longrightarrow> ce_id e = i \<longrightarrow> ce_prefetching e)"

lemma step_busy:
  assumes "cache_wf c" "busy i c" "\<not> finishes i op"
  shows "busy i (cache_step op c)"
proof -
  have "ce_prefetching e" if "find_entry (cache_step op c) k = Some e" "ce_id e = i" for k e
    using step_origin [OF assms(1) that(1)] that(2) assms(2,3)
    unfolding entry_origin_def busy_def by (metis less_irrefl)
  with assms(2) allocated_mono [of c op] show ?thesis by (auto simp: busy_def)
qed

lemma history_busy:
  "cache_wf c \<Longrightarrow> busy i c \<Longrightarrow> list_all (\<lambda>op. \<not> finishes i op) ops \<Longrightarrow> busy i (fold cache_step ops c)"
  by (induction ops arbitrary: c) (simp_all add: cache_step_wf step_busy)

lemma history_ids: "cache_wf c \<Longrightarrow> ids_ok c \<Longrightarrow> ids_ok (fold cache_step ops c)"
  by (induction ops arbitrary: c) (simp_all add: cache_step_wf step_ids)

lemma Get_started:
  assumes "Get t1 t2 t3 p name qtype c = (r, True, c')"
  obtains e where "find_entry c (name, qtype) = Some e" "\<not> ce_prefetching e"
    "c' = put_shard (name, qtype) ((shard c (name, qtype))\<lparr>entries := AList.update (name, qtype)
        (e\<lparr>ce_prefetching := True\<rparr>) (entries (shard c (name, qtype)))\<rparr>) c"
  using assms by (auto simp: Get_def Let_def find_entry_def split: option.splits if_splits)

lemma Get_started_busy:
  assumes "cache_wf c" "ids_ok c" "Get t1 t2 t3 p name qtype c = (r, True, c')"
    and "find_entry c (name, qtype) = Some e"
  shows "busy (ce_id e) c'"
proof -
  from Get_started [OF assms(3)] assms(4) have c': "c' = put_shard (name, qtype)
      ((shard c (name, qtype))\<lparr>entries := AList.update (name, qtype)
        (e\<lparr>ce_prefetching := True\<rparr>) (entries (shard c (name, qtype)))\<rparr>) c"
    by force
  have "find_entry c' k = (if k = (name, qtype) then Some (e\<lparr>ce_prefetching := True\<rparr>) else find_entry c k)" for k
    using assms(1) by (simp add: c' find_entry_def shard_put_shard alist) (simp add: shard_def)
  moreover have "allocated c' = allocated c" by (simp add: c' put_shard_def)
  ultimately show ?thesis
    using assms(2,4) unfolding busy_def ids_ok_def by (auto split: if_splits)
qed

text \<open>
  C6: at most one prefetch runs for a cache entry. Once \<open>Get\<close> has started one, no later \<open>Get\<close>
  starts another for the same entry, under any interleaving with other operations, until that
  prefetch has finished; a second one can only be for an entry stored since.
\<close>

theorem prefetch_single_flight:
  assumes "Get t1 t2 t3 pf name qtype (fold cache_step ops (start_cache p m n)) = (r, True, c1)"
    and "find_entry (fold cache_step ops (start_cache p m n)) (name, qtype) = Some e"
    and "list_all (\<lambda>op. \<not> finishes (ce_id e) op) ops'"
    and "Get t1' t2' t3' pf' name' qtype' (fold cache_step ops' c1) = (r', True, c2)"
  shows "\<exists>e'. find_entry (fold cache_step ops' c1) (name', qtype') = Some e' \<and> ce_id e' \<noteq> ce_id e"
proof -
  define c where "c = fold cache_step ops (start_cache p m n)"
  have wf: "cache_wf c" unfolding c_def by (rule positive.fold_inv [OF start_cache_wf])
  have "find_entry (start_cache p m n) k = None" for k
    using start_cache_empty(1) [of p m n k] by (simp add: find_view_def)
  then have "ids_ok (start_cache p m n)" by (simp add: ids_ok_def)
  then have "ids_ok c" unfolding c_def by (rule history_ids [OF start_cache_wf])
  from Get_started_busy [OF wf this assms(1,2) [folded c_def]] have "busy (ce_id e) c1" .
  moreover have "cache_wf c1" by (rule Get_wf [OF wf assms(1) [folded c_def]])
  ultimately have "busy (ce_id e) (fold cache_step ops' c1)" using assms(3) by (simp add: history_busy)
  moreover obtain e' where "find_entry (fold cache_step ops' c1) (name', qtype') = Some e'"
    "\<not> ce_prefetching e'" using Get_started [OF assms(4)] by metis
  ultimately show ?thesis unfolding busy_def by blast
qed

definition one_entry :: Cache where
  "one_entry = fold cache_step [OpSet id second ''a'' TypeA sample_answer] (start_cache True 0 0)"

definition get_late :: "int \<Rightarrow> Cache \<Rightarrow> message option \<times> bool \<times> Cache" where
  "get_late t c = Get t t t True ''a'' TypeA c"

lemma prefetch_single_flight_witness:
  "\<exists>e e'. find_entry one_entry (''a'', TypeA) = Some e \<and> ce_id e' \<noteq> ce_id e \<and>
     find_entry (fold cache_step [OpSet id (59 * second) ''a'' TypeA sample_answer]
       (snd (snd (get_late (58 * second) one_entry)))) (''a'', TypeA) = Some e'"
proof -
  define c1 where "c1 = snd (snd (get_late (58 * second) one_entry))"
  define ops where "ops = [OpSet id (59 * second) ''a'' TypeA sample_answer]"
  have "map_option ce_id (find_entry one_entry (''a'', TypeA)) = Some 0" by code_simp
  then obtain e where e: "find_entry one_entry (''a'', TypeA) = Some e" "ce_id e = 0" by auto
  have "fst (snd (get_late (58 * second) one_entry))" by code_simp
  then obtain r where 1: "get_late (58 * second) one_entry = (r, True, c1)"
    unfolding c1_def by (metis (full_types) prod.collapse)
  have "fst (snd (get_late (118 * second) (fold cache_step ops c1)))"
    unfolding c1_def ops_def by code_simp
  then obtain r' c2 where 2: "get_late (118 * second) (fold cache_step ops c1) = (r', True, c2)"
    by (metis (full_types) prod.collapse)
  have quiet: "list_all (\<lambda>op. \<not> finishes (ce_id e) op) ops" by (simp add: ops_def finishes_def)
  from prefetch_single_flight [OF 1 [unfolded get_late_def one_entry_def] e(1) [unfolded one_entry_def]
      quiet 2 [unfolded get_late_def]] e
  show ?thesis unfolding c1_def [symmetric] ops_def [symmetric] by blast
qed

end
