(* ===== verification/NetIP.thy ===== *)
theory NetIP
  imports DnsParse
begin

text \<open>
  What the program uses of Go's package \<open>net\<close>: \<open>ParseIP\<close>, \<open>ParseCIDR\<close> and
  \<open>IPNet.Contains\<close>, with the address parser of \<open>net/netip\<close> behind the first two. An address is
  its bytes: 4 for an IPv4 address, 16 for an IPv6 address.
\<close>

subsection \<open>Numbers\<close>

definition digit_val :: "char \<Rightarrow> nat option" where
  "digit_val c = (let n = of_char c :: nat in if 48 \<le> n \<and> n \<le> 57 then Some (n - 48) else None)"

definition hex_val :: "char \<Rightarrow> nat option" where
  "hex_val c =
     (let n = of_char c :: nat
      in if 48 \<le> n \<and> n \<le> 57 then Some (n - 48)
         else if 97 \<le> n \<and> n \<le> 102 then Some (n - 87)
         else if 65 \<le> n \<and> n \<le> 70 then Some (n - 55)
         else None)"

fun parse_dec :: "nat \<Rightarrow> string \<Rightarrow> nat option" where
  "parse_dec acc [] = Some acc"
| "parse_dec acc (c # s) =
     (case digit_val c of None \<Rightarrow> None | Some d \<Rightarrow> parse_dec (acc * 10 + d) s)"

subsection \<open>Addresses\<close>

text \<open>One octet of a dotted quad: no sign, no leading zero, at most 255.\<close>

definition parse_octet :: "string \<Rightarrow> byte option" where
  "parse_octet s =
     (if s = [] \<or> (1 < length s \<and> hd s = CHR ''0'') then None
      else case parse_dec 0 s of
          None \<Rightarrow> None
        | Some n \<Rightarrow> if n \<le> 255 then Some (of_nat n) else None)"

definition parse_ipv4 :: "string \<Rightarrow> byte list option" where
  "parse_ipv4 s =
     (case map parse_octet (split_on CHR ''.'' s) of
        [Some a, Some b, Some c, Some d] \<Rightarrow> Some [a, b, c, d]
      | _ \<Rightarrow> None)"

text \<open>The digits of a group of an IPv6 address: at most four; the rest of the string.\<close>

fun hex_group :: "nat \<Rightarrow> nat \<Rightarrow> string \<Rightarrow> (nat \<times> nat \<times> string) option" where
  "hex_group off acc [] = Some (off, acc, [])"
| "hex_group off acc (c # s) =
     (case hex_val c of
        None \<Rightarrow> Some (off, acc, c # s)
      | Some d \<Rightarrow> if 3 < off then None else hex_group (Suc off) (acc * 16 + d) s)"

text \<open>
  The loop of \<open>parseIPv6\<close>: the bytes so far, the position of the ellipsis, the rest of the
  string. The result is \<open>None\<close> on an error.
\<close>

fun ipv6_loop ::
  "nat \<Rightarrow> byte list \<Rightarrow> nat option \<Rightarrow> string \<Rightarrow> (byte list \<times> nat option \<times> string) option" where
  "ipv6_loop 0 ip ell s = Some (ip, ell, s)"
| "ipv6_loop (Suc rounds) ip ell s =
     (case hex_group 0 0 s of
        None \<Rightarrow> None
      | Some (off, acc, rest) \<Rightarrow>
          if off = 0 then None
          else if rest \<noteq> [] \<and> hd rest = CHR ''.'' then
            (if (ell = None \<and> length ip \<noteq> 12) \<or> 16 < length ip + 4 then None
             else (case parse_ipv4 s of None \<Rightarrow> None | Some v4 \<Rightarrow> Some (ip @ v4, ell, [])))
          else
            let ip = ip @ [of_nat (acc div 256), of_nat acc]
            in if rest = [] then Some (ip, ell, [])
               else if hd rest \<noteq> CHR '':'' \<or> length rest = 1 then None
               else
                 let s = tl rest
                 in if hd s = CHR '':'' then
                      (if ell \<noteq> None then None
                       else if tl s = [] then Some (ip, Some (length ip), [])
                       else ipv6_loop rounds ip (Some (length ip)) (tl s))
                    else ipv6_loop rounds ip ell s)"

definition ipv6_finish :: "byte list \<times> nat option \<times> string \<Rightarrow> byte list option" where
  "ipv6_finish r =
     (case r of (ip, ell, s) \<Rightarrow>
        if s \<noteq> [] then None
        else if length ip < 16 then
          (case ell of
             None \<Rightarrow> None
           | Some e \<Rightarrow> Some (take e ip @ replicate (16 - length ip) 0 @ drop e ip))
        else if ell \<noteq> None then None
        else Some ip)"

text \<open>An address with a zone (\<open>%eth0\<close>) is refused by both callers, so it counts as an error.\<close>

definition parse_ipv6 :: "string \<Rightarrow> byte list option" where
  "parse_ipv6 s =
     (if CHR ''%'' \<in> set s then None
      else if has_prefix s ''::'' then
        (if s = ''::'' then Some (replicate 16 0)
         else Option.bind (ipv6_loop 8 [] (Some 0) (drop 2 s)) ipv6_finish)
      else Option.bind (ipv6_loop 8 [] None s) ipv6_finish)"

text \<open>\<open>netip.ParseAddr\<close>: the first dot, colon or percent sign decides the family.\<close>

fun parse_addr_from :: "string \<Rightarrow> string \<Rightarrow> byte list option" where
  "parse_addr_from whole [] = None"
| "parse_addr_from whole (c # s) =
     (if c = CHR ''.'' then parse_ipv4 whole
      else if c = CHR '':'' then parse_ipv6 whole
      else if c = CHR ''%'' then None
      else parse_addr_from whole s)"

definition parse_addr :: "string \<Rightarrow> byte list option" where
  "parse_addr s = parse_addr_from s s"

definition v4_in_v6 :: "byte list" where
  "v4_in_v6 = replicate 10 0 @ [0xFF, 0xFF]"

text \<open>\<open>To4\<close>: an IPv4 address in its own or in its mapped form.\<close>

definition To4 :: "byte list \<Rightarrow> byte list option" where
  "To4 ip =
     (if length ip = 4 then Some ip
      else if length ip = 16 \<and> take 12 ip = v4_in_v6 then Some (drop 12 ip)
      else None)"

definition as16 :: "byte list \<Rightarrow> byte list" where
  "as16 ip = (if length ip = 4 then v4_in_v6 @ ip else ip)"

definition ParseIP :: "string \<Rightarrow> byte list option" where
  "ParseIP s = map_option as16 (parse_addr s)"

subsection \<open>Networks\<close>

record IPNet =
  net_ip :: "byte list"
  net_mask :: "byte list"

text \<open>One byte of \<open>CIDRMask(n, bits)\<close>: \<open>n\<close> ones remain for this byte and the next ones.\<close>

definition mask_byte :: "nat \<Rightarrow> byte" where
  "mask_byte n = (if 8 \<le> n then 0xFF else NOT (drop_bit n 0xFF))"

definition CIDRMask :: "nat \<Rightarrow> nat \<Rightarrow> byte list" where
  "CIDRMask n len = map (\<lambda>i. mask_byte (n - 8 * i)) [0..<len]"

definition and_bytes :: "byte list \<Rightarrow> byte list \<Rightarrow> byte list" where
  "and_bytes xs ys = map2 (AND) xs ys"

text \<open>\<open>dtoi\<close> stops at \<open>0xFFFFFF\<close>; a number that large is refused by the caller anyway.\<close>

definition ParseCIDR :: "string \<Rightarrow> (byte list \<times> IPNet) option" where
  "ParseCIDR s =
     (case index_of CHR ''/'' s of
        None \<Rightarrow> None
      | Some i \<Rightarrow>
          (case (parse_addr (take i s), drop (i + 1) s) of
             (Some addr, m) \<Rightarrow>
               (if m = [] then None
                else case parse_dec 0 m of
                    None \<Rightarrow> None
                  | Some n \<Rightarrow>
                      if 8 * length addr < n then None
                      else let msk = CIDRMask n (length addr)
                           in Some (as16 addr, \<lparr>net_ip = and_bytes addr msk, net_mask = msk\<rparr>))
           | (None, _) \<Rightarrow> None))"

text \<open>
  \<open>Contains\<close>: an IPv4 address in mapped form is compared in its short form. The network of
  \<open>ParseCIDR\<close> already has the length of its mask; only a mapped IPv6 network with a long mask
  is shortened here, as \<open>networkNumberAndMask\<close> does.
\<close>

definition network_number :: "IPNet \<Rightarrow> (byte list \<times> byte list) option" where
  "network_number n =
     (case (case To4 (net_ip n) of Some x \<Rightarrow> Some x
            | None \<Rightarrow> if length (net_ip n) = 16 then Some (net_ip n) else None) of
        None \<Rightarrow> None
      | Some ip \<Rightarrow>
          if length (net_mask n) = length ip then Some (ip, net_mask n)
          else if length (net_mask n) = 16 \<and> length ip = 4 then Some (ip, drop 12 (net_mask n))
          else None)"

definition Contains :: "IPNet \<Rightarrow> byte list \<Rightarrow> bool" where
  "Contains n ip =
     (let ip = (case To4 ip of Some x \<Rightarrow> x | None \<Rightarrow> ip)
      in case network_number n of
           None \<Rightarrow> ip = []
         | Some (nn, m) \<Rightarrow>
             length ip = length nn \<and> and_bytes nn m = and_bytes ip m)"

end
