(* ===== verification/Config.thy ===== *)
theory Config
  imports NetIP
begin

text \<open>
  The configuration of \<open>internal/config/config.go\<close> and the log level of
  \<open>internal/logger/logger.go\<close>. A Go \<open>int\<close> is an \<open>int\<close>. The YAML library is not part of the
  repository: \<open>LoadConfig\<close> takes the function that decodes a document into a configuration,
  starting from the one that is passed in, and the contents of the file as an argument.
\<close>

subsection \<open>The configuration tree\<close>

record ServerConfig =
  srv_Listen :: string
  srv_Port :: int
  srv_LogLevel :: string
  srv_QueryLogFile :: string

record RateLimitConfig =
  rl_Enabled :: bool
  rl_QPS :: int
  rl_Burst :: int

record CacheConfig =
  cc_Enabled :: bool
  cc_NegativeTTL :: int
  cc_Prefetch :: bool
  cc_MinTTL :: int
  cc_MaxSize :: int

record ForwarderConfig =
  fw_Enabled :: bool
  fw_Servers :: "string list"
  fw_FallbackToIterative :: bool

record ZoneConfig =
  zn_Domain :: string
  zn_Servers :: "string list"

record ACLRule =
  acl_Subnet :: string
  acl_Action :: string

record ACLConfig =
  acl_Default :: string
  acl_Rules :: "ACLRule list"

record ResolverConfig =
  rs_Timeout :: int
  rs_AttemptTimeoutMs :: int
  rs_MaxDepth :: int
  rs_MaxConcurrent :: int
  rs_EDNS0 :: bool
  rs_TCPFallback :: bool
  rs_DNSSEC :: bool
  rs_RateLimit :: RateLimitConfig
  rs_Cache :: CacheConfig
  rs_Forwarder :: ForwarderConfig
  rs_Zones :: "ZoneConfig list"
  rs_ACL :: ACLConfig

record RecordConfig =
  rc_Name :: string
  rc_Type :: string
  rc_TTL :: u32
  rc_Value :: string

record FilterConfig =
  fc_Mode :: string
  fc_Inline :: "string list"
  fc_Lists :: "string list"
  fc_ReloadIntervalHours :: int

record AuthConfig =
  au_Username :: string
  au_Password :: string

record DashboardConfig =
  db_Enabled :: bool
  db_Listen :: string
  db_Port :: int
  db_Auth :: AuthConfig
  db_TLSCertFile :: string
  db_TLSKeyFile :: string

record UpdaterConfig =
  up_CheckEnabled :: bool

record MinecraftConfig =
  mc_Enabled :: bool
  mc_Listen :: string
  mc_Port :: int
  mc_MinRAM :: string
  mc_MaxRAM :: string

record Config =
  cfg_path :: string
  cfg_Server :: ServerConfig
  cfg_Resolver :: ResolverConfig
  cfg_Records :: "RecordConfig list"
  cfg_Filtering :: FilterConfig
  cfg_Dashboard :: DashboardConfig
  cfg_Updater :: UpdaterConfig
  cfg_Minecraft :: MinecraftConfig

definition defaults :: Config where
  "defaults =
     \<lparr>cfg_path = '''',
      cfg_Server = \<lparr>srv_Listen = ''0.0.0.0'', srv_Port = 53, srv_LogLevel = ''info'',
        srv_QueryLogFile = ''''\<rparr>,
      cfg_Resolver =
        \<lparr>rs_Timeout = 3, rs_AttemptTimeoutMs = 800, rs_MaxDepth = 20, rs_MaxConcurrent = 64,
         rs_EDNS0 = True, rs_TCPFallback = True, rs_DNSSEC = False,
         rs_RateLimit = \<lparr>rl_Enabled = True, rl_QPS = 100, rl_Burst = 200\<rparr>,
         rs_Cache = \<lparr>cc_Enabled = True, cc_NegativeTTL = 300, cc_Prefetch = True, cc_MinTTL = 30,
           cc_MaxSize = 0\<rparr>,
         rs_Forwarder = \<lparr>fw_Enabled = False, fw_Servers = [''1.1.1.1'', ''8.8.8.8''],
           fw_FallbackToIterative = True\<rparr>,
         rs_Zones = [],
         rs_ACL = \<lparr>acl_Default = ''allow'', acl_Rules = []\<rparr>\<rparr>,
      cfg_Records = [],
      cfg_Filtering = \<lparr>fc_Mode = ''off'', fc_Inline = [], fc_Lists = [], fc_ReloadIntervalHours = 0\<rparr>,
      cfg_Dashboard = \<lparr>db_Enabled = True, db_Listen = ''127.0.0.1'', db_Port = 8080,
        db_Auth = \<lparr>au_Username = '''', au_Password = ''''\<rparr>, db_TLSCertFile = '''', db_TLSKeyFile = ''''\<rparr>,
      cfg_Updater = \<lparr>up_CheckEnabled = True\<rparr>,
      cfg_Minecraft = \<lparr>mc_Enabled = False, mc_Listen = ''0.0.0.0'', mc_Port = 25565,
        mc_MinRAM = ''1G'', mc_MaxRAM = ''2G''\<rparr>\<rparr>"

subsection \<open>Validation\<close>

datatype config_error =
  PortOutOfRange int
| ACLDefaultInvalid
| ZoneDomainRequired nat
| ZoneServersRequired nat
| ACLActionInvalid nat
| ACLSubnetInvalid nat
| QPSNegative
| BurstNegative
| QPSRequired
| BurstRequired
| TLSFilesIncomplete
| FilterModeInvalid
| RecordIncomplete
| WildcardNotLeftmost string

text \<open>The first error of a loop over an indexed list.\<close>

fun first_error :: "(nat \<Rightarrow> 'a \<Rightarrow> 'e option) \<Rightarrow> nat \<Rightarrow> 'a list \<Rightarrow> 'e option" where
  "first_error f i [] = None"
| "first_error f i (x # xs) = (case f i x of Some e \<Rightarrow> Some e | None \<Rightarrow> first_error f (Suc i) xs)"

definition check_zone :: "nat \<Rightarrow> ZoneConfig \<Rightarrow> config_error option" where
  "check_zone i z =
     (if zn_Domain z = [] then Some (ZoneDomainRequired i)
      else if zn_Servers z = [] then Some (ZoneServersRequired i)
      else None)"

definition check_acl_rule :: "nat \<Rightarrow> ACLRule \<Rightarrow> config_error option" where
  "check_acl_rule i r =
     (let a = to_lower (acl_Action r)
      in if a \<noteq> ''allow'' \<and> a \<noteq> ''deny'' then Some (ACLActionInvalid i)
         else if ParseCIDR (acl_Subnet r) = None then Some (ACLSubnetInvalid i)
         else None)"

definition check_record :: "nat \<Rightarrow> RecordConfig \<Rightarrow> config_error option" where
  "check_record i r =
     (if rc_Name r = [] \<or> rc_Value r = [] then Some RecordIncomplete
      else if CHR ''*'' \<in> set (rc_Name r) \<and> \<not> has_prefix (rc_Name r) ''*.''
      then Some (WildcardNotLeftmost (rc_Name r))
      else None)"

definition validate :: "Config \<Rightarrow> config_error option" where
  "validate c =
     (let rs = cfg_Resolver c; rl = rs_RateLimit rs; d = to_lower (acl_Default (rs_ACL rs));
          mode = to_lower (fc_Mode (cfg_Filtering c)); db = cfg_Dashboard c
      in if srv_Port (cfg_Server c) < 1 \<or> 65535 < srv_Port (cfg_Server c)
         then Some (PortOutOfRange (srv_Port (cfg_Server c)))
         else if d \<noteq> '''' \<and> d \<noteq> ''allow'' \<and> d \<noteq> ''deny'' then Some ACLDefaultInvalid
         else case first_error check_zone 0 (rs_Zones rs) of Some e \<Rightarrow> Some e
         | None \<Rightarrow>
         (case first_error check_acl_rule 0 (acl_Rules (rs_ACL rs)) of Some e \<Rightarrow> Some e
         | None \<Rightarrow>
           if rl_QPS rl < 0 then Some QPSNegative
           else if rl_Burst rl < 0 then Some BurstNegative
           else if rl_Enabled rl \<and> rl_QPS rl = 0 then Some QPSRequired
           else if rl_Enabled rl \<and> rl_Burst rl = 0 then Some BurstRequired
           else if (db_TLSCertFile db = []) \<noteq> (db_TLSKeyFile db = []) then Some TLSFilesIncomplete
           else if mode \<noteq> ''blacklist'' \<and> mode \<noteq> ''whitelist'' \<and> mode \<noteq> ''off''
           then Some FilterModeInvalid
           else first_error check_record 0 (cfg_Records c)))"

subsection \<open>Loading and saving\<close>

text \<open>What reading the file gives: its bytes, that it does not exist, or another error.\<close>

datatype file_read = FileData string | FileMissing | FileError

datatype load_error = ReadConfig | ParseConfig | InvalidConfig config_error

definition LoadConfig ::
  "(string \<Rightarrow> Config \<Rightarrow> Config option) \<Rightarrow> (string \<Rightarrow> file_read) \<Rightarrow> string \<Rightarrow> load_error + Config" where
  "LoadConfig unmarshal read path =
     (case read path of
        FileMissing \<Rightarrow> Inr defaults
      | FileError \<Rightarrow> Inl ReadConfig
      | FileData data \<Rightarrow>
          (case unmarshal data defaults of
             None \<Rightarrow> Inl ParseConfig
           | Some cfg \<Rightarrow>
               (case validate cfg of
                  Some e \<Rightarrow> Inl (InvalidConfig e)
                | None \<Rightarrow> Inr (cfg\<lparr>cfg_path := path\<rparr>))))"

definition int_string :: "int \<Rightarrow> string" where
  "int_string i = (if i < 0 then ''-'' @ dec_string (nat (- i)) else dec_string (nat i))"

definition Addr :: "Config \<Rightarrow> string" where
  "Addr c = srv_Listen (cfg_Server c) @ '':'' @ int_string (srv_Port (cfg_Server c))"

definition DashboardAddr :: "Config \<Rightarrow> string" where
  "DashboardAddr c = db_Listen (cfg_Dashboard c) @ '':'' @ int_string (db_Port (cfg_Dashboard c))"

definition AuthEnabled :: "Config \<Rightarrow> bool" where
  "AuthEnabled c \<longleftrightarrow>
     au_Username (db_Auth (cfg_Dashboard c)) \<noteq> '''' \<and> au_Password (db_Auth (cfg_Dashboard c)) \<noteq> ''''"

text \<open>
  \<open>Save\<close>: \<open>None\<close> when no path is set, otherwise the path and the document to be written; the
  write itself is the operating system's.
\<close>

definition Save :: "(Config \<Rightarrow> string) \<Rightarrow> Config \<Rightarrow> (string \<times> string) option" where
  "Save marshal c = (if cfg_path c = '''' then None else Some (cfg_path c, marshal c))"

subsection \<open>Log levels\<close>

datatype LogLevel = LevelDebug | LevelInfo | LevelWarn | LevelError

fun level_rank :: "LogLevel \<Rightarrow> nat" where
  "level_rank LevelDebug = 0"
| "level_rank LevelInfo = 1"
| "level_rank LevelWarn = 2"
| "level_rank LevelError = 3"

instantiation LogLevel :: linorder
begin

definition less_eq_LogLevel :: "LogLevel \<Rightarrow> LogLevel \<Rightarrow> bool" where
  "less_eq_LogLevel a b \<longleftrightarrow> level_rank a \<le> level_rank b"

definition less_LogLevel :: "LogLevel \<Rightarrow> LogLevel \<Rightarrow> bool" where
  "less_LogLevel a b \<longleftrightarrow> level_rank a < level_rank b"

instance
proof
  fix a b :: LogLevel
  show "a \<le> b \<Longrightarrow> b \<le> a \<Longrightarrow> a = b"
    by (cases a; cases b) (simp_all add: less_eq_LogLevel_def)
qed (auto simp: less_eq_LogLevel_def less_LogLevel_def)

end

definition InitLogger :: "string \<Rightarrow> LogLevel" where
  "InitLogger level =
     (let l = to_lower level
      in if l = ''debug'' then LevelDebug
         else if l = ''warn'' then LevelWarn
         else if l = ''error'' then LevelError
         else LevelInfo)"

text \<open>A message of a level is printed when the current level is not above it.\<close>

definition logs :: "LogLevel \<Rightarrow> LogLevel \<Rightarrow> bool" where
  "logs current level \<longleftrightarrow> current \<le> level"

subsection \<open>What a validated configuration guarantees\<close>

lemma first_error_None: "first_error f i xs = None \<longleftrightarrow> (\<forall>j < length xs. f (i + j) (xs ! j) = None)"
proof (induction xs arbitrary: i)
  case (Cons x xs)
  have "(\<forall>j < Suc (length xs). f (i + j) ((x # xs) ! j) = None) \<longleftrightarrow>
      f i x = None \<and> (\<forall>j < length xs. f (Suc i + j) (xs ! j) = None)"
    by (auto simp: less_Suc_eq_0_disj)
  with Cons show ?case by (auto split: option.split)
qed simp

text \<open>The conditions that the rest of the program relies on.\<close>

definition config_ok :: "Config \<Rightarrow> bool" where
  "config_ok c \<longleftrightarrow>
     1 \<le> srv_Port (cfg_Server c) \<and> srv_Port (cfg_Server c) \<le> 65535 \<and>
     list_all (\<lambda>z. zn_Domain z \<noteq> [] \<and> zn_Servers z \<noteq> []) (rs_Zones (cfg_Resolver c)) \<and>
     list_all (\<lambda>r. to_lower (acl_Action r) \<in> {''allow'', ''deny''} \<and> ParseCIDR (acl_Subnet r) \<noteq> None)
       (acl_Rules (rs_ACL (cfg_Resolver c))) \<and>
     0 \<le> rl_QPS (rs_RateLimit (cfg_Resolver c)) \<and> 0 \<le> rl_Burst (rs_RateLimit (cfg_Resolver c)) \<and>
     (\<not> rl_Enabled (rs_RateLimit (cfg_Resolver c)) \<or>
        0 < rl_QPS (rs_RateLimit (cfg_Resolver c)) \<and> 0 < rl_Burst (rs_RateLimit (cfg_Resolver c))) \<and>
     to_lower (fc_Mode (cfg_Filtering c)) \<in> {''blacklist'', ''whitelist'', ''off''} \<and>
     list_all (\<lambda>r. rc_Name r \<noteq> [] \<and> rc_Value r \<noteq> []) (cfg_Records c)"

lemma validate_NoneD:
  assumes "validate c = None"
  shows "1 \<le> srv_Port (cfg_Server c) \<and> srv_Port (cfg_Server c) \<le> 65535"
    "first_error check_zone 0 (rs_Zones (cfg_Resolver c)) = None"
    "first_error check_acl_rule 0 (acl_Rules (rs_ACL (cfg_Resolver c))) = None"
    "0 \<le> rl_QPS (rs_RateLimit (cfg_Resolver c)) \<and> 0 \<le> rl_Burst (rs_RateLimit (cfg_Resolver c))"
    "rl_Enabled (rs_RateLimit (cfg_Resolver c)) \<Longrightarrow>
       rl_QPS (rs_RateLimit (cfg_Resolver c)) \<noteq> 0 \<and> rl_Burst (rs_RateLimit (cfg_Resolver c)) \<noteq> 0"
    "to_lower (fc_Mode (cfg_Filtering c)) \<in> {''blacklist'', ''whitelist'', ''off''}"
    "first_error check_record 0 (cfg_Records c) = None"
  using assms unfolding validate_def Let_def
  by (simp_all only: split: if_split_asm option.split_asm) (simp_all add: not_less)

lemma check_zone_None: "check_zone i z = None \<Longrightarrow> zn_Domain z \<noteq> [] \<and> zn_Servers z \<noteq> []"
  by (simp add: check_zone_def split: if_split_asm)

lemma check_acl_rule_None:
  "check_acl_rule i r = None \<Longrightarrow>
   to_lower (acl_Action r) \<in> {''allow'', ''deny''} \<and> ParseCIDR (acl_Subnet r) \<noteq> None"
  unfolding check_acl_rule_def Let_def by (simp only: split: if_split_asm) blast+

lemma check_record_None: "check_record i r = None \<Longrightarrow> rc_Name r \<noteq> [] \<and> rc_Value r \<noteq> []"
  by (simp add: check_record_def split: if_split_asm)

lemma first_error_list_all:
  "first_error f i xs = None \<Longrightarrow> (\<And>j x. f j x = None \<Longrightarrow> P x) \<Longrightarrow> list_all P xs"
  by (auto simp: first_error_None list_all_length)

lemma validate_None:
  assumes "validate c = None"
  shows "config_ok c"
proof -
  note d = validate_NoneD [OF assms]
  have "list_all (\<lambda>z. zn_Domain z \<noteq> [] \<and> zn_Servers z \<noteq> []) (rs_Zones (cfg_Resolver c))"
    by (rule first_error_list_all [OF d(2)]) (rule check_zone_None)
  moreover have "list_all (\<lambda>r. to_lower (acl_Action r) \<in> {''allow'', ''deny''} \<and>
      ParseCIDR (acl_Subnet r) \<noteq> None) (acl_Rules (rs_ACL (cfg_Resolver c)))"
    by (rule first_error_list_all [OF d(3)]) (rule check_acl_rule_None)
  moreover have "list_all (\<lambda>r. rc_Name r \<noteq> [] \<and> rc_Value r \<noteq> []) (cfg_Records c)"
    by (rule first_error_list_all [OF d(7)]) (rule check_record_None)
  moreover have "\<not> rl_Enabled (rs_RateLimit (cfg_Resolver c)) \<or>
      0 < rl_QPS (rs_RateLimit (cfg_Resolver c)) \<and> 0 < rl_Burst (rs_RateLimit (cfg_Resolver c))"
    using d(4,5) by linarith
  ultimately show ?thesis unfolding config_ok_def using d(1,4,6) by blast
qed

lemma defaults_ok: "config_ok defaults"
  by code_simp

text \<open>
  \<open>LoadConfig\<close> never hands out an invalid configuration. Whatever the file holds and however
  it was decoded, a configuration that is returned has a port in range, zones with servers,
  an access list whose every subnet parses and whose actions are allow or deny, a rate
  limiter that can admit queries when it is enabled, and a known filter mode.
\<close>

theorem LoadConfig_valid:
  assumes "LoadConfig unmarshal read path = Inr c"
  shows "config_ok c"
proof -
  have "config_ok (c\<lparr>cfg_path := p\<rparr>) = config_ok c" for c p
    by (simp add: config_ok_def)
  with assms validate_None show ?thesis
    by (auto simp: LoadConfig_def defaults_ok split: file_read.splits option.splits)
qed

lemma LoadConfig_valid_witness:
  "config_ok (defaults\<lparr>cfg_path := ''/etc/config.yml''\<rparr>)"
proof -
  have "validate defaults = None" by code_simp
  then have "LoadConfig (\<lambda>d c. Some c) (\<lambda>p. FileData ''dnssec: true'') ''/etc/config.yml'' =
      Inr (defaults\<lparr>cfg_path := ''/etc/config.yml''\<rparr>)"
    by (simp add: LoadConfig_def)
  from LoadConfig_valid [OF this] show ?thesis .
qed

end
