(* ===== verification/Domains.thy ===== *)
theory Domains
  imports GoStrings
begin

text \<open>
  Domain names as the filter, the zone table and the DNSSEC walk compare them: lower-case
  strings whose parents are found by dropping leading labels.
\<close>

text \<open>The name and its parents: what remains when leading labels are dropped.\<close>

definition name_and_parents :: "string \<Rightarrow> string list" where
  "name_and_parents name =
     (let labels = split_on CHR ''.'' name
      in map (\<lambda>i. join_with CHR ''.'' (drop i labels)) [0..<length labels])"

text \<open>\<open>strings.ToLower(strings.TrimSuffix(s, "."))\<close>.\<close>

definition norm_name :: "string \<Rightarrow> string" where
  "norm_name s = to_lower (trim_suffix s ''.'')"

lemma name_and_parents_no_dot:
  "index_of CHR ''.'' name = None \<Longrightarrow> name_and_parents name = [name]"
  by (simp add: name_and_parents_def index_of_None split_on_no_sep)

lemma upt_Suc_shift: "[0..<Suc n] = 0 # map Suc [0..<n]"
  by (simp add: map_Suc_upt upt_conv_Cons del: upt_Suc)

lemma name_and_parents_dot:
  assumes "index_of CHR ''.'' name = Some idx"
  shows "name_and_parents name = name # name_and_parents (drop (idx + 1) name)"
proof -
  from index_of_Some [OF assms] have "name = take idx name @ CHR ''.'' # drop (idx + 1) name"
    and "CHR ''.'' \<notin> set (take idx name)"
    by (metis Suc_eq_plus1 id_take_nth_drop, simp)
  then have split: "split_on CHR ''.'' name = take idx name # split_on CHR ''.'' (drop (idx + 1) name)"
    using split_on_append by metis
  have "name_and_parents name = join_with CHR ''.'' (split_on CHR ''.'' name) #
      name_and_parents (drop (idx + 1) name)"
    unfolding name_and_parents_def Let_def split list.size(4) add_Suc_right add_0_right upt_Suc_shift
    by simp
  then show ?thesis by (simp add: join_split)
qed

lemma length_name_and_parents [simp]: "length (name_and_parents name) = length (split_on CHR ''.'' name)"
  by (simp add: name_and_parents_def Let_def)

lemma join_append:
  "ls \<noteq> [] \<Longrightarrow> ms \<noteq> [] \<Longrightarrow> join_with c (ls @ ms) = join_with c ls @ c # join_with c ms"
proof (induction ls)
  case (Cons l ls)
  then show ?case by (cases ls) (simp_all add: join_with_Cons)
qed simp

lemma split_on_append_dot:
  "split_on c (s @ c # t) = split_on c s @ split_on c t"
proof (induction s)
  case (Cons x s)
  then show ?case by (cases "split_on c s") auto
qed simp

lemma drop_labels_in:
  assumes "k < length (split_on CHR ''.'' name)"
  shows "join_with CHR ''.'' (drop k (split_on CHR ''.'' name)) \<in> set (name_and_parents name)"
proof -
  from assms have "k \<in> set [0..<length (split_on CHR ''.'' name)]" by simp
  then show ?thesis unfolding name_and_parents_def Let_def set_map by (rule imageI)
qed

lemma parent_in: "d \<in> set (name_and_parents (p @ CHR ''.'' # d))"
  using drop_labels_in [of "length (split_on CHR ''.'' p)" "p @ CHR ''.'' # d"]
  by (simp add: split_on_append_dot join_split)

lemma self_in: "d \<in> set (name_and_parents d)"
  using drop_labels_in [of 0 d] by (simp add: join_split)

lemma in_name_and_parents:
  "d \<in> set (name_and_parents name) \<longleftrightarrow> name = d \<or> has_suffix name (CHR ''.'' # d)"
proof
  assume "d \<in> set (name_and_parents name)"
  then obtain i where i: "i < length (split_on CHR ''.'' name)"
    "d = join_with CHR ''.'' (drop i (split_on CHR ''.'' name))"
    by (auto simp: name_and_parents_def Let_def)
  show "name = d \<or> has_suffix name (CHR ''.'' # d)"
  proof (cases "i = 0")
    case True
    with i show ?thesis by (simp add: join_split)
  next
    case False
    with i(1) have "name = join_with CHR ''.'' (take i (split_on CHR ''.'' name)) @ CHR ''.'' # d"
      using join_append [of "take i (split_on CHR ''.'' name)" "drop i (split_on CHR ''.'' name)" "CHR ''.''"]
      by (simp add: i(2) join_split)
    then show ?thesis unfolding has_suffix_def suffix_def by blast
  qed
next
  assume "name = d \<or> has_suffix name (CHR ''.'' # d)"
  then show "d \<in> set (name_and_parents name)"
    using self_in parent_in by (auto simp: has_suffix_def suffix_def)
qed

end
