(* ===== verification/DomainFilter.thy ===== *)
theory DomainFilter
  imports Config Domains "HOL-Library.List_Lexorder" "HOL-Library.Char_ord"
begin

text \<open>
  The domain filter of \<open>internal/filter/filter.go\<close>. A map from strings to \<open>true\<close> is the list
  of its keys without repetition. The published state is replaced as a whole by the writers,
  which hold a mutex; \<open>Blocked\<close> reads one state. The contents of a filter list are not part of
  the repository: an argument gives the lines that the scanner yields for a URL or a file, or
  \<open>None\<close> when it cannot be opened.
\<close>

subsection \<open>State\<close>

record filterState =
  fs_domains :: "string list"
  fs_mode :: string

record Filter =
  f_state :: filterState
  f_inline :: "string list"

record list_sources =
  ls_http :: "string \<Rightarrow> string list option"
  ls_file :: "string \<Rightarrow> string list option"

subsection \<open>Filter lists\<close>

definition parse_line :: "string \<Rightarrow> string list \<Rightarrow> string list" where
  "parse_line text domains =
     (let line = trim_space text
      in if line = '''' \<or> has_prefix line ''#'' then domains
         else
           let line = (case index_of CHR ''#'' line of
                         Some idx \<Rightarrow> trim_space (take idx line)
                       | None \<Rightarrow> line)
           in case str_fields line of
                [f] \<Rightarrow> List.insert (to_lower f) domains
              | [_, f] \<Rightarrow>
                  let domain = to_lower f
                  in if domain \<noteq> ''localhost'' \<and> domain \<noteq> ''localhost.localdomain''
                     then List.insert domain domains else domains
              | _ \<Rightarrow> domains)"

definition parseList :: "string list \<Rightarrow> string list \<Rightarrow> string list" where
  "parseList lines domains = fold parse_line lines domains"

definition loadFromURL :: "list_sources \<Rightarrow> string \<Rightarrow> string list \<Rightarrow> string list" where
  "loadFromURL src url domains =
     (case ls_http src url of Some lines \<Rightarrow> parseList lines domains | None \<Rightarrow> domains)"

definition loadFromFile :: "list_sources \<Rightarrow> string \<Rightarrow> string list \<Rightarrow> string list" where
  "loadFromFile src path domains =
     (case ls_file src path of Some lines \<Rightarrow> parseList lines domains | None \<Rightarrow> domains)"

text \<open>A list that cannot be loaded is logged and adds nothing.\<close>

definition loadListFromSource :: "list_sources \<Rightarrow> string \<Rightarrow> string list \<Rightarrow> string list" where
  "loadListFromSource src source domains =
     (if has_prefix source ''http://'' \<or> has_prefix source ''https://''
      then loadFromURL src source domains
      else loadFromFile src source domains)"

subsection \<open>Operations\<close>

definition NewFilter :: "list_sources \<Rightarrow> Config \<Rightarrow> Filter" where
  "NewFilter src cfg =
     (let fc = cfg_Filtering cfg; mode = to_lower (fc_Mode fc);
          inline = (if mode \<noteq> ''off''
                    then fold (\<lambda>d. List.insert (to_lower (trim_space d))) (fc_Inline fc) [] else []);
          domains = (if mode \<noteq> ''off'' then fold (loadListFromSource src) (fc_Lists fc) inline else [])
      in \<lparr>f_state = \<lparr>fs_domains = domains, fs_mode = mode\<rparr>, f_inline = inline\<rparr>)"

text \<open>The loop of \<open>Blocked\<close>: the name, then the name without its first label, and so on.\<close>

function blocked_loop :: "string list \<Rightarrow> string \<Rightarrow> string \<Rightarrow> bool" where
  "blocked_loop domains mode name =
     (if name \<in> set domains then mode = ''blacklist''
      else case index_of CHR ''.'' name of
          None \<Rightarrow> mode = ''whitelist''
        | Some idx \<Rightarrow> blocked_loop domains mode (drop (idx + 1) name))"
  by pat_completeness auto
termination blocked_loop
  by (relation "measure (\<lambda>(domains, mode, name). length name)") (auto dest: index_of_Some)

declare blocked_loop.simps [simp del]

definition Blocked :: "Filter \<Rightarrow> string \<Rightarrow> bool" where
  "Blocked f name =
     (let st = f_state f
      in if fs_mode st = ''off'' then False
         else blocked_loop (fs_domains st) (fs_mode st) (to_lower (trim_suffix name ''.'')))"

definition Add :: "string \<Rightarrow> Filter \<Rightarrow> Filter" where
  "Add domain f =
     (let d = to_lower (trim_space domain); cur = f_state f
      in \<lparr>f_state = \<lparr>fs_domains = List.insert d (fs_domains cur), fs_mode = fs_mode cur\<rparr>,
          f_inline = List.insert d (f_inline f)\<rparr>)"

definition Remove :: "string \<Rightarrow> Filter \<Rightarrow> Filter" where
  "Remove domain f =
     (let d = to_lower (trim_space domain); cur = f_state f
      in \<lparr>f_state = \<lparr>fs_domains = removeAll d (fs_domains cur), fs_mode = fs_mode cur\<rparr>,
          f_inline = removeAll d (f_inline f)\<rparr>)"

definition SetMode :: "string \<Rightarrow> Filter \<Rightarrow> Filter" where
  "SetMode mode f = f\<lparr>f_state := (f_state f)\<lparr>fs_mode := to_lower mode\<rparr>\<rparr>"

definition filter_size :: "Filter \<Rightarrow> nat" where
  "filter_size f = length (fs_domains (f_state f))"

definition InlineDomains :: "Filter \<Rightarrow> string list" where
  "InlineDomains f = sort (f_inline f)"

text \<open>
  \<open>Reload\<close> loads the lists without the mutex and publishes under it; other writers may run
  between the two parts.
\<close>

definition reload_load :: "list_sources \<Rightarrow> Config \<Rightarrow> string list" where
  "reload_load src cfg =
     (if to_lower (fc_Mode (cfg_Filtering cfg)) \<noteq> ''off''
      then fold (loadListFromSource src) (fc_Lists (cfg_Filtering cfg)) [] else [])"

definition reload_publish :: "string list \<Rightarrow> string \<Rightarrow> Filter \<Rightarrow> Filter" where
  "reload_publish loaded mode f =
     f\<lparr>f_state := \<lparr>fs_domains = fold List.insert (f_inline f) (fold List.insert loaded []),
                   fs_mode = mode\<rparr>\<rparr>"

definition Reload :: "list_sources \<Rightarrow> Config \<Rightarrow> Filter \<Rightarrow> Filter" where
  "Reload src cfg f =
     reload_publish (reload_load src cfg) (to_lower (fc_Mode (cfg_Filtering cfg))) f"

subsection \<open>What \<open>Blocked\<close> decides\<close>

lemma blocked_loop_spec:
  "blocked_loop domains mode name \<longleftrightarrow>
     (if set (name_and_parents name) \<inter> set domains = {} then mode = ''whitelist''
      else mode = ''blacklist'')"
proof (induction domains mode name rule: blocked_loop.induct)
  case (1 domains mode name)
  then show ?case
    by (subst blocked_loop.simps)
      (cases "index_of CHR ''.'' name", auto simp: name_and_parents_no_dot name_and_parents_dot)
qed

text \<open>
  C8: the meaning of the filter. In mode off nothing is blocked. Otherwise the name, in lower
  case and without one trailing dot, is listed when it or one of its parent domains is in the
  set; a blacklist blocks the listed names and a whitelist all others.
\<close>

theorem Blocked_spec:
  "Blocked f name \<longleftrightarrow>
     (let listed = (set (name_and_parents (to_lower (trim_suffix name ''.''))) \<inter>
                    set (fs_domains (f_state f)) \<noteq> {})
      in fs_mode (f_state f) \<noteq> ''off'' \<and>
         (if listed then fs_mode (f_state f) = ''blacklist'' else fs_mode (f_state f) = ''whitelist''))"
  by (auto simp: Blocked_def Let_def blocked_loop_spec)

lemma Blocked_listed:
  assumes "fs_mode (f_state f) = ''blacklist''" "x \<in> set (fs_domains (f_state f))"
    and "x \<in> set (name_and_parents (to_lower (trim_suffix name ''.'')))"
  shows "Blocked f name"
proof -
  have "set (name_and_parents (to_lower (trim_suffix name ''.''))) \<inter> set (fs_domains (f_state f)) \<noteq> {}"
    using assms(2,3) by blast
  with assms(1) show ?thesis by (simp add: Blocked_spec)
qed

lemma ascii_upper_char: "ascii_char (upper_char c) = ascii_char c"
  by (auto simp: ascii_char_def upper_char_def Let_def)

lemma lower_upper_char: "lower_char (upper_char c) = lower_char c"
  by (rule of_char_eqI [where 'a = nat]) (auto simp: lower_char_def upper_char_def Let_def)

lemma to_lower_to_upper:
  assumes "is_ascii s"
  shows "to_lower (to_upper s) = to_lower s"
proof -
  have "is_ascii (map upper_char s)" using assms by (simp add: is_ascii_def list_all_iff ascii_upper_char)
  with assms show ?thesis by (simp add: to_lower_def to_upper_def lower_upper_char)
qed

text \<open>
  Blocking a domain takes effect at once and covers all its subdomains, whatever the case
  of the query and whether it is written with a trailing dot.
\<close>

theorem Add_blocks_subdomains:
  assumes "fs_mode (f_state f) = ''blacklist''" "is_ascii d" "is_ascii p"
    and "list_all (\<lambda>c. \<not> ascii_space c) d" "d \<noteq> ''''" "last d \<noteq> CHR ''.''"
  shows "Blocked (Add d f) d \<and> Blocked (Add d f) (p @ ''.'' @ d) \<and>
    Blocked (Add d f) (to_upper (p @ ''.'' @ d) @ ''.'')"
proof -
  define g where "g = Add d f"
  have "trim_space d = d" using assms(2,4) by (simp add: trim_space_id list_all_iff)
  then have g: "fs_mode (f_state g) = ''blacklist''" "to_lower d \<in> set (fs_domains (f_state g))"
    by (simp_all add: g_def Add_def Let_def assms(1))
  have trim: "trim_suffix d ''.'' = d" "trim_suffix (p @ ''.'' @ d) ''.'' = p @ ''.'' @ d"
    using assms(5,6) by (intro trim_suffix_none, simp add: suffix_dot_iff)+
  have "to_lower (p @ ''.'' @ d) = to_lower p @ CHR ''.'' # to_lower d"
    using assms(2,3) by (simp add: to_lower_def)
  then have sub: "to_lower d \<in> set (name_and_parents (to_lower (p @ ''.'' @ d)))"
    by (simp only: parent_in)
  have "Blocked g d" by (rule Blocked_listed [OF g]) (simp only: trim self_in)
  moreover have "Blocked g (p @ ''.'' @ d)" by (rule Blocked_listed [OF g]) (simp only: trim sub)
  moreover have "is_ascii (p @ ''.'' @ d)" using assms(2,3) by simp
  then have "Blocked g (to_upper (p @ ''.'' @ d) @ ''.'')"
    by (intro Blocked_listed [OF g]) (simp only: trim_suffix_append to_lower_to_upper sub)
  ultimately show ?thesis by (simp add: g_def)
qed

definition empty_filter :: "string \<Rightarrow> Filter" where
  "empty_filter mode = \<lparr>f_state = \<lparr>fs_domains = [], fs_mode = mode\<rparr>, f_inline = []\<rparr>"

lemma Add_blocks_subdomains_witness:
  "Blocked (Add ''Ads.example'' (empty_filter ''blacklist'')) ''x.y.Ads.example''"
  using Add_blocks_subdomains [of "empty_filter ''blacklist''" "''Ads.example''" "''x.y''"]
  by (simp add: empty_filter_def ascii_char_def ascii_space_def)

subsection \<open>Reloading\<close>

lemma set_fold_insert: "set (fold List.insert xs ys) = set xs \<union> set ys"
  by (induction xs arbitrary: ys) auto

text \<open>
  A reload publishes exactly the lists it loaded together with the domains added by hand,
  and a domain added or removed while the lists were being fetched keeps that status: the
  publication reads the hand-made set when it happens, not when the reload began.
\<close>

theorem reload_merges:
  "set (fs_domains (f_state (reload_publish loaded mode f))) = set loaded \<union> set (f_inline f) \<and>
   to_lower (trim_space d) \<in> set (fs_domains (f_state (reload_publish loaded mode (Add d f)))) \<and>
   (to_lower (trim_space d) \<in> set (fs_domains (f_state (reload_publish loaded mode (Remove d f)))) \<longleftrightarrow>
      to_lower (trim_space d) \<in> set loaded) \<and>
   f_inline (reload_publish loaded mode f) = f_inline f"
  by (auto simp: reload_publish_def set_fold_insert Add_def Remove_def Let_def)

text \<open>
  A filter that starts in mode off forgets the inline list of the configuration. Switching
  the mode to blacklist at run time, and reloading with the very configuration that holds the
  list, still blocks nothing.
\<close>

theorem inline_forgotten_after_off:
  "fc_Mode (cfg_Filtering cfg) = ''off'' \<and> fc_Lists (cfg_Filtering cfg) = [] \<Longrightarrow>
   \<not> Blocked (SetMode ''blacklist'' (NewFilter src cfg)) name \<and>
   \<not> Blocked (Reload src (cfg\<lparr>cfg_Filtering := (cfg_Filtering cfg)\<lparr>fc_Mode := ''blacklist''\<rparr>\<rparr>)
       (SetMode ''blacklist'' (NewFilter src cfg))) name"
proof -
  have low: "to_lower ''off'' = ''off''" "to_lower ''blacklist'' = ''blacklist''" by code_simp+
  assume "fc_Mode (cfg_Filtering cfg) = ''off'' \<and> fc_Lists (cfg_Filtering cfg) = []"
  then show ?thesis
    by (simp add: Blocked_spec NewFilter_def SetMode_def Reload_def reload_load_def
        reload_publish_def Let_def low)
qed

lemma inline_forgotten_after_off_witness:
  "\<not> Blocked (SetMode ''blacklist'' (NewFilter \<lparr>ls_http = Map.empty, ls_file = Map.empty\<rparr>
      (defaults\<lparr>cfg_Filtering := (cfg_Filtering defaults)\<lparr>fc_Inline := [''ads.example'']\<rparr>\<rparr>))) ''ads.example''"
  using inline_forgotten_after_off
    [of "defaults\<lparr>cfg_Filtering := (cfg_Filtering defaults)\<lparr>fc_Inline := [''ads.example'']\<rparr>\<rparr>"
        "\<lparr>ls_http = Map.empty, ls_file = Map.empty\<rparr>" "''ads.example''"]
  by (simp add: defaults_def)

end
