(* ===== verification/AccessControl.thy ===== *)
theory AccessControl
  imports Config
begin

text \<open>
  The access list of \<open>internal/server/ratelimit.go\<close>: its compilation from the configuration,
  the decision for a client address, and \<open>sourceIP\<close>, which turns the address of a packet into
  text. Networks are compared as Go does, byte by byte under a mask; \<open>Contains_bits\<close> restates
  that as agreement on the leading bits.
\<close>

subsection \<open>Definitions\<close>

record aclRule =
  ar_net :: IPNet
  ar_allow :: bool

record compiledACL =
  ca_rules :: "aclRule list"
  ca_defaultAllow :: bool

definition newCompiledACL :: "ACLConfig \<Rightarrow> compiledACL" where
  "newCompiledACL cfg =
     \<lparr>ca_rules =
        concat (map (\<lambda>r. case ParseCIDR (acl_Subnet r) of
                        None \<Rightarrow> []
                      | Some (_, ipNet) \<Rightarrow>
                          [\<lparr>ar_net = ipNet, ar_allow = (to_lower (acl_Action r) = ''allow'')\<rparr>])
                  (acl_Rules cfg)),
      ca_defaultAllow = (to_lower (acl_Default cfg) \<noteq> ''deny'')\<rparr>"

fun first_rule :: "aclRule list \<Rightarrow> bool \<Rightarrow> byte list \<Rightarrow> bool" where
  "first_rule [] def ip = def"
| "first_rule (r # rs) def ip = (if Contains (ar_net r) ip then ar_allow r else first_rule rs def ip)"

definition allowed :: "compiledACL \<Rightarrow> string \<Rightarrow> bool" where
  "allowed a ipStr =
     (case ParseIP ipStr of
        None \<Rightarrow> ca_defaultAllow a
      | Some ip \<Rightarrow> first_rule (ca_rules a) (ca_defaultAllow a) ip)"

text \<open>
  The address of a packet's sender: the three address types of package \<open>net\<close> with their IP, or
  another type with its text. \<open>render\<close> is \<open>IP.String\<close> and \<open>split_host\<close> the host part that
  \<open>net.SplitHostPort\<close> finds.
\<close>

datatype net_addr = UDPAddr "byte list" | TCPAddr "byte list" | IPAddr "byte list" | OtherAddr string | NilAddr

fun sourceIP :: "(byte list \<Rightarrow> string) \<Rightarrow> (string \<Rightarrow> string option) \<Rightarrow> net_addr \<Rightarrow> string" where
  "sourceIP render split_host NilAddr = ''''"
| "sourceIP render split_host (UDPAddr ip) = render ip"
| "sourceIP render split_host (TCPAddr ip) = render ip"
| "sourceIP render split_host (IPAddr ip) = render ip"
| "sourceIP render split_host (OtherAddr s) = (case split_host s of Some host \<Rightarrow> host | None \<Rightarrow> s)"

subsection \<open>The decision\<close>

definition rule_matches :: "byte list \<Rightarrow> ACLRule \<Rightarrow> bool" where
  "rule_matches ip r \<longleftrightarrow>
     (case ParseCIDR (acl_Subnet r) of None \<Rightarrow> False | Some (_, n) \<Rightarrow> Contains n ip)"

lemma first_rule_find:
  "first_rule (ca_rules (newCompiledACL cfg)) def ip =
     (case find (rule_matches ip) (acl_Rules cfg) of
        Some r \<Rightarrow> to_lower (acl_Action r) = ''allow''
      | None \<Rightarrow> def)"
proof -
  have "first_rule (concat (map (\<lambda>r. case ParseCIDR (acl_Subnet r) of
                        None \<Rightarrow> []
                      | Some (_, ipNet) \<Rightarrow>
                          [\<lparr>ar_net = ipNet, ar_allow = (to_lower (acl_Action r) = ''allow'')\<rparr>]) rs)) def ip =
     (case find (rule_matches ip) rs of
        Some r \<Rightarrow> to_lower (acl_Action r) = ''allow''
      | None \<Rightarrow> def)" for rs
    by (induction rs) (auto simp: rule_matches_def split: option.split)
  then show ?thesis by (simp add: newCompiledACL_def)
qed

text \<open>
  The access list decides by the first rule of the configuration whose subnet contains the
  client, and by the default otherwise; a rule whose subnet does not parse is never used, and
  an address that is no IP address gets the default.
\<close>

theorem allowed_first_match:
  "allowed (newCompiledACL cfg) ipStr =
     (case ParseIP ipStr of
        None \<Rightarrow> to_lower (acl_Default cfg) \<noteq> ''deny''
      | Some ip \<Rightarrow>
          (case find (rule_matches ip) (acl_Rules cfg) of
             Some r \<Rightarrow> to_lower (acl_Action r) = ''allow''
           | None \<Rightarrow> to_lower (acl_Default cfg) \<noteq> ''deny''))"
  by (simp add: allowed_def first_rule_find split: option.split) (simp add: newCompiledACL_def)

subsection \<open>Masks and leading bits\<close>

text \<open>Bit \<open>i\<close> of an address, counted from its first bit.\<close>

definition ip_bit :: "byte list \<Rightarrow> nat \<Rightarrow> bool" where
  "ip_bit ip i \<longleftrightarrow> bit (ip ! (i div 8)) (7 - i mod 8)"

lemma bit_FF_int: "bit (0xFF :: int) b \<longleftrightarrow> b < 8"
proof -
  have "(0xFF :: int) = mask 8" by (simp add: mask_eq_exp_minus_1)
  then show ?thesis by (simp only: bit_mask_iff) simp
qed

lemma bit_mask_byte: "bit (mask_byte k) b \<longleftrightarrow> b < 8 \<and> 8 \<le> k + b"
  by (cases "8 \<le> k") (auto simp: mask_byte_def bit_FF_int bit_not_iff bit_drop_bit_eq)

lemma and_mask_byte_eq:
  "x AND mask_byte k = y AND mask_byte k \<longleftrightarrow> (\<forall>b < 8. 8 \<le> k + b \<longrightarrow> bit x b = bit (y :: byte) b)"
  by (auto simp: bit_eq_iff bit_and_iff bit_mask_byte)

lemma and_bytes_eq:
  assumes "length xs = len" "length ys = len"
  shows "and_bytes xs (CIDRMask n len) = and_bytes ys (CIDRMask n len) \<longleftrightarrow>
    (\<forall>j < len. \<forall>b < 8. 8 \<le> n - 8 * j + b \<longrightarrow> bit (xs ! j) b = bit (ys ! j) b)"
proof -
  have "and_bytes xs (CIDRMask n len) = and_bytes ys (CIDRMask n len) \<longleftrightarrow>
      (\<forall>j < len. xs ! j AND mask_byte (n - 8 * j) = ys ! j AND mask_byte (n - 8 * j))"
    using assms by (simp add: and_bytes_def CIDRMask_def list_eq_iff_nth_eq)
  then show ?thesis by (simp add: and_mask_byte_eq)
qed

lemma leading_bits:
  assumes "n \<le> 8 * len"
  shows "(\<forall>j < len. \<forall>b < 8. 8 \<le> n - 8 * j + b \<longrightarrow> bit (xs ! j) b = bit (ys ! j) b) \<longleftrightarrow>
    (\<forall>i < n. ip_bit xs i = ip_bit ys i)"
proof (rule iffI; intro allI impI)
  fix i
  assume *: "\<forall>j < len. \<forall>b < 8. 8 \<le> n - 8 * j + b \<longrightarrow> bit (xs ! j) b = bit (ys ! j) b" and i: "i < n"
  define q r where "q = i div 8" and "r = i mod 8"
  have "8 * q + r = i" "r < 8" by (simp_all add: q_def r_def)
  then have "8 \<le> n - 8 * q + (7 - r)" "q < len" using i assms by linarith+
  then show "ip_bit xs i = ip_bit ys i"
    unfolding ip_bit_def q_def [symmetric] r_def [symmetric] using * by simp
next
  fix j b
  assume *: "\<forall>i < n. ip_bit xs i = ip_bit ys i" and "j < len" "b < (8 :: nat)" "8 \<le> n - 8 * j + b"
  define c where "c = 7 - b"
  with \<open>b < 8\<close> have c: "c < 8" "b = 7 - c" by simp_all
  with \<open>8 \<le> n - 8 * j + b\<close> have "8 * j + c < n" by linarith
  with * have "ip_bit xs (8 * j + c) = ip_bit ys (8 * j + c)" by blast
  with c(1) show "bit (xs ! j) b = bit (ys ! j) b" by (simp add: ip_bit_def flip: c(2))
qed

lemma length_and_bytes [simp]: "length (and_bytes xs ys) = min (length xs) (length ys)"
  by (simp add: and_bytes_def)

lemma length_CIDRMask [simp]: "length (CIDRMask n len) = len"
  by (simp add: CIDRMask_def)

lemma and_bytes_idem: "and_bytes (and_bytes xs m) m = and_bytes xs m"
  by (rule nth_equalityI) (auto simp: and_bytes_def)

lemma parse_octet_list:
  "parse_ipv4 s = Some a \<Longrightarrow> length a = 4"
  by (auto simp: parse_ipv4_def split: list.splits option.splits)

text \<open>An address in the form in which \<open>Contains\<close> compares it.\<close>

definition short_form :: "byte list \<Rightarrow> byte list" where
  "short_form ip = (case To4 ip of Some x \<Rightarrow> x | None \<Rightarrow> ip)"

lemma Contains_v4:
  assumes "length a = 4" "n \<le> 32"
  shows "Contains \<lparr>net_ip = and_bytes a (CIDRMask n 4), net_mask = CIDRMask n 4\<rparr> ip \<longleftrightarrow>
    length (short_form ip) = 4 \<and> (\<forall>i < n. ip_bit a i = ip_bit (short_form ip) i)"
proof -
  have nn: "network_number \<lparr>net_ip = and_bytes a (CIDRMask n 4), net_mask = CIDRMask n 4\<rparr> =
      Some (and_bytes a (CIDRMask n 4), CIDRMask n 4)"
    using assms(1) by (simp add: network_number_def To4_def)
  have "and_bytes a (CIDRMask n 4) = and_bytes ip' (CIDRMask n 4) \<longleftrightarrow>
      (\<forall>i < n. ip_bit a i = ip_bit ip' i)" if "length ip' = 4" for ip'
    using and_bytes_eq [OF assms(1) that] leading_bits [of n 4] assms(2) by simp
  then show ?thesis
    using assms(1)
    by (auto simp: Contains_def nn Let_def and_bytes_idem simp flip: short_form_def)
qed

lemma parse_dec_append:
  "parse_dec acc (s @ t) = Option.bind (parse_dec acc s) (\<lambda>a. parse_dec a t)"
  by (induction acc s rule: parse_dec.induct) (auto split: option.split)

lemma digit_val_char: "d < 10 \<Longrightarrow> digit_val (char_of (d + 48)) = Some d"
  by (simp add: digit_val_def)

lemma parse_dec_string: "parse_dec 0 (dec_string n) = Some n"
proof (induction n rule: dec_string.induct)
  case (1 n)
  show ?case
  proof (cases "n < 10")
    case True
    then show ?thesis by (subst dec_string.simps) (simp add: digit_val_char)
  next
    case False
    with 1 show ?thesis
      by (subst dec_string.simps) (simp add: parse_dec_append digit_val_char)
  qed
qed

lemma dec_string_not_Nil [simp]: "dec_string n \<noteq> []"
  by (subst dec_string.simps) simp

lemma parse_dec_digits: "parse_dec acc s = Some k \<Longrightarrow> c \<in> set s \<Longrightarrow> digit_val c \<noteq> None"
  by (induction acc s rule: parse_dec.induct) (auto split: option.splits)

lemma parse_octet_digits: "parse_octet s = Some b \<Longrightarrow> c \<in> set s \<Longrightarrow> digit_val c \<noteq> None"
  by (auto simp: parse_octet_def split: if_splits option.splits dest: parse_dec_digits)

lemma parse_ipv4_split:
  assumes "parse_ipv4 s = Some a"
  obtains p q r t where "split_on CHR ''.'' s = [p, q, r, t]"
    "\<forall>l \<in> {p, q, r, t}. parse_octet l \<noteq> None"
  using assms by (auto simp: parse_ipv4_def map_eq_Cons_conv split: list.splits option.splits)

lemma parse_ipv4_chars:
  assumes "parse_ipv4 s = Some a"
  shows "CHR ''.'' \<in> set s" "c \<in> set s \<Longrightarrow> c = CHR ''.'' \<or> digit_val c \<noteq> None"
proof -
  obtain p q r t where split: "split_on CHR ''.'' s = [p, q, r, t]"
    and oct: "\<forall>l \<in> {p, q, r, t}. parse_octet l \<noteq> None"
    using parse_ipv4_split [OF assms] by metis
  then have s: "s = p @ CHR ''.'' # q @ CHR ''.'' # r @ CHR ''.'' # t"
    using join_split [of "CHR ''.''" s] by simp
  then show "CHR ''.'' \<in> set s" by simp
  show "c \<in> set s \<Longrightarrow> c = CHR ''.'' \<or> digit_val c \<noteq> None"
    using oct parse_octet_digits by (auto simp: s)
qed

lemma parse_addr_from_v4:
  "CHR ''.'' \<in> set s \<Longrightarrow> \<forall>c \<in> set s. c = CHR ''.'' \<or> digit_val c \<noteq> None \<Longrightarrow>
   parse_addr_from whole s = parse_ipv4 whole"
proof (induction whole s rule: parse_addr_from.induct)
  case (2 whole c s)
  show ?case
  proof (cases "c = CHR ''.''")
    case False
    with "2.prems"(2) have "digit_val c \<noteq> None" by simp
    moreover have "digit_val CHR '':'' = None" "digit_val CHR ''%'' = None"
      by (simp_all add: digit_val_def)
    ultimately have "c \<noteq> CHR '':''" "c \<noteq> CHR ''%''" by metis+
    with False "2.IH" [OF False this] "2.prems" show ?thesis by simp
  qed simp
qed simp

lemma parse_addr_v4:
  assumes "parse_ipv4 s = Some a"
  shows "parse_addr s = Some a"
  using parse_addr_from_v4 [of s s] parse_ipv4_chars [OF assms] assms by (simp add: parse_addr_def)

lemma ParseCIDR_v4:
  assumes "parse_ipv4 s = Some a" "n \<le> 32"
  shows "ParseCIDR (s @ CHR ''/'' # dec_string n) =
    Some (as16 a, \<lparr>net_ip = and_bytes a (CIDRMask n 4), net_mask = CIDRMask n 4\<rparr>)"
proof -
  have "digit_val CHR ''/'' = None" by (simp add: digit_val_def)
  then have "CHR ''/'' \<notin> set s" using parse_ipv4_chars(2) [OF assms(1), of "CHR ''/''"] by auto
  then have "index_of CHR ''/'' (s @ CHR ''/'' # dec_string n) = Some (length s)"
    by (simp add: index_of_append)
  with assms parse_addr_v4 [OF assms(1)] parse_octet_list [OF assms(1)] show ?thesis
    by (simp add: ParseCIDR_def parse_dec_string Let_def)
qed

text \<open>
  An IPv4 subnet of the access list contains exactly the IPv4 clients (in either form, plain
  or mapped into IPv6) whose address agrees with the subnet's on its first \<open>n\<close> bits.
\<close>

lemma ipv4_subnet_bits:
  assumes "parse_ipv4 net_text = Some a" "n \<le> 32"
    and "acl_Subnet r = net_text @ ''/'' @ dec_string n"
  shows "rule_matches ip r \<longleftrightarrow>
    length (short_form ip) = 4 \<and> (\<forall>i < n. ip_bit a i = ip_bit (short_form ip) i)"
  using Contains_v4 [OF parse_octet_list [OF assms(1)] assms(2)]
  by (simp add: rule_matches_def assms(3) ParseCIDR_v4 [OF assms(1,2)])

text \<open>
  C26: the compiled access list decides as the configuration reads. With rules for IPv4 subnets
  \<open>a/n\<close> (and possibly rules whose subnet does not parse, which are skipped), a client gets the
  action of the first rule, in the order of the configuration, whose address agrees with the client's
  on the first \<open>n\<close> bits, whatever the host bits of the subnet as written; without such a rule, and for
  a text that is no IP address, it gets the default. Only the action \<open>allow\<close> admits, and only the
  default \<open>deny\<close> refuses, in any case of letters.
\<close>

theorem ipv4_access_list:
  assumes "\<And>r. r \<in> set (acl_Rules cfg) \<Longrightarrow> ParseCIDR (acl_Subnet r) \<noteq> None \<Longrightarrow>
      parse_ipv4 (net_text r) = Some (a r) \<and> n r \<le> 32 \<and> acl_Subnet r = net_text r @ ''/'' @ dec_string (n r)"
  shows "allowed (newCompiledACL cfg) ipStr =
    (let default = (to_lower (acl_Default cfg) \<noteq> ''deny'')
     in case ParseIP ipStr of
          None \<Rightarrow> default
        | Some ip \<Rightarrow>
            (case find (\<lambda>r. ParseCIDR (acl_Subnet r) \<noteq> None \<and> length (short_form ip) = 4 \<and>
                    (\<forall>i < n r. ip_bit (a r) i = ip_bit (short_form ip) i)) (acl_Rules cfg) of
               Some r \<Rightarrow> to_lower (acl_Action r) = ''allow''
             | None \<Rightarrow> default))"
proof (cases "ParseIP ipStr")
  case None
  then show ?thesis by (simp add: allowed_def newCompiledACL_def)
next
  case (Some ip)
  have "rule_matches ip r \<longleftrightarrow> ParseCIDR (acl_Subnet r) \<noteq> None \<and> length (short_form ip) = 4 \<and>
      (\<forall>i < n r. ip_bit (a r) i = ip_bit (short_form ip) i)" if "r \<in> set (acl_Rules cfg)" for r
    using assms [OF that] ipv4_subnet_bits [of "net_text r" "a r" "n r" r ip]
    by (cases "ParseCIDR (acl_Subnet r)") (auto simp: rule_matches_def)
  then have "find (rule_matches ip) (acl_Rules cfg) =
      find (\<lambda>r. ParseCIDR (acl_Subnet r) \<noteq> None \<and> length (short_form ip) = 4 \<and>
        (\<forall>i < n r. ip_bit (a r) i = ip_bit (short_form ip) i)) (acl_Rules cfg)"
    by (intro find_cong) auto
  then show ?thesis
    by (simp only: allowed_first_match Some option.case Let_def)
qed

definition two_subnets :: ACLConfig where
  "two_subnets = \<lparr>acl_Default = ''Deny'', acl_Rules =
     [\<lparr>acl_Subnet = ''192.168.1.2/16'', acl_Action = ''allow''\<rparr>, \<lparr>acl_Subnet = ''192.0.0.0/8'', acl_Action = ''deny''\<rparr>]\<rparr>"

lemma ipv4_access_list_witness: "allowed (newCompiledACL two_subnets) ''192.168.7.9''"
proof -
  define r1 r2 where "r1 = \<lparr>acl_Subnet = ''192.168.1.2/16'', acl_Action = ''allow''\<rparr>"
    and "r2 = \<lparr>acl_Subnet = ''192.0.0.0/8'', acl_Action = ''deny''\<rparr>"
  have rules: "acl_Rules two_subnets = [r1, r2]" by (simp add: two_subnets_def r1_def r2_def)
  have ne: "r1 \<noteq> r2" by (simp add: r1_def r2_def)
  have "parse_ipv4 ''192.168.1.2'' = Some [192, 168, 1, 2]" "parse_ipv4 ''192.0.0.0'' = Some [192, 0, 0, 0]"
    "dec_string 16 = ''16''" "dec_string 8 = ''8''" by code_simp+
  then have "r \<in> set (acl_Rules two_subnets) \<Longrightarrow>
      parse_ipv4 (if r = r1 then ''192.168.1.2'' else ''192.0.0.0'') =
        Some (if r = r1 then [192, 168, 1, 2] else [192, 0, 0, 0]) \<and>
      (if r = r1 then 16 else 8) \<le> (32 :: nat) \<and>
      acl_Subnet r = (if r = r1 then ''192.168.1.2'' else ''192.0.0.0'') @ ''/'' @ dec_string (if r = r1 then 16 else 8)" for r
    using ne by (auto simp: rules) (simp_all add: r1_def r2_def)
  note decided = ipv4_access_list [of two_subnets "\<lambda>r. if r = r1 then ''192.168.1.2'' else ''192.0.0.0''"
      "\<lambda>r. if r = r1 then [192, 168, 1, 2] else [192, 0, 0, 0]" "\<lambda>r. if r = r1 then 16 else 8" "''192.168.7.9''", OF this]
  have "list_all (\<lambda>i. ip_bit [192, 168, 1, 2] i = ip_bit [192, 168, 7, 9] i) [0..<16]"
    by code_simp
  then have "\<forall>i < 16. ip_bit [192, 168, 1, 2] i = ip_bit [192, 168, 7, 9] i"
    by (simp only: list_all_iff set_upt) simp
  moreover have "map_option short_form (ParseIP ''192.168.7.9'') = Some [192, 168, 7, 9]"
    "ParseCIDR (acl_Subnet r1) \<noteq> None" "to_lower (acl_Action r1) = ''allow''" unfolding r1_def by code_simp+
  ultimately show ?thesis
    by (subst decided) (auto simp: rules Let_def)
qed

end
