(* ===== verification/RateLimiter.thy ===== *)
theory RateLimiter
  imports Float64
begin

text \<open>
  The token bucket rate limiter of \<open>internal/server/ratelimit.go\<close>, with the float arithmetic
  of \<open>Float64\<close>: one bucket per client address, refilled by the time since its last use, capped
  at the burst, and a periodic clean-up of idle buckets. \<open>allow\<close> runs under the limiter's
  mutex; the clock is its first argument.
\<close>

subsection \<open>Definitions\<close>

definition rateLimitIdleTTL :: int where
  "rateLimitIdleTTL = 600 * second"

record tokenBucket =
  tb_tokens :: rat
  tb_last :: int
  tb_lastSeen :: int

text \<open>A zero \<open>rl_nextCleanup\<close> is the zero time.\<close>

record rateLimiter =
  rl_buckets :: "(string \<times> tokenBucket) list"
  rl_rate :: rat
  rl_burst :: rat
  rl_nextCleanup :: int

definition newRateLimiter :: "int \<Rightarrow> int \<Rightarrow> rateLimiter" where
  "newRateLimiter qps burst =
     \<lparr>rl_buckets = [], rl_rate = round64 (of_int qps), rl_burst = round64 (of_int burst),
      rl_nextCleanup = 0\<rparr>"

definition cleanup :: "int \<Rightarrow> rateLimiter \<Rightarrow> rateLimiter" where
  "cleanup now r =
     r\<lparr>rl_buckets := filter (\<lambda>(ip, b). \<not> rateLimitIdleTTL < time_sub now (tb_lastSeen b)) (rl_buckets r)\<rparr>"

definition housekeeping :: "int \<Rightarrow> rateLimiter \<Rightarrow> rateLimiter" where
  "housekeeping now r =
     (if rl_nextCleanup r = 0 then r\<lparr>rl_nextCleanup := now + 60 * second\<rparr>
      else if rl_nextCleanup r < now then (cleanup now r)\<lparr>rl_nextCleanup := now + 60 * second\<rparr>
      else r)"

definition allow :: "int \<Rightarrow> string \<Rightarrow> rateLimiter \<Rightarrow> bool \<times> rateLimiter" where
  "allow now ip r =
     (let r = housekeeping now r;
          b = (case map_of (rl_buckets r) ip of
                 Some b \<Rightarrow> b
               | None \<Rightarrow> \<lparr>tb_tokens = rl_burst r, tb_last = now, tb_lastSeen = 0\<rparr>);
          elapsed = duration_seconds (time_sub now (tb_last b));
          tokens = min (rl_burst r) (round64 (tb_tokens b + round64 (elapsed * rl_rate r)));
          ok = (\<not> tokens < 1);
          b' = \<lparr>tb_tokens = (if ok then round64 (tokens - 1) else tokens), tb_last = now,
                tb_lastSeen = now\<rparr>
      in (ok, r\<lparr>rl_buckets := AList.update ip b' (rl_buckets r)\<rparr>))"

text \<open>A run of queries: the decisions in order, and the final state.\<close>

fun allow_run :: "(int \<times> string) list \<Rightarrow> rateLimiter \<Rightarrow> bool list \<times> rateLimiter" where
  "allow_run [] r = ([], r)"
| "allow_run ((now, ip) # qs) r =
     (case allow now ip r of (ok, r1) \<Rightarrow> (case allow_run qs r1 of (oks, r2) \<Rightarrow> (ok # oks, r2)))"

subsection \<open>The burst\<close>

lemma duration_seconds_0 [simp]: "duration_seconds 0 = 0"
  by (simp add: duration_seconds_def Let_def second_def)

lemma time_sub_self [simp]: "time_sub t t = 0"
  by (simp add: time_sub_def)

text \<open>The state of a client's bucket: as stored, or full when there is none.\<close>

definition tokens_of :: "string \<Rightarrow> rateLimiter \<Rightarrow> rat" where
  "tokens_of ip r = (case map_of (rl_buckets r) ip of Some b \<Rightarrow> tb_tokens b | None \<Rightarrow> rl_burst r)"

definition frozen :: "int \<Rightarrow> string \<Rightarrow> rateLimiter \<Rightarrow> bool" where
  "frozen now ip r \<longleftrightarrow>
     rl_nextCleanup r = now + 60 * second \<and>
     (case map_of (rl_buckets r) ip of Some b \<Rightarrow> tb_last b = now | None \<Rightarrow> True)"

lemma allow_frozen:
  assumes "frozen now ip r" "tokens_of ip r = of_int k" "0 \<le> k" "of_int k \<le> rl_burst r"
    and "\<bar>k\<bar> < 2 ^ 53" "0 < now"
  shows "fst (allow now ip r) \<longleftrightarrow> 1 \<le> k"
    and "tokens_of ip (snd (allow now ip r)) = of_int (if 1 \<le> k then k - 1 else k)"
    and "frozen now ip (snd (allow now ip r))"
    and "rl_burst (snd (allow now ip r)) = rl_burst r"
proof -
  have keep: "housekeeping now r = r"
    using assms(1,6) by (simp add: frozen_def housekeeping_def second_def)
  define b where "b = (case map_of (rl_buckets r) ip of Some b \<Rightarrow> b
      | None \<Rightarrow> \<lparr>tb_tokens = rl_burst r, tb_last = now, tb_lastSeen = 0\<rparr>)"
  have b: "tb_last b = now" "tb_tokens b = of_int k"
    using assms(1,2) by (simp_all add: b_def frozen_def tokens_of_def split: option.splits)
  have "min (rl_burst r) (round64 (tb_tokens b + round64 (duration_seconds (time_sub now (tb_last b)) * rl_rate r))) = of_int k"
    using assms(4,5) by (simp add: b min_def)
  moreover have "round64 (of_int k - 1) = (of_int (k - 1) :: rat)" if "1 \<le> k"
    using round64_of_int [of "k - 1"] assms(5) that by simp
  ultimately have allow: "allow now ip r = (1 \<le> k, r\<lparr>rl_buckets := AList.update ip
      \<lparr>tb_tokens = of_int (if 1 \<le> k then k - 1 else k), tb_last = now, tb_lastSeen = now\<rparr> (rl_buckets r)\<rparr>)"
    using assms(3) by (auto simp: allow_def keep b_def [symmetric] Let_def)
  show "fst (allow now ip r) \<longleftrightarrow> 1 \<le> k"
    and "tokens_of ip (snd (allow now ip r)) = of_int (if 1 \<le> k then k - 1 else k)"
    and "frozen now ip (snd (allow now ip r))"
    and "rl_burst (snd (allow now ip r)) = rl_burst r"
    using assms(1) by (simp_all add: allow tokens_of_def frozen_def alist)
qed

lemma run_frozen:
  assumes "frozen now ip r" "tokens_of ip r = of_int (int k)" "of_int (int k) \<le> rl_burst r"
    and "int k < 2 ^ 53" "0 < now"
  shows "fst (allow_run (replicate n (now, ip)) r) = map (\<lambda>i. i < k) [0..<n]"
  using assms
proof (induction n arbitrary: r k)
  case (Suc n)
  note step = allow_frozen [OF Suc.prems(1,2) _ Suc.prems(3) _ Suc.prems(5)]
  define r1 where "r1 = snd (allow now ip r)"
  have "fst (allow_run (replicate n (now, ip)) r1) = map (\<lambda>i. i < k - 1) [0..<n]"
  proof (rule Suc.IH)
    show "frozen now ip r1" using step(3) Suc.prems(4) by (simp add: r1_def)
    show "tokens_of ip r1 = of_int (int (k - 1))"
      using step(2) Suc.prems(4) by (simp add: r1_def of_nat_diff)
    show "of_int (int (k - 1)) \<le> rl_burst r1"
      using step(4) Suc.prems(3,4) by (simp add: r1_def)
    show "int (k - 1) < 2 ^ 53" using Suc.prems(4) by simp
  qed (rule Suc.prems)
  moreover have "map (\<lambda>i. i < k) [0..<Suc n] = (1 \<le> k) # map (\<lambda>i. i < k - 1) [0..<n]"
    by (auto simp: map_Suc_upt [symmetric] upt_conv_Cons simp del: upt_Suc intro!: nth_equalityI)
  ultimately show ?case
    using step(1) Suc.prems(4) by (simp add: case_prod_beta r1_def del: upt_Suc)
qed simp

text \<open>
  C27: the burst is exact. Of any number of queries that a new client sends at one instant, the
  first \<open>burst\<close> are answered and all others are dropped.
\<close>

theorem burst_exact:
  assumes "0 < burst" "burst < 2 ^ 53" "0 < now"
  shows "fst (allow_run (replicate n (now, ip)) (newRateLimiter qps burst)) =
    map (\<lambda>i. int i < burst) [0..<n]"
proof (cases n)
  case (Suc m)
  define r0 where "r0 = newRateLimiter qps burst"
  define r where "r = r0\<lparr>rl_nextCleanup := now + 60 * second\<rparr>"
  have "housekeeping now r0 = r" by (simp add: r_def r0_def newRateLimiter_def housekeeping_def)
  moreover have "housekeeping now r = r"
    using assms(3) by (simp add: r_def housekeeping_def second_def)
  ultimately have "allow now ip r0 = allow now ip r" by (simp add: allow_def)
  then have "allow_run (replicate n (now, ip)) r0 = allow_run (replicate n (now, ip)) r"
    by (simp add: Suc)
  moreover have "fst (allow_run (replicate n (now, ip)) r) = map (\<lambda>i. i < nat burst) [0..<n]"
    using assms by (intro run_frozen) (simp_all add: r_def r0_def newRateLimiter_def frozen_def tokens_of_def)
  ultimately show ?thesis using assms(1) by (simp add: r0_def zless_nat_conj nat_less_iff zless_nat_eq_int_zless)
qed simp

lemma burst_exact_witness:
  "fst (allow_run (replicate 4 (second, ''10.0.0.1'')) (newRateLimiter 1 2)) = [True, True, False, False]"
  using burst_exact [of 2 second 4 "''10.0.0.1''" 1] by (simp add: second_def upt_rec)

subsection \<open>Caps and isolation\<close>

lemma rl_burst_housekeeping [simp]: "rl_burst (housekeeping now r) = rl_burst r"
  by (simp add: housekeeping_def cleanup_def)

lemma allow_shape:
  obtains b where "snd (allow now ip r) =
    (housekeeping now r)\<lparr>rl_buckets := AList.update ip b (rl_buckets (housekeeping now r))\<rparr>"
  by (simp add: allow_def Let_def)

lemma rl_burst_allow [simp]: "rl_burst (snd (allow now ip r)) = rl_burst r"
  by (rule allow_shape [of now ip r]) simp

lemma tokens_allow_other:
  "ip' \<noteq> ip \<Longrightarrow> tokens_of ip' (snd (allow now ip r)) = tokens_of ip' (housekeeping now r)"
  by (rule allow_shape [of now ip r]) (simp add: tokens_of_def alist split: option.split)

lemma buckets_distinct_allow:
  "distinct (map fst (rl_buckets r)) \<Longrightarrow> distinct (map fst (rl_buckets (snd (allow now ip r))))"
  by (rule allow_shape [of now ip r])
    (simp add: housekeeping_def cleanup_def distinct_update distinct_map_filter)

lemma tokens_housekeeping:
  "distinct (map fst (rl_buckets r)) \<Longrightarrow>
   tokens_of ip (housekeeping now r) = tokens_of ip r \<or> tokens_of ip (housekeeping now r) = rl_burst r"
  by (auto simp: housekeeping_def cleanup_def tokens_of_def map_of_filter_distinct split: option.split)

lemma allow_capped:
  assumes "distinct (map fst (rl_buckets r))" "rl_burst r = of_int k" "\<bar>k\<bar> < 2 ^ 53"
    and "tokens_of ip' r \<le> rl_burst r"
  shows "tokens_of ip' (snd (allow now ip r)) \<le> rl_burst r"
proof (cases "ip' = ip")
  case True
  have "round64 (t - 1) \<le> rl_burst r" if "t \<le> rl_burst r" for t
    using round64_mono [of "t - 1" "rl_burst r"] that assms(2,3) by simp
  with True show ?thesis by (simp add: allow_def Let_def tokens_of_def alist)
next
  case False
  with tokens_housekeeping [OF assms(1), of ip' now] assms(4) show ?thesis
    by (auto simp: tokens_allow_other)
qed

text \<open>
  Clients do not share tokens. Whatever other clients send, in any number and at any times,
  a client keeps at least the tokens it had, and no client ever holds more than the burst: its
  bucket is untouched, or was dropped by the clean-up and counts as full again.
\<close>

theorem client_isolation:
  assumes "distinct (map fst (rl_buckets r))" "list_all (\<lambda>(t, i). i \<noteq> ip) qs"
    and "rl_burst r = of_int k" "\<bar>k\<bar> < 2 ^ 53" "tokens_of ip r \<le> rl_burst r"
  shows "tokens_of ip r \<le> tokens_of ip (snd (allow_run qs r)) \<and>
    tokens_of ip (snd (allow_run qs r)) \<le> of_int k \<and>
    tokens_of ip (snd (allow_run qs r)) \<in> {tokens_of ip r, of_int k}"
  using assms
proof (induction qs arbitrary: r)
  case (Cons q qs)
  obtain now i where q: "q = (now, i)" by (cases q)
  define r1 where "r1 = snd (allow now i r)"
  have i: "ip \<noteq> i" using Cons.prems(2) by (auto simp: q)
  have "tokens_of ip r1 = tokens_of ip r \<or> tokens_of ip r1 = rl_burst r"
    using tokens_allow_other [OF i, of now r] tokens_housekeeping [OF Cons.prems(1), of ip now]
    by (simp add: r1_def)
  moreover have "tokens_of ip r1 \<le> rl_burst r"
    using allow_capped [OF Cons.prems(1,3,4,5)] by (simp add: r1_def)
  moreover have "rl_burst r1 = rl_burst r" by (simp add: r1_def)
  moreover have "distinct (map fst (rl_buckets r1))"
    using buckets_distinct_allow [OF Cons.prems(1)] by (simp add: r1_def)
  moreover have "snd (allow_run (q # qs) r) = snd (allow_run qs r1)"
    by (simp add: q case_prod_beta r1_def)
  ultimately show ?case using Cons.IH [of r1] Cons.prems by auto
qed simp

lemma client_isolation_witness:
  "tokens_of ''a'' (snd (allow_run [(second, ''b''), (2 * second, ''c'')] (newRateLimiter 1 2))) = 2"
proof -
  define r where "r = newRateLimiter 1 2"
  have "rl_burst r = of_int 2" "distinct (map fst (rl_buckets r))" "tokens_of ''a'' r = 2"
    using round64_of_int [of 2] by (simp_all add: r_def newRateLimiter_def tokens_of_def)
  with client_isolation [of r "''a''" "[(second, ''b''), (2 * second, ''c'')]" 2] show ?thesis
    by (simp flip: r_def del: allow_run.simps)
qed

end
