(* ===== verification/RingLogs.thy ===== *)
theory RingLogs
  imports Prelude
begin

text \<open>
  The two bounded logs of the server: the query log of \<open>internal/server/querylog.go\<close> and the
  per-second history of \<open>internal/server/statshistory.go\<close>. Both are ring buffers. Their contract
  is the locale \<open>bounded_log\<close>: a push appends to the contents and drops what exceeds the
  capacity from the front.
\<close>

subsection \<open>The contract\<close>

definition newest :: "nat \<Rightarrow> 'a list \<Rightarrow> 'a list" where
  "newest n xs = drop (length xs - n) xs"

lemma length_newest [simp]: "length (newest n xs) = min n (length xs)"
  by (simp add: newest_def)

lemma newest_newest_snoc: "newest n (newest n xs @ [x]) = newest n (xs @ [x])"
  by (cases "n \<le> length xs"; cases n) (simp_all add: newest_def Suc_diff_Suc Suc_le_eq)

lemma newest_le: "m \<le> n \<Longrightarrow> newest m (newest n xs) = newest m xs"
  by (cases "n \<le> length xs") (simp_all add: newest_def)

lemma newest_newest: "newest a (newest b xs) = newest (min b a) xs"
  by (cases "b \<le> length xs"; cases "a \<le> b") (auto simp: newest_def min_def)

locale bounded_log =
  fixes ok :: "'s \<Rightarrow> bool" and push :: "'a \<Rightarrow> 's \<Rightarrow> 's" and contents :: "'s \<Rightarrow> 'a list"
    and capacity :: "'s \<Rightarrow> nat"
  assumes push_ok: "ok s \<Longrightarrow> ok (push a s)"
    and push_capacity: "ok s \<Longrightarrow> capacity (push a s) = capacity s"
    and push_contents: "ok s \<Longrightarrow> contents (push a s) = newest (capacity s) (contents s @ [a])"
begin

lemma pushes_ok: "ok s \<Longrightarrow> ok (fold push xs s) \<and> capacity (fold push xs s) = capacity s"
  by (induction xs arbitrary: s) (simp_all add: push_ok push_capacity)

lemma pushes_contents:
  "ok s \<Longrightarrow> length (contents s) \<le> capacity s \<Longrightarrow>
   contents (fold push xs s) = newest (capacity s) (contents s @ xs)"
proof (induction xs rule: rev_induct)
  case Nil
  then show ?case by (simp add: newest_def)
next
  case (snoc x xs)
  with pushes_ok [of s xs] push_contents [of "fold push xs s" x] show ?case
    by (simp add: newest_newest_snoc [of _ "contents s @ xs" x, simplified])
qed

end

subsection \<open>The query log\<close>

record QueryEntry =
  qe_Time :: int
  qe_Domain :: string
  qe_Type :: string
  qe_Client :: string
  qe_Status :: string
  qe_Latency :: int

text \<open>\<open>ql_file\<close> is the list of entries written to the log file as JSON lines, if there is one.\<close>

record QueryLog =
  ql_entries :: "QueryEntry list"
  ql_head :: nat
  ql_count :: nat
  ql_max :: nat
  ql_file :: "QueryEntry list option"

definition zero_entry :: QueryEntry where
  "zero_entry = \<lparr>qe_Time = 0, qe_Domain = '''', qe_Type = '''', qe_Client = '''', qe_Status = '''',
     qe_Latency = 0\<rparr>"

text \<open>\<open>opens path\<close> tells whether the file could be opened; an error is logged and ignored.\<close>

definition newQueryLog :: "(string \<Rightarrow> bool) \<Rightarrow> nat \<Rightarrow> string \<Rightarrow> QueryLog" where
  "newQueryLog opens n filePath =
     \<lparr>ql_entries = replicate n zero_entry, ql_head = 0, ql_count = 0, ql_max = n,
      ql_file = (if filePath \<noteq> '''' \<and> opens filePath then Some [] else None)\<rparr>"

definition ql_Add :: "QueryEntry \<Rightarrow> QueryLog \<Rightarrow> QueryLog" where
  "ql_Add e l =
     l\<lparr>ql_entries := (ql_entries l)[ql_head l := e],
       ql_head := (ql_head l + 1) mod ql_max l,
       ql_count := (if ql_count l < ql_max l then ql_count l + 1 else ql_count l),
       ql_file := map_option (\<lambda>ls. ls @ [e]) (ql_file l)\<rparr>"

text \<open>\<open>None\<close> is the panic of \<open>make\<close> on a negative length.\<close>

definition Recent :: "int \<Rightarrow> QueryLog \<Rightarrow> QueryEntry list option" where
  "Recent n l =
     (let n = (if int (ql_count l) < n then int (ql_count l) else n)
      in if n < 0 then None
         else Some (map (\<lambda>i. ql_entries l !
           nat ((int (ql_head l) - n + int i + int (ql_max l)) mod int (ql_max l))) [0..<nat n]))"

definition ql_ok :: "QueryLog \<Rightarrow> bool" where
  "ql_ok l \<longleftrightarrow> 0 < ql_max l \<and> length (ql_entries l) = ql_max l \<and> ql_head l < ql_max l \<and> ql_count l \<le> ql_max l"

text \<open>The index of the \<open>i\<close>-th of the \<open>n\<close> newest entries of a ring of size \<open>m\<close> with head \<open>h\<close>.\<close>

definition ring_index :: "nat \<Rightarrow> nat \<Rightarrow> nat \<Rightarrow> nat \<Rightarrow> nat" where
  "ring_index m h n i = (h + (m - n) + i) mod m"

definition ring_view :: "'a list \<Rightarrow> nat \<Rightarrow> nat \<Rightarrow> 'a list" where
  "ring_view es h n = map (\<lambda>i. es ! ring_index (length es) h n i) [0..<n]"

lemma length_ring_view [simp]: "length (ring_view es h n) = n"
  by (simp add: ring_view_def)

lemma ring_index_less: "0 < m \<Longrightarrow> ring_index m h n i < m"
  by (simp add: ring_index_def)

lemma ring_index_int:
  assumes "0 \<le> n" "n \<le> int m"
  shows "nat ((int h - n + int i) mod int m) = ring_index m h (nat n) i"
proof -
  have "int h - n + int i + int m = int (h + (m - nat n) + i)" using assms by simp
  then have "(int h - n + int i) mod int m = int (h + (m - nat n) + i) mod int m"
    by (metis mod_add_self2)
  then show ?thesis by (simp only: zmod_int [symmetric] nat_int ring_index_def)
qed

lemma ring_index_head:
  assumes "n < m"
  shows "ring_index m ((h + 1) mod m) (Suc n) i = ring_index m h n i"
proof -
  obtain d where m: "m = Suc n + d" using assms less_imp_Suc_add by fastforce
  have "((h + 1) mod m + (d + i)) mod m = (h + 1 + (d + i)) mod m" by (rule mod_add_left_eq)
  then show ?thesis by (simp add: ring_index_def m ac_simps)
qed

lemma ring_index_neq:
  assumes "h < m" "n < m" "i < n"
  shows "ring_index m h n i \<noteq> h"
proof -
  define x where "x = (m - n) + i"
  have "0 < x" "x < m" using assms by (simp_all add: x_def)
  then have "(h + x) mod m \<noteq> h" using assms(1) by (auto simp: mod_if)
  then show ?thesis by (simp add: ring_index_def x_def add.assoc)
qed

lemma ring_index_newest: "h < m \<Longrightarrow> n < m \<Longrightarrow> ring_index m h n n = h"
  by (simp add: ring_index_def)

lemma ring_view_push_small:
  assumes "h < length es" "n < length es"
  shows "ring_view (es[h := e]) ((h + 1) mod length es) (Suc n) = ring_view es h n @ [e]"
proof -
  have "es[h := e] ! ring_index (length es) h n i = es ! ring_index (length es) h n i" if "i < n" for i
    using ring_index_neq [OF assms that] by simp
  with assms ring_index_head [OF assms(2), of h] show ?thesis
    by (simp add: ring_view_def ring_index_newest)
qed

lemma ring_view_newest:
  assumes "k \<le> n" "n \<le> length es"
  shows "ring_view es h k = newest k (ring_view es h n)"
proof -
  obtain d where n: "n = k + d" using assms(1) le_Suc_ex by blast
  obtain r where "length es = k + d + r" using assms(2) n le_Suc_ex by blast
  then have "ring_index (length es) h k i = ring_index (length es) h n (d + i)" for i
    by (simp add: ring_index_def n ac_simps)
  then show ?thesis
    by (auto simp: ring_view_def newest_def n drop_map drop_upt intro!: nth_equalityI)
qed

lemma ring_view_push:
  assumes "h < length es" "n \<le> length es"
  shows "ring_view (es[h := e]) ((h + 1) mod length es) (if n < length es then n + 1 else n) =
    newest (length es) (ring_view es h n @ [e])"
proof (cases "n < length es")
  case True
  with ring_view_push_small [OF assms(1) True] show ?thesis by (simp add: newest_def)
next
  case False
  define k where "k = length es - 1"
  have k: "k < length es" "n = Suc k" "length es = Suc k" using False assms by (auto simp: k_def)
  have "newest (length es) (ring_view es h n @ [e]) = newest k (ring_view es h n) @ [e]"
    using k by (simp add: newest_def)
  also have "\<dots> = ring_view es h k @ [e]" using k by (simp add: ring_view_newest [of k n])
  also have "\<dots> = ring_view (es[h := e]) ((h + 1) mod length es) n"
    using ring_view_push_small [OF assms(1) k(1)] k(2) by simp
  finally show ?thesis using False by simp
qed

definition ql_contents :: "QueryLog \<Rightarrow> QueryEntry list" where
  "ql_contents l = ring_view (ql_entries l) (ql_head l) (ql_count l)"

interpretation query_log: bounded_log ql_ok ql_Add ql_contents ql_max
proof
  fix s :: QueryLog and a
  assume ok: "ql_ok s"
  then show "ql_ok (ql_Add a s)" by (simp add: ql_ok_def ql_Add_def)
  show "ql_max (ql_Add a s) = ql_max s" by (simp add: ql_Add_def)
  show "ql_contents (ql_Add a s) = newest (ql_max s) (ql_contents s @ [a])"
    using ok ring_view_push [of "ql_head s" "ql_entries s" "ql_count s" a]
    by (simp add: ql_ok_def ql_contents_def ql_Add_def)
qed

lemma Recent_contents:
  assumes "ql_ok l" "0 \<le> n"
  shows "Recent n l = Some (newest (nat n) (ql_contents l))"
proof -
  define k where "k = (if int (ql_count l) < n then ql_count l else nat n)"
  have "nat (if int (ql_count l) < n then int (ql_count l) else n) = k"
    using assms(2) by (simp add: k_def)
  then have "Recent n l = Some (ring_view (ql_entries l) (ql_head l) k)"
    using assms by (auto simp: Recent_def Let_def ring_view_def ql_ok_def ring_index_int k_def not_less)
  also have "ring_view (ql_entries l) (ql_head l) k = newest k (ql_contents l)"
    unfolding ql_contents_def using assms by (intro ring_view_newest) (auto simp: k_def ql_ok_def)
  also have "\<dots> = newest (nat n) (ql_contents l)"
    using assms(2) by (auto simp: k_def newest_def ql_contents_def ring_view_def)
  finally show ?thesis .
qed

text \<open>
  The query log gives back the newest \<open>n\<close> of the queries that were logged, oldest first and
  at most as many as it holds, however often the ring has wrapped; the log file, when there is
  one, has all of them.
\<close>

theorem query_log_recent:
  assumes "0 < m" "0 \<le> n"
  shows "Recent n (fold ql_Add es (newQueryLog opens m path)) = Some (newest (min m (nat n)) es) \<and>
    (ql_file (fold ql_Add es (newQueryLog opens m path)) = None \<or>
     ql_file (fold ql_Add es (newQueryLog opens m path)) = Some es)"
proof -
  define l where "l = newQueryLog opens m path"
  have l: "ql_ok l" "ql_contents l = []" "ql_max l = m" "ql_file l \<in> {None, Some []}"
    using assms by (auto simp: l_def newQueryLog_def ql_ok_def ql_contents_def ring_view_def)
  have "ql_ok (fold ql_Add es l)" using query_log.pushes_ok [OF l(1)] by simp
  moreover have "ql_contents (fold ql_Add es l) = newest m es"
    using query_log.pushes_contents [OF l(1)] l by simp
  moreover have "ql_file (fold ql_Add es l') = map_option (\<lambda>ls. ls @ es) (ql_file l')" for l'
    by (induction es arbitrary: l') (simp_all add: ql_Add_def option.map_comp comp_def option.map_ident)
  ultimately show ?thesis
    using l assms by (auto simp: Recent_contents newest_newest simp flip: l_def)
qed

lemma query_log_recent_witness:
  "Recent 2 (fold ql_Add (map (\<lambda>t. zero_entry\<lparr>qe_Time := t\<rparr>) [1, 2, 3, 4]) (newQueryLog (\<lambda>p. True) 3 '''')) =
     Some (map (\<lambda>t. zero_entry\<lparr>qe_Time := t\<rparr>) [3, 4])"
  using query_log_recent [of 3 2 "map (\<lambda>t. zero_entry\<lparr>qe_Time := t\<rparr>) [1, 2, 3, 4]" "\<lambda>p. True" "''''"]
  by (simp add: newest_def)

subsection \<open>The history of the statistics\<close>

record HistoryBucket =
  hb_Queries :: u64
  hb_Hits :: u64
  hb_Blocked :: u64

record statsHistory =
  sh_buckets :: "HistoryBucket list"
  sh_head :: nat

definition historyWindow :: nat where
  "historyWindow = 300"

definition empty_history :: statsHistory where
  "empty_history =
     \<lparr>sh_buckets = replicate historyWindow \<lparr>hb_Queries = 0, hb_Hits = 0, hb_Blocked = 0\<rparr>, sh_head = 0\<rparr>"

definition sh_record :: "HistoryBucket \<Rightarrow> statsHistory \<Rightarrow> statsHistory" where
  "sh_record b h =
     h\<lparr>sh_buckets := (sh_buckets h)[sh_head h := b], sh_head := (sh_head h + 1) mod historyWindow\<rparr>"

definition snapshot :: "statsHistory \<Rightarrow> HistoryBucket list" where
  "snapshot h = map (\<lambda>i. sh_buckets h ! ((sh_head h + i) mod historyWindow)) [0..<historyWindow]"

definition sh_ok :: "statsHistory \<Rightarrow> bool" where
  "sh_ok h \<longleftrightarrow> length (sh_buckets h) = historyWindow \<and> sh_head h < historyWindow"

lemma snapshot_view: "sh_ok h \<Longrightarrow> snapshot h = ring_view (sh_buckets h) (sh_head h) historyWindow"
  by (simp add: snapshot_def ring_view_def ring_index_def sh_ok_def)

interpretation history: bounded_log sh_ok sh_record snapshot "\<lambda>h. historyWindow"
proof
  fix s :: statsHistory and a
  assume ok: "sh_ok s"
  then show ok': "sh_ok (sh_record a s)" by (simp add: sh_ok_def sh_record_def historyWindow_def)
  show "snapshot (sh_record a s) = newest historyWindow (snapshot s @ [a])"
    using ring_view_push [of "sh_head s" "sh_buckets s" historyWindow a] ok
    unfolding snapshot_view [OF ok] snapshot_view [OF ok'] by (simp add: sh_ok_def sh_record_def)
qed simp

end
