(* ===== verification/Updater.thy ===== *)
theory Updater
  imports NetIP
begin

text \<open>
  The release check of \<open>internal/updater/updater.go\<close>: the comparison of version strings, and
  \<open>Check\<close> with its cached result. The answer of the GitHub API is an argument: the tag and the
  URL of the latest release, or \<open>None\<close> for any error of \<open>fetchLatest\<close>.
\<close>

subsection \<open>Versions\<close>

text \<open>
  The value of \<open>strconv.Atoi\<close>, whose error the program ignores: 0 for a malformed number, the
  nearest \<open>int64\<close> for one that is out of range.
\<close>

fun parse_uint :: "nat \<Rightarrow> string \<Rightarrow> nat option" where
  "parse_uint acc [] = Some acc"
| "parse_uint acc (c # s) =
     (case digit_val c of
        None \<Rightarrow> None
      | Some d \<Rightarrow> if 2 ^ 64 \<le> acc * 10 + d then Some (2 ^ 64 - 1) else parse_uint (acc * 10 + d) s)"

definition atoi :: "string \<Rightarrow> int" where
  "atoi s =
     (let neg = (s \<noteq> [] \<and> hd s = CHR ''-'');
          ds = (if s \<noteq> [] \<and> (hd s = CHR ''-'' \<or> hd s = CHR ''+'') then tl s else s)
      in if ds = [] then 0
         else case parse_uint 0 ds of
             None \<Rightarrow> 0
           | Some n \<Rightarrow> if neg then - int (min n (2 ^ 63)) else int (min n (2 ^ 63 - 1)))"

definition parseSemver :: "string \<Rightarrow> int list" where
  "parseSemver v = map atoi (split_on CHR ''.'' v)"

text \<open>The loop of \<open>isNewer\<close> up to the longer length; a missing part counts as 0.\<close>

fun newer_parts :: "int list \<Rightarrow> int list \<Rightarrow> bool" where
  "newer_parts [] [] = False"
| "newer_parts (l # lv) [] = (if 0 < l then True else if l < 0 then False else newer_parts lv [])"
| "newer_parts [] (c # cv) = (if c < 0 then True else if 0 < c then False else newer_parts [] cv)"
| "newer_parts (l # lv) (c # cv) =
     (if c < l then True else if l < c then False else newer_parts lv cv)"

definition isNewer :: "string \<Rightarrow> string \<Rightarrow> bool" where
  "isNewer latest current =
     newer_parts (parseSemver (trim_prefix latest ''v'')) (parseSemver (trim_prefix current ''v''))"

subsection \<open>The check\<close>

record update_result =
  ur_Available :: bool
  ur_Version :: string
  ur_URL :: string

record update_cache =
  uc_cached :: "update_result option"
  uc_cachedAt :: int

definition cacheTTL :: int where
  "cacheTTL = 3600 * second"

text \<open>
  \<open>t1\<close> is the clock at the look-up and \<open>t2\<close> when the new result is stored. The last component
  says whether the network was asked.
\<close>

definition Check ::
  "int \<Rightarrow> int \<Rightarrow> (string \<times> string) option \<Rightarrow> string \<Rightarrow> update_cache \<Rightarrow>
   update_result option \<times> update_cache \<times> bool" where
  "Check t1 t2 release currentVersion uc =
     (case (if time_sub t1 (uc_cachedAt uc) < cacheTTL then uc_cached uc else None) of
        Some r \<Rightarrow> (Some r, uc, False)
      | None \<Rightarrow>
          (case release of
             None \<Rightarrow> (None, uc, True)
           | Some (tagName, htmlURL) \<Rightarrow>
               let r = \<lparr>ur_Available = isNewer tagName currentVersion,
                        ur_Version = trim_prefix tagName ''v'', ur_URL = htmlURL\<rparr>
               in (Some r, \<lparr>uc_cached = Some r, uc_cachedAt = t2\<rparr>, True)))"

subsection \<open>Version order\<close>

text \<open>Part \<open>i\<close> of a version, 0 behind its end.\<close>

definition part :: "int list \<Rightarrow> nat \<Rightarrow> int" where
  "part v i = (if i < length v then v ! i else 0)"

lemma part_simps [simp]:
  "part [] i = 0" "part (x # v) 0 = x" "part (x # v) (Suc i) = part v i"
  by (simp_all add: part_def)

text \<open>The specification: at the first part where they differ, the newer one is larger.\<close>

definition exceeds :: "(nat \<Rightarrow> int) \<Rightarrow> (nat \<Rightarrow> int) \<Rightarrow> bool" where
  "exceeds f g \<longleftrightarrow> (\<exists>i. g i < f i \<and> (\<forall>j < i. f j = g j))"

lemma exceeds_step:
  "exceeds f g \<longleftrightarrow> g 0 < f 0 \<or> (f 0 = g 0 \<and> exceeds (\<lambda>i. f (Suc i)) (\<lambda>i. g (Suc i)))"
proof -
  have "exceeds f g \<longleftrightarrow> (\<exists>i. g i < f i \<and> (\<forall>j < i. f j = g j))" by (simp add: exceeds_def)
  also have "\<dots> \<longleftrightarrow> g 0 < f 0 \<or> (\<exists>i. g (Suc i) < f (Suc i) \<and> (\<forall>j < Suc i. f j = g j))"
    by (metis less_nat_zero_code not0_implies_Suc)
  also have "\<dots> \<longleftrightarrow> g 0 < f 0 \<or> (f 0 = g 0 \<and> exceeds (\<lambda>i. f (Suc i)) (\<lambda>i. g (Suc i)))"
    by (auto simp: exceeds_def less_Suc_eq_0_disj)
  finally show ?thesis .
qed

lemma newer_parts_exceeds: "newer_parts lv cv \<longleftrightarrow> exceeds (part lv) (part cv)"
proof (induction lv cv rule: newer_parts.induct)
  case 1
  then show ?case by (simp add: exceeds_def)
next
  case (2 l lv)
  then show ?case by (subst exceeds_step) auto
next
  case (3 c cv)
  then show ?case by (subst exceeds_step) auto
next
  case (4 l lv c cv)
  then show ?case by (subst exceeds_step) auto
qed

lemma exceeds_asym: "exceeds f g \<Longrightarrow> \<not> exceeds g f"
  unfolding exceeds_def by (metis less_asym linorder_cases order.irrefl)

lemma exceeds_trans: "exceeds f g \<Longrightarrow> exceeds g h \<Longrightarrow> exceeds f h"
proof -
  assume "exceeds f g" "exceeds g h"
  then obtain i j where ij: "g i < f i" "\<forall>k < i. f k = g k" "h j < g j" "\<forall>k < j. g k = h k"
    unfolding exceeds_def by blast
  have "h (min i j) < f (min i j)"
    using ij by (cases i j rule: linorder_cases) (auto simp: min_def)
  moreover have "\<forall>k < min i j. f k = h k" using ij by simp
  ultimately show ?thesis unfolding exceeds_def by blast
qed

text \<open>
  \<open>isNewer\<close> is a strict order on versions. No version is newer than itself, two versions
  are not each newer than the other, and the relation is transitive, so the program never
  offers an upgrade back and forth.
\<close>

theorem isNewer_strict_order:
  "\<not> isNewer a a \<and> \<not> (isNewer a b \<and> isNewer b a) \<and> (isNewer a b \<and> isNewer b c \<longrightarrow> isNewer a c)"
  unfolding isNewer_def newer_parts_exceeds
  by (blast dest: exceeds_asym exceeds_trans)

lemma isNewer_strict_order_witness: "isNewer ''v1.10.1'' ''1.9''"
proof -
  have "isNewer ''v1.10.1'' ''v1.10'' \<and> isNewer ''v1.10'' ''1.9''"
    by (simp add: isNewer_def parseSemver_def atoi_def Let_def trim_prefix_def has_prefix_def digit_val_def)
  with isNewer_strict_order [of "''v1.10.1''" "''v1.10''" "''1.9''"] show ?thesis by blast
qed

text \<open>
  Once a check has succeeded, the network is not asked again for an hour, and every check
  in that hour returns the same result.
\<close>

theorem Check_cached:
  assumes "Check t1 t2 (Some release) v uc = (Some r, uc', True)"
    and "0 \<le> t3 - t2" "t3 - t2 < cacheTTL"
  shows "Check t3 t4 release' v' uc' = (Some r, uc', False)"
proof -
  have "uc' = \<lparr>uc_cached = Some r, uc_cachedAt = t2\<rparr>"
    using assms(1) by (auto simp: Check_def Let_def split: option.splits if_splits prod.splits)
  moreover have "time_sub t3 t2 < cacheTTL"
    using assms(2,3) by (simp add: time_sub_def)
  ultimately show ?thesis by (simp add: Check_def)
qed

lemma Check_cached_witness:
  "\<exists>r. Check (2 * second) 0 None ''1.0''
     (fst (snd (Check 0 second (Some (''v1.2'', ''u'')) ''1.0'' \<lparr>uc_cached = None, uc_cachedAt = 0\<rparr>))) =
     (Some r, \<lparr>uc_cached = Some r, uc_cachedAt = second\<rparr>, False)"
proof -
  define r where "r = \<lparr>ur_Available = isNewer ''v1.2'' ''1.0'', ur_Version = trim_prefix ''v1.2'' ''v'', ur_URL = ''u''\<rparr>"
  have 1: "Check 0 second (Some (''v1.2'', ''u'')) ''1.0'' \<lparr>uc_cached = None, uc_cachedAt = 0\<rparr> =
      (Some r, \<lparr>uc_cached = Some r, uc_cachedAt = second\<rparr>, True)"
    by (simp add: Check_def r_def Let_def)
  have "Check (2 * second) 0 None ''1.0'' \<lparr>uc_cached = Some r, uc_cachedAt = second\<rparr> =
      (Some r, \<lparr>uc_cached = Some r, uc_cachedAt = second\<rparr>, False)"
    by (rule Check_cached [OF 1]) (simp_all add: second_def cacheTTL_def)
  with 1 show ?thesis by auto
qed

end
