(* ===== verification/ConnPool.thy ===== *)
theory ConnPool
  imports Prelude "HOL-Library.Multiset"
begin

text \<open>
  The pools of upstream connections of \<open>internal/server/connpool.go\<close>. A connection is a number;
  what goes over it is not part of this theory. \<open>get\<close> takes the newest idle connection of a
  server or dials, \<open>put\<close> returns a connection or closes it, and \<open>reapIdle\<close> closes what has been
  idle for too long. The step relation \<open>pool_step\<close> adds the callers, who return only what they
  hold; the invariant over its reachable states says that a connection is in one place only.
\<close>

subsection \<open>Definitions\<close>

definition poolNumShards :: nat where
  "poolNumShards = 16"

definition poolIdleTimeout :: int where
  "poolIdleTimeout = 60 * second"

record pooledConn =
  pc_conn :: nat
  pc_nextID :: u16
  pc_lastUsed :: int

type_synonym poolShard = "(string \<times> pooledConn list) list"

record connPool =
  cp_network :: string
  cp_maxPerServer :: int
  cp_shards :: "poolShard list"

definition newConnPool :: "string \<Rightarrow> int \<Rightarrow> connPool" where
  "newConnPool network n =
     \<lparr>cp_network = network, cp_maxPerServer = n, cp_shards = replicate poolNumShards []\<rparr>"

definition poolShardIdx :: "string \<Rightarrow> u32" where
  "poolShardIdx server = foldl fnv_byte 2166136261 (bytes_of server) AND 15"

definition shard_of :: "string \<Rightarrow> nat" where
  "shard_of server = unat (poolShardIdx server)"

text \<open>\<open>s.conns[server]\<close>: a missing key reads as the empty slice.\<close>

definition conns :: "connPool \<Rightarrow> string \<Rightarrow> pooledConn list" where
  "conns p server =
     (case map_of (cp_shards p ! shard_of server) server of Some l \<Rightarrow> l | None \<Rightarrow> [])"

definition set_conns :: "string \<Rightarrow> pooledConn list \<Rightarrow> connPool \<Rightarrow> connPool" where
  "set_conns server l p =
     p\<lparr>cp_shards := (cp_shards p)[shard_of server :=
         AList.update server l (cp_shards p ! shard_of server)]\<rparr>"

text \<open>
  \<open>get\<close>: \<open>dial server\<close> is the connection that dialling gives, or \<open>None\<close>, and \<open>rnd\<close> the random
  first query ID. The result is \<open>None\<close> on a dial error.
\<close>

definition pool_get ::
  "(string \<Rightarrow> nat option) \<Rightarrow> u16 \<Rightarrow> string \<Rightarrow> connPool \<Rightarrow> pooledConn option \<times> connPool" where
  "pool_get dial rnd server p =
     (let l = conns p server
      in if l \<noteq> [] then (Some (last l), set_conns server (butlast l) p)
         else case dial server of
             None \<Rightarrow> (None, p)
           | Some c \<Rightarrow> (Some \<lparr>pc_conn = c, pc_nextID = rnd, pc_lastUsed = 0\<rparr>, p))"

text \<open>\<open>put\<close>: the new pool, and the connections that were closed.\<close>

definition pool_put :: "int \<Rightarrow> string \<Rightarrow> pooledConn \<Rightarrow> bool \<Rightarrow> connPool \<Rightarrow> connPool \<times> nat list" where
  "pool_put now server pc failed p =
     (if failed then (p, [pc_conn pc])
      else let pc = pc\<lparr>pc_lastUsed := now\<rparr>; l = conns p server
           in if int (length l) < cp_maxPerServer p then (set_conns server (l @ [pc]) p, [])
              else (p, [pc_conn pc]))"

definition stale :: "int \<Rightarrow> int \<Rightarrow> pooledConn \<Rightarrow> bool" where
  "stale now maxIdle pc \<longleftrightarrow> maxIdle \<le> time_sub now (pc_lastUsed pc)"

definition reap_shard :: "int \<Rightarrow> int \<Rightarrow> poolShard \<Rightarrow> poolShard" where
  "reap_shard now maxIdle s =
     filter (\<lambda>(server, l). l \<noteq> []) (map (\<lambda>(server, l). (server, filter (\<lambda>pc. \<not> stale now maxIdle pc) l)) s)"

definition pooled :: "connPool \<Rightarrow> pooledConn list" where
  "pooled p = concat (map (\<lambda>s. concat (map snd s)) (cp_shards p))"

text \<open>The source returns the number of closed connections, the length of this list.\<close>

definition reapIdle :: "int \<Rightarrow> int \<Rightarrow> connPool \<Rightarrow> connPool \<times> nat list" where
  "reapIdle now maxIdle p =
     (p\<lparr>cp_shards := map (reap_shard now maxIdle) (cp_shards p)\<rparr>,
      map pc_conn (filter (stale now maxIdle) (pooled p)))"

subsection \<open>The pool as a multiset of connections\<close>

definition pool_wf :: "connPool \<Rightarrow> bool" where
  "pool_wf p \<longleftrightarrow>
     length (cp_shards p) = poolNumShards \<and>
     list_all (\<lambda>s. distinct (map fst s) \<and> list_all (\<lambda>(server, l). int (length l) \<le> cp_maxPerServer p) s)
       (cp_shards p)"

lemma shard_of_less: "shard_of server < 16"
  using unat_and_mask_less [of _ 4] by (simp add: shard_of_def poolShardIdx_def mask_eq_exp_minus_1)

lemma pool_wf_shard:
  "pool_wf p \<Longrightarrow> distinct (map fst (cp_shards p ! shard_of server)) \<and>
     list_all (\<lambda>(server, l). int (length l) \<le> cp_maxPerServer p) (cp_shards p ! shard_of server)"
  using shard_of_less [of server] by (simp add: pool_wf_def poolNumShards_def list_all_length)

lemma conns_bounded: "pool_wf p \<Longrightarrow> 0 \<le> cp_maxPerServer p \<Longrightarrow> int (length (conns p server)) \<le> cp_maxPerServer p"
  using pool_wf_shard [of p server]
  by (auto simp: conns_def list_all_iff split: option.split dest!: map_of_SomeD)

lemma mset_concat_update:
  "distinct (map fst m) \<Longrightarrow>
   mset (concat (map snd (AList.update k l m))) + mset (case map_of m k of Some l' \<Rightarrow> l' | None \<Rightarrow> []) =
     mset (concat (map snd m)) + mset l"
proof (induction m)
  case (Cons x m)
  obtain k' l' where x: "x = (k', l')" by (cases x)
  show ?case
  proof (cases "k' = k")
    case True
    then show ?thesis by (simp add: x)
  next
    case False
    with Cons show ?thesis by (simp add: x)
  qed
qed simp

lemma mset_concat_list_update:
  "i < length ss \<Longrightarrow>
   mset (concat (map f (ss[i := s]))) + mset (f (ss ! i)) = mset (concat (map f ss)) + mset (f s)"
proof (induction ss arbitrary: i)
  case (Cons x ss)
  then show ?case by (cases i) (auto simp: ac_simps)
qed simp

lemma mset_cancel: "a + s = p + u \<Longrightarrow> u + c = s + l \<Longrightarrow> a + c = p + (l :: 'a multiset)"
proof -
  assume 1: "a + s = p + u" and 2: "u + c = s + l"
  have "a + c + s = p + u + c" unfolding 1 [symmetric] by (simp only: ac_simps)
  also have "\<dots> = p + l + s" unfolding add.assoc [of p u c] 2 by (simp only: ac_simps)
  finally show ?thesis by simp
qed

lemma list_all_list_update: "list_all P xs \<Longrightarrow> P x \<Longrightarrow> list_all P (xs[i := x])"
  by (auto simp: list_all_iff dest!: set_update_subset_insert [THEN subsetD])

lemma pooled_set_conns:
  assumes "pool_wf p"
  shows "mset (pooled (set_conns server l p)) + mset (conns p server) = mset (pooled p) + mset l"
proof -
  define i where "i = shard_of server"
  define s where "s = cp_shards p ! i"
  have i: "i < length (cp_shards p)"
    using assms shard_of_less [of server] by (simp add: pool_wf_def poolNumShards_def i_def)
  have "mset (pooled (set_conns server l p)) + mset (concat (map snd s)) =
      mset (pooled p) + mset (concat (map snd (AList.update server l s)))"
    using mset_concat_list_update [OF i, of "\<lambda>s. concat (map snd s)" "AList.update server l s"]
    by (simp add: pooled_def set_conns_def s_def i_def)
  moreover have "mset (concat (map snd (AList.update server l s))) + mset (conns p server) =
      mset (concat (map snd s)) + mset l"
    using mset_concat_update [of s server l] pool_wf_shard [OF assms, of server]
    by (simp add: conns_def s_def i_def)
  ultimately show ?thesis by (rule mset_cancel)
qed

lemma set_conns_wf:
  assumes "pool_wf p" "int (length l) \<le> cp_maxPerServer p"
  shows "pool_wf (set_conns server l p)"
proof -
  have bounded: "list_all (\<lambda>(server, l). int (length l) \<le> n) m \<Longrightarrow> int (length l) \<le> n \<Longrightarrow>
      list_all (\<lambda>(server, l). int (length l) \<le> n) (AList.update server l m)" for m n
    by (induction m) auto
  show ?thesis
    using assms pool_wf_shard [OF assms(1), of server] bounded [of "cp_maxPerServer p"]
    by (simp add: pool_wf_def set_conns_def distinct_update list_all_list_update)
qed

subsection \<open>Each operation keeps every connection in one place\<close>

lemma pool_get_conns:
  assumes "pool_wf p" "0 \<le> cp_maxPerServer p" "pool_get dial rnd server p = (Some pc, p')"
  shows "pool_wf p' \<and>
    (conns p server \<noteq> [] \<and> mset (pooled p) = add_mset pc (mset (pooled p')) \<or>
     conns p server = [] \<and> dial server = Some (pc_conn pc) \<and> p' = p)"
proof (cases "conns p server = []")
  case True
  with assms show ?thesis by (auto simp: pool_get_def split: option.splits)
next
  case False
  then have p': "p' = set_conns server (butlast (conns p server)) p" "pc = last (conns p server)"
    using assms(3) by (simp_all add: pool_get_def Let_def)
  have "conns p server = butlast (conns p server) @ [pc]" using False p'(2) by simp
  then have "mset (conns p server) = add_mset pc (mset (butlast (conns p server)))"
    by (metis mset_append mset.simps add_mset_add_single)
  with pooled_set_conns [OF assms(1), of server "butlast (conns p server)"] p'(1)
  have "mset (pooled p) = add_mset pc (mset (pooled p'))" by simp
  moreover have "pool_wf p'"
    using conns_bounded [OF assms(1,2), of server] by (simp add: p'(1) set_conns_wf assms(1))
  ultimately show ?thesis using False by simp
qed

lemma pool_put_conns:
  assumes "pool_wf p" "pool_put now server pc failed p = (p', cl)"
  shows "pool_wf p' \<and> cp_maxPerServer p' = cp_maxPerServer p \<and>
    mset (map pc_conn (pooled p')) + mset cl = add_mset (pc_conn pc) (mset (map pc_conn (pooled p)))"
proof -
  define l where "l = conns p server"
  define pc' where "pc' = pc\<lparr>pc_lastUsed := now\<rparr>"
  have "image_mset pc_conn (mset (pooled (set_conns server (l @ [pc']) p))) =
      add_mset (pc_conn pc) (image_mset pc_conn (mset (pooled p)))"
    using pooled_set_conns [OF assms(1), of server "l @ [pc']"] by (simp add: l_def pc'_def)
  with assms set_conns_wf [OF assms(1), of "l @ [pc']" server] show ?thesis
    by (auto simp: pool_put_def Let_def set_conns_def l_def pc'_def split: if_splits)
qed

lemma pooled_reap:
  "pooled (p\<lparr>cp_shards := map (reap_shard now maxIdle) (cp_shards p)\<rparr>) =
     filter (\<lambda>pc. \<not> stale now maxIdle pc) (pooled p)"
proof -
  have "concat (map snd (reap_shard now maxIdle s)) =
      filter (\<lambda>pc. \<not> stale now maxIdle pc) (concat (map snd s))" for s
    by (induction s) (auto simp: reap_shard_def)
  then have "concat (map (\<lambda>s. concat (map snd (reap_shard now maxIdle s))) ss) =
      filter (\<lambda>pc. \<not> stale now maxIdle pc) (concat (map (\<lambda>s. concat (map snd s)) ss))" for ss
    by (induction ss) simp_all
  then show ?thesis by (simp add: pooled_def comp_def)
qed

lemma reap_shard_wf:
  assumes "distinct (map fst s)" "list_all (\<lambda>(server, l). int (length l) \<le> n) s"
  shows "distinct (map fst (reap_shard now maxIdle s)) \<and>
    list_all (\<lambda>(server, l). int (length l) \<le> n) (reap_shard now maxIdle s)"
proof -
  have "map fst (map (\<lambda>(server, l). (server, filter (\<lambda>pc. \<not> stale now maxIdle pc) l)) s) = map fst s"
    by (induction s) auto
  then have "distinct (map fst (reap_shard now maxIdle s))"
    unfolding reap_shard_def using assms(1) by (intro distinct_map_filter) (simp del: map_map)
  moreover have "int (length (filter P l)) \<le> n" if "int (length l) \<le> n" for P and l :: "pooledConn list"
    using that length_filter_le [of P l] by linarith
  ultimately show ?thesis
    using assms(2) by (fastforce simp: reap_shard_def list_all_iff)
qed

lemma list_all_map_imp: "list_all P xs \<Longrightarrow> (\<And>x. P x \<Longrightarrow> Q (f x)) \<Longrightarrow> list_all Q (map f xs)"
  by (induction xs) auto

lemma reapIdle_conns:
  assumes "pool_wf p" "reapIdle now maxIdle p = (p', cl)"
  shows "pool_wf p' \<and> cp_maxPerServer p' = cp_maxPerServer p \<and>
    mset (map pc_conn (pooled p')) + mset cl = mset (map pc_conn (pooled p))"
proof -
  from assms(2) have p': "p' = p\<lparr>cp_shards := map (reap_shard now maxIdle) (cp_shards p)\<rparr>"
    and cl: "cl = map pc_conn (filter (stale now maxIdle) (pooled p))"
    by (simp_all add: reapIdle_def)
  have "mset (filter (\<lambda>pc. \<not> P pc) xs) + mset (filter P xs) = mset xs" for P and xs :: "pooledConn list"
    by (induction xs) auto
  then have "image_mset pc_conn (mset (filter (\<lambda>pc. \<not> stale now maxIdle pc) (pooled p))) +
      image_mset pc_conn (mset (filter (stale now maxIdle) (pooled p))) = image_mset pc_conn (mset (pooled p))"
    by (metis image_mset_union)
  then have "mset (map pc_conn (pooled p')) + mset cl = mset (map pc_conn (pooled p))"
    unfolding p' cl pooled_reap by simp
  moreover have "pool_wf p'"
    using assms(1) unfolding pool_wf_def p'
    by (simp, elim conjE) (erule list_all_map_imp, use reap_shard_wf in blast)
  ultimately show ?thesis by (simp add: p')
qed

subsection \<open>The pool and its callers\<close>

text \<open>The connections in use, with the server they were taken for, and those that are closed.\<close>

record pool_world =
  pw_pool :: connPool
  pw_out :: "(nat \<times> string) list"
  pw_closed :: "nat list"

definition known :: "pool_world \<Rightarrow> nat multiset" where
  "known w = mset (map pc_conn (pooled (pw_pool w))) + mset (map fst (pw_out w)) + mset (pw_closed w)"

text \<open>
  A dialled connection is one that has not existed before. A caller returns a connection it has
  taken, for the same server, once; it may have advanced the query ID.
\<close>

inductive pool_step :: "pool_world \<Rightarrow> pool_world \<Rightarrow> bool" where
  step_get: "pool_get dial rnd server (pw_pool w) = (Some pc, p) \<Longrightarrow>
    (conns (pw_pool w) server = [] \<Longrightarrow> pc_conn pc \<notin># known w) \<Longrightarrow>
    pool_step w (w\<lparr>pw_pool := p, pw_out := (pc_conn pc, server) # pw_out w\<rparr>)"
| step_put: "(pc_conn pc, server) \<in> set (pw_out w) \<Longrightarrow>
    pool_put now server pc failed (pw_pool w) = (p, cl) \<Longrightarrow>
    pool_step w \<lparr>pw_pool = p, pw_out = remove1 (pc_conn pc, server) (pw_out w),
                 pw_closed = cl @ pw_closed w\<rparr>"
| step_reap: "reapIdle now maxIdle (pw_pool w) = (p, cl) \<Longrightarrow>
    pool_step w (w\<lparr>pw_pool := p, pw_closed := cl @ pw_closed w\<rparr>)"

inductive pool_reachable :: "string \<Rightarrow> int \<Rightarrow> pool_world \<Rightarrow> bool" for network n where
  reach_new: "pool_reachable network n \<lparr>pw_pool = newConnPool network n, pw_out = [], pw_closed = []\<rparr>"
| reach_step: "pool_reachable network n w \<Longrightarrow> pool_step w w' \<Longrightarrow> pool_reachable network n w'"

definition pool_inv :: "int \<Rightarrow> pool_world \<Rightarrow> bool" where
  "pool_inv n w \<longleftrightarrow> pool_wf (pw_pool w) \<and> cp_maxPerServer (pw_pool w) = n \<and> (\<forall>c. count (known w) c \<le> 1)"

lemma pool_get_max: "pool_get dial rnd server p = (r, p') \<Longrightarrow> cp_maxPerServer p' = cp_maxPerServer p"
  by (auto simp: pool_get_def Let_def set_conns_def split: if_splits option.splits)

lemma pool_step_inv:
  assumes "pool_step w w'" "pool_inv n w" "0 \<le> n"
  shows "pool_inv n w'"
  using assms(1)
proof (cases rule: pool_step.cases)
  case (step_get dial rnd server pc p)
  have wf: "pool_wf (pw_pool w)" "0 \<le> cp_maxPerServer (pw_pool w)" using assms(2,3) by (auto simp: pool_inv_def)
  note g = pool_get_conns [OF wf step_get(2)]
  have max: "cp_maxPerServer p = n" using pool_get_max [OF step_get(2)] assms(2) by (simp add: pool_inv_def)
  have "count (known w') c \<le> 1" for c
  proof (cases "conns (pw_pool w) server = []")
    case True
    with g have "p = pw_pool w" by auto
    then have "known w' = add_mset (pc_conn pc) (known w)" by (simp add: known_def step_get(1))
    moreover have "count (known w) (pc_conn pc) = 0" using step_get(3) True by (simp add: not_in_iff)
    ultimately show ?thesis using assms(2) by (auto simp: pool_inv_def)
  next
    case False
    with g have "mset (pooled (pw_pool w)) = add_mset pc (mset (pooled p))" by auto
    then have "known w' = known w" by (simp add: known_def step_get(1))
    then show ?thesis using assms(2) by (simp add: pool_inv_def)
  qed
  with g max show ?thesis by (simp add: pool_inv_def step_get(1))
next
  case (step_put pc server now failed p cl)
  have wf: "pool_wf (pw_pool w)" using assms(2) by (simp add: pool_inv_def)
  note g = pool_put_conns [OF wf step_put(3)]
  have "mset (pw_out w) = add_mset (pc_conn pc, server) (mset (remove1 (pc_conn pc, server) (pw_out w)))"
    using step_put(2) by simp
  then have "image_mset fst (mset (pw_out w)) =
      add_mset (pc_conn pc) (image_mset fst (mset (remove1 (pc_conn pc, server) (pw_out w))))"
    by (metis fst_conv image_mset_add_mset)
  then have "known w' = known w"
    using g by (simp add: known_def step_put(1))
  with g assms(2) show ?thesis by (simp add: pool_inv_def step_put(1))
next
  case (step_reap now maxIdle p cl)
  have wf: "pool_wf (pw_pool w)" using assms(2) by (simp add: pool_inv_def)
  note g = reapIdle_conns [OF wf step_reap(2)]
  then have "known w' = known w" by (simp add: known_def step_reap(1))
  with g assms(2) show ?thesis by (simp add: pool_inv_def step_reap(1))
qed

lemma new_pool_inv:
  "pool_inv n \<lparr>pw_pool = newConnPool network n, pw_out = [], pw_closed = []\<rparr>"
  by (simp add: pool_inv_def pool_wf_def newConnPool_def known_def pooled_def list_all_iff)

lemma reachable_inv: "pool_reachable network n w \<Longrightarrow> 0 \<le> n \<Longrightarrow> pool_inv n w"
  by (induction rule: pool_reachable.induct) (auto intro: new_pool_inv pool_step_inv)

text \<open>A caller takes a dialled connection and returns it; the janitor then closes it.\<close>

definition one_idle :: pool_world where
  "one_idle = \<lparr>pw_pool = fst (pool_put 5 ''a:53'' \<lparr>pc_conn = 7, pc_nextID = 1, pc_lastUsed = 0\<rparr> False
      (newConnPool ''udp'' 16)), pw_out = [], pw_closed = []\<rparr>"

lemma one_idle_reachable: "pool_reachable ''udp'' 16 one_idle"
proof -
  define w0 where "w0 = \<lparr>pw_pool = newConnPool ''udp'' 16, pw_out = [], pw_closed = []\<rparr>"
  define pc where "pc = \<lparr>pc_conn = 7, pc_nextID = 1, pc_lastUsed = 0\<rparr>"
  have none: "conns (newConnPool ''udp'' 16) ''a:53'' = []"
    using shard_of_less [of "''a:53''"] by (simp add: conns_def newConnPool_def poolNumShards_def)
  have empty: "pooled (newConnPool ''udp'' 16) = []" by (simp add: pooled_def newConnPool_def)
  have "pool_reachable ''udp'' 16 w0" unfolding w0_def by (rule reach_new)
  moreover have "pool_step w0 (w0\<lparr>pw_pool := pw_pool w0, pw_out := (pc_conn pc, ''a:53'') # pw_out w0\<rparr>)"
    by (rule step_get [where dial = "\<lambda>s. Some 7" and rnd = 1])
      (simp_all add: w0_def pc_def pool_get_def Let_def none known_def empty)
  moreover have "pool_step (w0\<lparr>pw_out := (pc_conn pc, ''a:53'') # pw_out w0\<rparr>) one_idle"
    using step_put [of pc "''a:53''" "w0\<lparr>pw_out := (pc_conn pc, ''a:53'') # pw_out w0\<rparr>" 5 False
        "pw_pool one_idle" "[]"]
    by (simp add: w0_def pc_def one_idle_def pool_put_def none Let_def) (simp add: newConnPool_def)
  ultimately show ?thesis by (auto intro: reach_step)
qed

text \<open>
  C7: under any interleaving of callers and janitor, a connection is never in two places: the
  idle connections, those that callers hold and the closed ones are all different, so no two
  queries share a connection and no closed one is handed out; and no server keeps more idle
  connections than the limit.
\<close>

theorem pool_exclusive:
  assumes "pool_reachable network n w" "0 \<le> n"
  shows "distinct (map pc_conn (pooled (pw_pool w)) @ map fst (pw_out w) @ pw_closed w) \<and>
    int (length (conns (pw_pool w) server)) \<le> n"
proof -
  from reachable_inv [OF assms] have inv: "pool_wf (pw_pool w)" "cp_maxPerServer (pw_pool w) = n"
    "\<And>c. count (known w) c \<le> 1" by (simp_all add: pool_inv_def)
  define xs where "xs = map pc_conn (pooled (pw_pool w)) @ map fst (pw_out w) @ pw_closed w"
  have "mset xs = known w" by (simp add: xs_def known_def ac_simps)
  with inv(3) have "count (mset xs) c \<le> 1" for c by simp
  then have "count (mset xs) c = (if c \<in> set xs then 1 else 0)" for c
    using count_greater_zero_iff [of "mset xs" c] count_mset_0_iff [of xs c] by (auto simp: le_Suc_eq)
  then have "distinct xs" by (simp add: distinct_count_atmost_1)
  then show ?thesis using conns_bounded [OF inv(1), of server] inv(2) assms(2) by (simp add: xs_def)
qed

lemma pool_exclusive_witness:
  "distinct (map pc_conn (pooled (pw_pool one_idle)) @ map fst (pw_out one_idle) @ pw_closed one_idle) \<and>
   int (length (conns (pw_pool one_idle) ''a:53'')) \<le> 16"
  using pool_exclusive [OF one_idle_reachable] by simp

end
