(* ===== verification/Outbound.thy ===== *)
theory Outbound
  imports Updater Config ConnPool
begin

text \<open>
  Two calls that open connections of their own: \<open>fetchLatest\<close> of \<open>internal/updater/updater.go\<close>, whose
  outcome \<open>Check\<close> takes as an argument, and \<open>dialTLS\<close> of \<open>internal/server/connpool.go\<close>, with which
  the pool for DNS over TLS dials.
\<close>

subsection \<open>The latest release\<close>

text \<open>What the API does: no reply, or a status and the two members of the body, if it decodes.\<close>

datatype release_reply = NoReply string | Replied int "string + string \<times> string"

definition fetchLatest :: "release_reply \<Rightarrow> string + string \<times> string" where
  "fetchLatest reply =
     (case reply of
        NoReply e \<Rightarrow> Inl e
      | Replied status body \<Rightarrow>
          if status \<noteq> 200 then Inl (''github API: status '' @ int_string status)
          else (case body of
                  Inl e \<Rightarrow> Inl (''github API: decode: '' @ e)
                | Inr (tag, url) \<Rightarrow>
                    if tag = '''' then Inl ''github API: empty tag_name'' else Inr (tag, url)))"

text \<open>The outcome as \<open>Check\<close> takes it.\<close>

definition release_of :: "release_reply \<Rightarrow> (string \<times> string) option" where
  "release_of reply = (case fetchLatest reply of Inl _ \<Rightarrow> None | Inr r \<Rightarrow> Some r)"

lemma fetchLatest_ok: "fetchLatest reply = Inr (tag, url) \<longleftrightarrow> reply = Replied 200 (Inr (tag, url)) \<and> tag \<noteq> ''''"
  by (auto simp: fetchLatest_def split: release_reply.splits sum.splits if_splits prod.splits)

text \<open>
  A failed request is not remembered: the cache keeps what it holds, and the next check asks again.
\<close>

lemma failed_fetch_asks_again:
  assumes "fetchLatest reply = Inl e" "Check t1 t2 (release_of reply) v uc = (None, uc', asked)"
  shows "uc' = uc \<and> asked \<and> Check t1 t3 r v uc' = Check t1 t3 r v uc"
  using assms by (auto simp: Check_def release_of_def split: if_splits option.splits)

subsection \<open>TLS\<close>

text \<open>
  \<open>split_host\<close> is the host that \<open>net.SplitHostPort\<close> finds, \<open>dial\<close> the TCP connection or an error,
  and \<open>handshake\<close> the error of a handshake for a server name. The result comes with the connections
  that were closed; a connection is returned without a deadline.
\<close>

definition dialTLS :: "(string \<Rightarrow> string option) \<Rightarrow> (string \<Rightarrow> string + 'c) \<Rightarrow> ('c \<Rightarrow> string \<Rightarrow> string option) \<Rightarrow>
    string \<Rightarrow> (string + 'c) \<times> 'c list" where
  "dialTLS split_host dial handshake addr =
     (let host = (case split_host addr of None \<Rightarrow> addr | Some h \<Rightarrow> h)
      in case dial addr of
           Inl e \<Rightarrow> (Inl e, [])
         | Inr c \<Rightarrow> (case handshake c host of Some e \<Rightarrow> (Inl e, [c]) | None \<Rightarrow> (Inr c, [])))"

text \<open>A connection that was opened is returned or closed, and it is returned only after its handshake.\<close>

lemma dialTLS_keeps_or_closes:
  assumes "dial addr = Inr c"
  shows "dialTLS split_host dial handshake addr = (Inr c, []) \<and>
      handshake c (case split_host addr of None \<Rightarrow> addr | Some h \<Rightarrow> h) = None \<or>
    snd (dialTLS split_host dial handshake addr) = [c] \<and> (\<exists>e. fst (dialTLS split_host dial handshake addr) = Inl e)"
  using assms by (auto simp: dialTLS_def Let_def split: option.splits)

end
