(* ===== verification/GoEncoding.thy ===== *)
theory GoEncoding
  imports NetIP
begin

text \<open>
  The text encodings of the standard library that the record store and the DNSSEC validator
  read: \<open>encoding/base64\<close> (\<open>StdEncoding\<close>), \<open>encoding/hex\<close>, \<open>strconv.ParseUint\<close> in base 10 and
  \<open>strings.SplitN\<close>. A decoder that returns an error is \<open>None\<close>; the callers only pass it on.
\<close>

subsection \<open>Base 64\<close>

definition b64_val :: "char \<Rightarrow> nat option" where
  "b64_val c =
     (let n = of_char c :: nat
      in if 65 \<le> n \<and> n \<le> 90 then Some (n - 65)
         else if 97 \<le> n \<and> n \<le> 122 then Some (n - 71)
         else if 48 \<le> n \<and> n \<le> 57 then Some (n + 4)
         else if n = 43 then Some 62
         else if n = 47 then Some 63
         else None)"

text \<open>Quanta of four characters; only the last may be padded, and nothing may follow padding.\<close>

fun b64_quanta :: "string \<Rightarrow> byte list option" where
  "b64_quanta [] = Some []"
| "b64_quanta (a # b # c # d # rest) =
     (case (b64_val a, b64_val b) of
        (Some x, Some y) \<Rightarrow>
          let b0 = of_nat (x * 4 + y div 16)
          in if c = CHR ''='' then (if d = CHR ''='' \<and> rest = [] then Some [b0] else None)
             else (case b64_val c of
                     None \<Rightarrow> None
                   | Some z \<Rightarrow>
                       let b1 = of_nat (y mod 16 * 16 + z div 4)
                       in if d = CHR ''='' then (if rest = [] then Some [b0, b1] else None)
                          else (case b64_val d of
                                  None \<Rightarrow> None
                                | Some w \<Rightarrow>
                                    map_option (\<lambda>bs. b0 # b1 # of_nat (z mod 4 * 64 + w) # bs)
                                      (b64_quanta rest)))
      | _ \<Rightarrow> None)"
| "b64_quanta _ = None"

text \<open>Carriage returns and line feeds are skipped wherever they stand.\<close>

definition b64_decode :: "string \<Rightarrow> byte list option" where
  "b64_decode s = b64_quanta (filter (\<lambda>c. of_char c \<notin> {10, 13 :: nat}) s)"

subsection \<open>Hexadecimal\<close>

fun hex_decode :: "string \<Rightarrow> byte list option" where
  "hex_decode [] = Some []"
| "hex_decode [_] = None"
| "hex_decode (a # b # rest) =
     (case (hex_val a, hex_val b) of
        (Some x, Some y) \<Rightarrow> map_option (\<lambda>bs. of_nat (16 * x + y) # bs) (hex_decode rest)
      | _ \<Rightarrow> None)"

text \<open>The lower-case encoder, \<open>hex.EncodeToString\<close>.\<close>

definition hex_digit :: "nat \<Rightarrow> char" where
  "hex_digit n = (if n < 10 then char_of (n + 48) else char_of (n + 87))"

definition hex_encode :: "byte list \<Rightarrow> string" where
  "hex_encode bs = concat (map (\<lambda>b. [hex_digit (unat b div 16), hex_digit (unat b mod 16)]) bs)"

lemma hex_val_digit: "n < 16 \<Longrightarrow> hex_val (hex_digit n) = Some n"
  by (auto simp: hex_val_def hex_digit_def Let_def)

lemma hex_decode_encode: "hex_decode (hex_encode bs) = Some bs"
proof (induction bs)
  case (Cons b bs)
  have "of_nat (16 * (unat b div 16) + unat b mod 16) = b"
    by (simp only: mult_div_mod_eq of_nat_unat ucast_id)
  then show ?case
    using Cons unat_byte_less [of b]
    by (simp add: hex_encode_def hex_val_digit less_mult_imp_div_less del: of_nat_add of_nat_mult)
qed (simp add: hex_encode_def)

subsection \<open>Unsigned numbers\<close>

definition parse_uint :: "nat \<Rightarrow> string \<Rightarrow> nat option" where
  "parse_uint bits s =
     (if s = [] then None
      else case parse_dec 0 s of None \<Rightarrow> None | Some n \<Rightarrow> if n < 2 ^ bits then Some n else None)"

subsection \<open>Splitting into at most n parts\<close>

text \<open>\<open>strings.SplitN(s, sep, n)\<close> for \<open>n > 0\<close> and a separator of one byte.\<close>

definition split_n :: "char \<Rightarrow> nat \<Rightarrow> string \<Rightarrow> string list" where
  "split_n c n s =
     (let parts = split_on c s
      in if length parts \<le> n then parts
         else take (n - 1) parts @ [join_with c (drop (n - 1) parts)])"

lemma split_n_not_Nil [simp]: "0 < n \<Longrightarrow> split_n c n s \<noteq> []"
  by (simp add: split_n_def Let_def)

lemma last_split_n:
  assumes "0 < n" "n \<le> length (split_on c s)"
  shows "last (split_n c n s) = join_with c (drop (n - 1) (split_on c s))"
proof (cases "length (split_on c s) = n")
  case True
  then have "drop (n - 1) (split_on c s) = [last (split_on c s)]"
    by (cases "split_on c s" rule: rev_cases) auto
  with True show ?thesis by (simp add: split_n_def Let_def)
next
  case False
  with assms show ?thesis by (simp add: split_n_def Let_def)
qed

end
