(* ===== verification/DnssecWire.thy ===== *)
theory DnssecWire
  imports DnsPack GoEncoding Domains "HOL-Library.List_Lexorder"
begin

text \<open>
  The wire side of \<open>internal/dnssec/dnssec.go\<close>: DNSKEY, DS and RRSIG rdata, key tags, canonical
  names, the canonical form of rdata and the byte string that an RRSIG signs. An error return
  is the left injection; \<open>DnssecPanic\<close> stands for an index or slice out of range, which Go
  turns into a run-time panic.
\<close>

subsection \<open>Record data\<close>

record DNSKEY =
  k_Flags :: u16
  k_Protocol :: byte
  k_Algorithm :: byte
  k_PublicKey :: "byte list"

record DS =
  ds_KeyTag :: u16
  ds_Algorithm :: byte
  ds_DigestType :: byte
  ds_Digest :: "byte list"

record RRSIG =
  sg_TypeCovered :: u16
  sg_Algorithm :: byte
  sg_Labels :: byte
  sg_OrigTTL :: u32
  sg_Expiration :: u32
  sg_Inception :: u32
  sg_KeyTag :: u16
  sg_SignerName :: string
  sg_Signature :: "byte list"

datatype dnssec_error =
  WrongRecordType
| RdataTooShort
| SignerNameError name_error
| KeyTagMismatch
| AlgorithmMismatch
| UnsupportedDigest
| DigestMismatch
| NotYetValid
| Expired
| NoKeyWithTag
| BadPublicKey
| BadSignature
| UnsupportedAlgorithm
| NoCoveringRRSIG
| NoDNSKEY
| NoAnchorKey
| NoParentDS
| NoMatchingDS
| RRsetSignature dnssec_error
| DnssecPanic

definition ParseDNSKEY :: "RR \<Rightarrow> dnssec_error + DNSKEY" where
  "ParseDNSKEY rr =
     (if rr_type rr \<noteq> TypeDNSKEY then Inl WrongRecordType
      else if length (rr_data rr) < 4 then Inl RdataTooShort
      else Inr \<lparr>k_Flags = be16 (rr_data rr) 0, k_Protocol = rr_data rr ! 2,
                k_Algorithm = rr_data rr ! 3, k_PublicKey = drop 4 (rr_data rr)\<rparr>)"

definition ParseDS :: "RR \<Rightarrow> dnssec_error + DS" where
  "ParseDS rr =
     (if rr_type rr \<noteq> TypeDS then Inl WrongRecordType
      else if length (rr_data rr) < 4 then Inl RdataTooShort
      else Inr \<lparr>ds_KeyTag = be16 (rr_data rr) 0, ds_Algorithm = rr_data rr ! 2,
                ds_DigestType = rr_data rr ! 3, ds_Digest = drop 4 (rr_data rr)\<rparr>)"

text \<open>The loop of the package's own \<open>parseUncompressedName\<close>: it collects lower-case labels.\<close>

function sec_name_loop :: "byte list \<Rightarrow> nat \<Rightarrow> string list \<Rightarrow> name_error + (string list \<times> nat)" where
  "sec_name_loop data i labels =
     (if length data \<le> i then Inl NameOutOfBounds
      else
        let l = unat (data ! i); i = i + 1
        in if l = 0 then Inr (labels, i)
           else if data ! (i - 1) AND 0xC0 \<noteq> 0 then Inl NameCompressed
           else if length data < i + l then Inl NameLabelOutOfBounds
           else sec_name_loop data (i + l) (labels @ [to_lower (string_of (slice data i (i + l)))]))"
  by pat_completeness auto
termination
  by (relation "measure (\<lambda>(data, i, labels). length data - i)") auto

declare sec_name_loop.simps [simp del]

definition sec_parseUncompressedName :: "byte list \<Rightarrow> name_error + (string \<times> nat)" where
  "sec_parseUncompressedName data =
     (case sec_name_loop data 0 [] of
        Inl e \<Rightarrow> Inl e
      | Inr (labels, i) \<Rightarrow>
          if labels = [] then Inr (''.'', i) else Inr (join_with CHR ''.'' labels, i))"

definition ParseRRSIG :: "RR \<Rightarrow> dnssec_error + RRSIG" where
  "ParseRRSIG rr =
     (if rr_type rr \<noteq> TypeRRSIG then Inl WrongRecordType
      else
        let data = rr_data rr
        in if length data < 18 then Inl RdataTooShort
           else case sec_parseUncompressedName (drop 18 data) of
                  Inl e \<Rightarrow> Inl (SignerNameError e)
                | Inr (signerName, n) \<Rightarrow>
                    Inr \<lparr>sg_TypeCovered = be16 data 0, sg_Algorithm = data ! 2, sg_Labels = data ! 3,
                         sg_OrigTTL = be32 data 4, sg_Expiration = be32 data 8,
                         sg_Inception = be32 data 12, sg_KeyTag = be16 data 16,
                         sg_SignerName = signerName, sg_Signature = drop (18 + n) data\<rparr>)"

subsection \<open>Key tags\<close>

definition dnskeyRdata :: "DNSKEY \<Rightarrow> byte list" where
  "dnskeyRdata k = put16 (k_Flags k) @ [k_Protocol k, k_Algorithm k] @ k_PublicKey k"

text \<open>The sum over the rdata; the flag is the parity of the index.\<close>

fun tag_sum :: "bool \<Rightarrow> u32 \<Rightarrow> byte list \<Rightarrow> u32" where
  "tag_sum od acc [] = acc"
| "tag_sum od acc (b # bs) =
     tag_sum (\<not> od) (acc + (if od then ucast b else push_bit 8 (ucast b))) bs"

definition KeyTag :: "DNSKEY \<Rightarrow> u16" where
  "KeyTag k =
     (if k_Algorithm k = 1 then
        (let n = length (k_PublicKey k)
         in if n < 2 then 0 else be16 (k_PublicKey k) (n - 2))
      else
        (let total = tag_sum False 0 (dnskeyRdata k)
         in ucast (total + drop_bit 16 total)))"

subsection \<open>Canonical names and rdata\<close>

definition WireName :: "string \<Rightarrow> byte list" where
  "WireName name =
     (let name = norm_name name
      in if name = '''' then [0]
         else concat (map (\<lambda>label. if label = [] then [] else of_nat (length label) # bytes_of label)
                (split_on CHR ''.'' name)) @ [0])"

definition isRootZone :: "string \<Rightarrow> bool" where
  "isRootZone name \<longleftrightarrow> name = ''.'' \<or> name = ''''"

definition fqdn :: "string \<Rightarrow> string" where
  "fqdn name = (if \<not> has_suffix name ''.'' then name @ ''.'' else name)"

definition labelCount :: "string \<Rightarrow> nat" where
  "labelCount name =
     (let name = trim_suffix name ''.''
      in if name = '''' then 0 else count_list name CHR ''.'' + 1)"

text \<open>
  \<open>None\<close> is a panic: the rest of an SOA record is cut at an offset that the names in the packet
  determine, and the slice \<open>rr.Data[n2-rr.Offset:]\<close> fails when they run past the rdata.
\<close>

definition canonRdata :: "RR \<Rightarrow> byte list \<Rightarrow> byte list option" where
  "canonRdata rr raw =
     (if rr_type rr \<in> {TypeNS, TypeCNAME, TypePTR} then
        (case parseName raw (rr_offset rr) of
           Inl _ \<Rightarrow> Some (rr_data rr)
         | Inr (name, _) \<Rightarrow> Some (WireName name))
      else if rr_type rr = TypeMX then
        (if length (rr_data rr) < 2 then Some (rr_data rr)
         else case parseName raw (rr_offset rr + 2) of
                Inl _ \<Rightarrow> Some (rr_data rr)
              | Inr (name, _) \<Rightarrow> Some (take 2 (rr_data rr) @ WireName name))
      else if rr_type rr = TypeSOA then
        (case parseName raw (rr_offset rr) of
           Inl _ \<Rightarrow> Some (rr_data rr)
         | Inr (mname, n1) \<Rightarrow>
             (case parseName raw n1 of
                Inl _ \<Rightarrow> Some (rr_data rr)
              | Inr (rname, n2) \<Rightarrow>
                  if n2 < rr_offset rr \<or> length (rr_data rr) < n2 - rr_offset rr then None
                  else Some (WireName mname @ WireName rname @ drop (n2 - rr_offset rr) (rr_data rr))))
      else if rr_type rr = TypeSRV then
        (if length (rr_data rr) < 6 then Some (rr_data rr)
         else case parseName raw (rr_offset rr + 6) of
                Inl _ \<Rightarrow> Some (rr_data rr)
              | Inr (name, _) \<Rightarrow> Some (take 6 (rr_data rr) @ WireName name))
      else Some (rr_data rr))"

subsection \<open>Signed data\<close>

definition signed_header :: "RRSIG \<Rightarrow> byte list" where
  "signed_header sig =
     put16 (sg_TypeCovered sig) @ [sg_Algorithm sig, sg_Labels sig] @ put32 (sg_OrigTTL sig) @
     put32 (sg_Expiration sig) @ put32 (sg_Inception sig) @ put16 (sg_KeyTag sig) @
     WireName (sg_SignerName sig)"

text \<open>The owner name as signed: a wildcard when the signature counts fewer labels.\<close>

definition signed_owner :: "RRSIG \<Rightarrow> string \<Rightarrow> string" where
  "signed_owner sig owner =
     (let ownerName = to_lower owner; ownerLabels = labelCount ownerName
      in if unat (sg_Labels sig) < ownerLabels
         then ''*.'' @ last (split_n CHR ''.'' (ownerLabels - unat (sg_Labels sig) + 1) ownerName)
         else ownerName)"

definition signed_item :: "RRSIG \<Rightarrow> byte list \<Rightarrow> RR \<Rightarrow> byte list \<Rightarrow> byte list" where
  "signed_item sig ownerWire rr rdata =
     ownerWire @ put16 (rr_type rr) @ put16 ClassIN @ put32 (sg_OrigTTL sig) @
     put16 (of_nat (length rdata)) @ rdata"

fun canon_items :: "RRSIG \<Rightarrow> byte list \<Rightarrow> byte list \<Rightarrow> RR list \<Rightarrow> (byte list \<times> byte list) list option" where
  "canon_items sig ownerWire raw [] = Some []"
| "canon_items sig ownerWire raw (rr # rrs) =
     (case canonRdata rr raw of
        None \<Rightarrow> None
      | Some rdata \<Rightarrow>
          map_option (\<lambda>items. (rdata, signed_item sig ownerWire rr rdata) # items)
            (canon_items sig ownerWire raw rrs))"

text \<open>
  \<open>sort.Slice\<close> need not keep the order of items with equal rdata; the callers pass records of
  one type, and then such items are equal altogether (\<open>signed_item_cong\<close>).
\<close>

definition buildSignedData :: "RRSIG \<Rightarrow> RR list \<Rightarrow> byte list \<Rightarrow> byte list option" where
  "buildSignedData sig rrset raw =
     (case rrset of
        [] \<Rightarrow> None
      | rr0 # _ \<Rightarrow>
          map_option (\<lambda>items. signed_header sig @ concat (map snd (sort_key fst items)))
            (canon_items sig (WireName (signed_owner sig (rr_name rr0))) raw rrset))"

end
