(* ===== verification/Dnssec.thy ===== *)
theory Dnssec
  imports DnssecWire ExpiringStore
begin

text \<open>
  Signature checks and the chain of trust of \<open>internal/dnssec/dnssec.go\<close>, and the validator's
  cache of zone keys. The primitives of Go's crypto packages (digests, RSA PKCS 1 v1.5, ECDSA,
  Ed25519) are a record of functions of which nothing is assumed. A key map is an association
  list with one entry per tag. \<open>time.Now\<close> is an argument; a loop that reads it several times
  takes a clock, a function of the number of the reading.
\<close>

subsection \<open>Cryptography\<close>

datatype hash_fn = SHA1 | SHA256 | SHA384 | SHA512

datatype curve = P256 | P384

record crypto =
  c_digest :: "hash_fn \<Rightarrow> byte list \<Rightarrow> byte list"
  c_rsa :: "nat \<times> nat \<Rightarrow> hash_fn \<Rightarrow> byte list \<Rightarrow> byte list \<Rightarrow> bool"
  c_ecdsa :: "curve \<Rightarrow> nat \<times> nat \<Rightarrow> byte list \<Rightarrow> nat \<times> nat \<Rightarrow> bool"
  c_ed25519 :: "byte list \<Rightarrow> byte list \<Rightarrow> byte list \<Rightarrow> bool"

text \<open>\<open>new(big.Int).SetBytes(bs)\<close>.\<close>

definition big_nat :: "byte list \<Rightarrow> nat" where
  "big_nat bs = foldl (\<lambda>n b. n * 256 + unat b) 0 bs"

text \<open>The modulus and the exponent of a public key.\<close>

definition parseRSAPublicKey :: "byte list \<Rightarrow> (nat \<times> nat) option" where
  "parseRSAPublicKey data =
     (if length data < 2 then None
      else if data ! 0 = 0 \<and> length data < 3 then None
      else
        let (eLen, off) = (if data ! 0 = 0 then (unat (be16 data 1), 3) else (unat (data ! 0), 1))
        in if length data < off + eLen + 1 then None
           else
             let e = big_nat (slice data off (off + eLen)); n = big_nat (drop (off + eLen) data)
             in if 2 ^ 63 \<le> e then None else Some (n, e))"

definition verifyRSA ::
  "crypto \<Rightarrow> byte list \<Rightarrow> byte list \<Rightarrow> byte list \<Rightarrow> hash_fn \<Rightarrow> dnssec_error + unit" where
  "verifyRSA c pubKeyData data signature hash =
     (case parseRSAPublicKey pubKeyData of
        None \<Rightarrow> Inl BadPublicKey
      | Some pub \<Rightarrow> if c_rsa c pub hash (c_digest c hash data) signature then Inr () else Inl BadSignature)"

definition verifyECDSAP256 :: "crypto \<Rightarrow> byte list \<Rightarrow> byte list \<Rightarrow> byte list \<Rightarrow> dnssec_error + unit" where
  "verifyECDSAP256 c pubKeyData data signature =
     (if length pubKeyData \<noteq> 64 then Inl BadPublicKey
      else if length signature \<noteq> 64 then Inl BadSignature
      else if c_ecdsa c P256 (big_nat (take 32 pubKeyData), big_nat (drop 32 pubKeyData))
                (c_digest c SHA256 data) (big_nat (take 32 signature), big_nat (drop 32 signature))
      then Inr () else Inl BadSignature)"

definition verifyECDSAP384 :: "crypto \<Rightarrow> byte list \<Rightarrow> byte list \<Rightarrow> byte list \<Rightarrow> dnssec_error + unit" where
  "verifyECDSAP384 c pubKeyData data signature =
     (if length pubKeyData \<noteq> 96 then Inl BadPublicKey
      else if length signature \<noteq> 96 then Inl BadSignature
      else if c_ecdsa c P384 (big_nat (take 48 pubKeyData), big_nat (drop 48 pubKeyData))
                (c_digest c SHA384 data) (big_nat (take 48 signature), big_nat (drop 48 signature))
      then Inr () else Inl BadSignature)"

definition verifyED25519 :: "crypto \<Rightarrow> byte list \<Rightarrow> byte list \<Rightarrow> byte list \<Rightarrow> dnssec_error + unit" where
  "verifyED25519 c pubKeyData data signature =
     (if length pubKeyData \<noteq> 32 then Inl BadPublicKey
      else if length signature \<noteq> 64 then Inl BadSignature
      else if c_ed25519 c pubKeyData data signature then Inr () else Inl BadSignature)"

definition verifyCrypto :: "crypto \<Rightarrow> DNSKEY \<Rightarrow> byte list \<Rightarrow> byte list \<Rightarrow> dnssec_error + unit" where
  "verifyCrypto c key data signature =
     (let alg = k_Algorithm key; pk = k_PublicKey key
      in if alg = 5 \<or> alg = 7 then verifyRSA c pk data signature SHA1
         else if alg = 8 then verifyRSA c pk data signature SHA256
         else if alg = 10 then verifyRSA c pk data signature SHA512
         else if alg = 13 then verifyECDSAP256 c pk data signature
         else if alg = 14 then verifyECDSAP384 c pk data signature
         else if alg = 15 then verifyED25519 c pk data signature
         else Inl UnsupportedAlgorithm)"

definition VerifyDS :: "crypto \<Rightarrow> string \<Rightarrow> DNSKEY \<Rightarrow> DS \<Rightarrow> dnssec_error + unit" where
  "VerifyDS c zoneName key ds =
     (if KeyTag key \<noteq> ds_KeyTag ds then Inl KeyTagMismatch
      else if k_Algorithm key \<noteq> ds_Algorithm ds then Inl AlgorithmMismatch
      else
        let input = WireName zoneName @ dnskeyRdata key;
            digest = (if ds_DigestType ds = 1 then Some (c_digest c SHA1 input)
                      else if ds_DigestType ds = 2 then Some (c_digest c SHA256 input)
                      else if ds_DigestType ds = 4 then Some (c_digest c SHA384 input)
                      else None)
        in case digest of
             None \<Rightarrow> Inl UnsupportedDigest
           | Some d \<Rightarrow> if d \<noteq> ds_Digest ds then Inl DigestMismatch else Inr ())"

subsection \<open>Signatures\<close>

type_synonym key_map = "(u16 \<times> DNSKEY) list"

text \<open>\<open>uint32(time.Now().Unix())\<close> at the time \<open>t\<close>.\<close>

definition unix32 :: "int \<Rightarrow> u32" where
  "unix32 t = of_int (t div second)"

definition VerifyRRSIG ::
  "crypto \<Rightarrow> int \<Rightarrow> key_map \<Rightarrow> RR list \<Rightarrow> RRSIG \<Rightarrow> byte list \<Rightarrow> dnssec_error + unit" where
  "VerifyRRSIG c t keys rrset sig raw =
     (let now = unix32 t
      in if now < sg_Inception sig then Inl NotYetValid
         else if sg_Expiration sig < now then Inl Expired
         else case map_of keys (sg_KeyTag sig) of
                None \<Rightarrow> Inl NoKeyWithTag
              | Some key \<Rightarrow>
                  if k_Algorithm key \<noteq> sg_Algorithm sig then Inl AlgorithmMismatch
                  else case buildSignedData sig rrset raw of
                         None \<Rightarrow> Inl DnssecPanic
                       | Some signedData \<Rightarrow> verifyCrypto c key signedData (sg_Signature sig))"

text \<open>The loop of \<open>VerifyAnyRRSIG\<close>: \<open>i\<close> counts the readings of the clock.\<close>

fun any_loop ::
  "crypto \<Rightarrow> (nat \<Rightarrow> int) \<Rightarrow> key_map \<Rightarrow> RR list \<Rightarrow> u16 \<Rightarrow> byte list \<Rightarrow>
   nat \<Rightarrow> dnssec_error option \<Rightarrow> RR list \<Rightarrow> dnssec_error + unit" where
  "any_loop c clock keys rrset tc raw i lastErr [] =
     (case lastErr of Some e \<Rightarrow> Inl e | None \<Rightarrow> Inl NoCoveringRRSIG)"
| "any_loop c clock keys rrset tc raw i lastErr (rr # rrs) =
     (if rr_type rr \<noteq> TypeRRSIG then any_loop c clock keys rrset tc raw i lastErr rrs
      else case ParseRRSIG rr of
        Inl _ \<Rightarrow> any_loop c clock keys rrset tc raw i lastErr rrs
      | Inr sig \<Rightarrow>
          if sg_TypeCovered sig \<noteq> tc then any_loop c clock keys rrset tc raw i lastErr rrs
          else case VerifyRRSIG c (clock i) keys rrset sig raw of
                 Inr _ \<Rightarrow> Inr ()
               | Inl e \<Rightarrow> if e = DnssecPanic then Inl DnssecPanic
                          else any_loop c clock keys rrset tc raw (Suc i) (Some e) rrs)"

definition VerifyAnyRRSIG ::
  "crypto \<Rightarrow> (nat \<Rightarrow> int) \<Rightarrow> key_map \<Rightarrow> RR list \<Rightarrow> RR list \<Rightarrow> u16 \<Rightarrow> byte list \<Rightarrow> dnssec_error + unit" where
  "VerifyAnyRRSIG c clock keys rrset rrsigs typeCovered raw =
     any_loop c clock keys rrset typeCovered raw 0 None rrsigs"

subsection \<open>The keys of a zone\<close>

record cachedZone =
  cz_keys :: key_map
  cz_expiresAt :: int

record Validator =
  v_anchors :: key_map
  v_keyCache :: "(string \<times> cachedZone) list"

definition add_key :: "RR \<Rightarrow> key_map \<Rightarrow> key_map" where
  "add_key rr allKeys =
     (if rr_type rr \<noteq> TypeDNSKEY then allKeys
      else case ParseDNSKEY rr of Inl _ \<Rightarrow> allKeys | Inr k \<Rightarrow> AList.update (KeyTag k) k allKeys)"

definition root_seeds :: "key_map \<Rightarrow> key_map \<Rightarrow> key_map" where
  "root_seeds anchors allKeys =
     fold (\<lambda>(tag, anchor) seeds.
        fold (\<lambda>(_, k) seeds. if KeyTag k = tag then AList.update tag k seeds else seeds) allKeys
          (if map_of allKeys tag \<noteq> None then AList.update tag anchor seeds else seeds)) anchors []"

definition ds_seeds :: "crypto \<Rightarrow> string \<Rightarrow> DS list \<Rightarrow> key_map \<Rightarrow> key_map" where
  "ds_seeds c zoneName parentDS allKeys =
     fold (\<lambda>ds seeds.
        case map_of allKeys (ds_KeyTag ds) of
          None \<Rightarrow> seeds
        | Some k \<Rightarrow>
            (case VerifyDS c zoneName k ds of
               Inl _ \<Rightarrow> seeds
             | Inr _ \<Rightarrow> AList.update (ds_KeyTag ds) k seeds)) parentDS []"

definition trust_seeds ::
  "crypto \<Rightarrow> Validator \<Rightarrow> string \<Rightarrow> DS list \<Rightarrow> key_map \<Rightarrow> dnssec_error + key_map" where
  "trust_seeds c v zoneName parentDS allKeys =
     (if isRootZone zoneName then
        (let seeds = root_seeds (v_anchors v) allKeys
         in if seeds = [] then Inl NoAnchorKey else Inr seeds)
      else if parentDS = [] then Inl NoParentDS
      else
        (let seeds = ds_seeds c zoneName parentDS allKeys
         in if seeds = [] then Inl NoMatchingDS else Inr seeds))"

definition ValidateZoneDNSKEY ::
  "crypto \<Rightarrow> (nat \<Rightarrow> int) \<Rightarrow> Validator \<Rightarrow> string \<Rightarrow> RR list \<Rightarrow> RR list \<Rightarrow> DS list \<Rightarrow> byte list \<Rightarrow>
   dnssec_error + key_map" where
  "ValidateZoneDNSKEY c clock v zoneName dnskeyRRs rrsigRRs parentDS raw =
     (if dnskeyRRs = [] then Inl NoDNSKEY
      else
        let allKeys = fold add_key dnskeyRRs []
        in case trust_seeds c v zoneName parentDS allKeys of
             Inl e \<Rightarrow> Inl e
           | Inr seeds \<Rightarrow>
               (case VerifyAnyRRSIG c clock seeds dnskeyRRs rrsigRRs TypeDNSKEY raw of
                  Inl e \<Rightarrow> Inl (if e = DnssecPanic then DnssecPanic else RRsetSignature e)
                | Inr _ \<Rightarrow> Inr allKeys))"

subsection \<open>The key cache\<close>

definition CacheZoneKeys :: "int \<Rightarrow> string \<Rightarrow> key_map \<Rightarrow> u32 \<Rightarrow> Validator \<Rightarrow> Validator" where
  "CacheZoneKeys t zone keys ttl v =
     (let ttl = (if ttl = 0 then 3600 else ttl)
      in v\<lparr>v_keyCache := AList.update (to_lower (fqdn zone))
             \<lparr>cz_keys = keys, cz_expiresAt = t + uint ttl * second\<rparr> (v_keyCache v)\<rparr>)"

definition delete_zone :: "string \<Rightarrow> Validator \<Rightarrow> Validator" where
  "delete_zone zone v = v\<lparr>v_keyCache := AList.delete (to_lower (fqdn zone)) (v_keyCache v)\<rparr>"

definition LookupZoneKeys :: "int \<Rightarrow> string \<Rightarrow> Validator \<Rightarrow> key_map option \<times> Validator" where
  "LookupZoneKeys t zone v =
     (case map_of (v_keyCache v) (to_lower (fqdn zone)) of
        None \<Rightarrow> (None, v)
      | Some cz \<Rightarrow>
          if cz_expiresAt cz < t then (None, delete_zone zone v) else (Some (cz_keys cz), v))"

subsection \<open>Trust anchors\<close>

definition ksk2017 :: string where
  "ksk2017 =
     ''AwEAAaz/tAm8yTn4Mfeh5eyI96WSVexTBAvkMgJzkKTOiW1vkIbzxeF3'' @
     ''+/4RgWOq7HrxRixHlFlExOLAJr5emLvN7SWXgnLh4+B5xQlNVz8Og8kv'' @
     ''ArMtNROxVQuCaSnIDdD5LKyWbRd2n9WGe2R8PzgCmr3EgVLrjyBxWezF0'' @
     ''jLHwVN8efS3rCj/EWgvIWgb9tarpVUDK/b58Da+sqqls3eNbuv7pr+eoZ'' @
     ''G+SrDK6nWeL3c6H5Apxz7LjVc1uTIdsIXxuOLYA4/ilBmSVIzuDWfdRU'' @
     ''fhHdY6+cn8HFRm+2hM8AnXGXws9555KrUB5qihylGa8subX2Nn6UwNR1A'' @
     ''kUTV74bU=''"

definition ksk2024 :: string where
  "ksk2024 =
     ''AwEAAa96jeuknZlaeSrvyAJj6ZHv28hhOKkx3rLGXVaC6rXTsDc449/c'' @
     ''idltpkyGwCJNnOAlFNKF2jBosZBU5eeHspaQWOmOElZsjICMQMC3aeHbG'' @
     ''iShvZsx4wMYSjH8e7Vrhbu6irwCzVBApESjbUdpWWmEnhathWu1jo+siFU'' @
     ''iRAAxm9qyJNg/wOZqqzL/dL/q8PkcRU5oUKEpUge71M3ej2/7CPqpdVwu'' @
     ''MoTvoB+ZOT4YeGyxMvHmbrxlFzGOHOijtzN+u1TQNatX2XBuzZNQ1K+s2'' @
     ''CXkPIZo7s6JgZyvaBevYtxPvYLw4z9mR7K2vaF18UYH9Z9GNUUeayffKC'' @
     ''73PYc=''"

text \<open>\<open>None\<close> is the panic of a constant that is not base 64.\<close>

definition rootTrustAnchors :: "DNSKEY list option" where
  "rootTrustAnchors =
     (case (b64_decode ksk2017, b64_decode ksk2024) of
        (Some k2017, Some k2024) \<Rightarrow>
          Some [\<lparr>k_Flags = 257, k_Protocol = 3, k_Algorithm = 8, k_PublicKey = k2017\<rparr>,
                \<lparr>k_Flags = 257, k_Protocol = 3, k_Algorithm = 8, k_PublicKey = k2024\<rparr>]
      | _ \<Rightarrow> None)"

definition NewValidator :: "Validator option" where
  "NewValidator =
     map_option (\<lambda>as. \<lparr>v_anchors = fold (\<lambda>a. AList.update (KeyTag a) a) as [], v_keyCache = []\<rparr>)
       rootTrustAnchors"

end
