(* ===== verification/ChainOfTrust.thy ===== *)
theory ChainOfTrust
  imports DnssecProps
begin

text \<open>
  The decisions of the validator: what an accepted signature and an accepted DNSKEY set
  guarantee, what the validator fails to guarantee for the root zone and for malformed SOA
  records, and the provenance of the zone keys it has cached.
\<close>

subsection \<open>Accepted signatures\<close>

text \<open>What it takes for a signature to be accepted at a time.\<close>

definition accepted :: "crypto \<Rightarrow> int \<Rightarrow> key_map \<Rightarrow> RR list \<Rightarrow> RRSIG \<Rightarrow> byte list \<Rightarrow> bool" where
  "accepted c t keys rrset sig raw \<longleftrightarrow>
     sg_Inception sig \<le> unix32 t \<and> unix32 t \<le> sg_Expiration sig \<and>
     (case map_of keys (sg_KeyTag sig) of
        None \<Rightarrow> False
      | Some key \<Rightarrow> k_Algorithm key = sg_Algorithm sig \<and>
          (case buildSignedData sig rrset raw of
             None \<Rightarrow> False
           | Some signedData \<Rightarrow> verifyCrypto c key signedData (sg_Signature sig) = Inr ()))"

lemma VerifyRRSIG_accepted: "VerifyRRSIG c t keys rrset sig raw = Inr u \<longleftrightarrow> accepted c t keys rrset sig raw"
  by (auto simp: VerifyRRSIG_def accepted_def Let_def not_less split: option.splits)

lemma VerifyRRSIG_Inl: "VerifyRRSIG c t keys rrset sig raw = Inl e \<Longrightarrow> \<not> accepted c t keys rrset sig raw"
  using VerifyRRSIG_accepted [of c t keys rrset sig raw "()"] by auto

lemma any_loop_sound:
  "any_loop c clock keys rrset tc raw i le rrs = Inr u \<Longrightarrow>
   \<exists>j rr sig. rr \<in> set rrs \<and> ParseRRSIG rr = Inr sig \<and> sg_TypeCovered sig = tc \<and>
     accepted c (clock j) keys rrset sig raw"
proof (induction c clock keys rrset tc raw i le rrs rule: any_loop.induct)
  case (2 c clock keys rrset tc raw i le rr rrs)
  show ?case
  proof (cases "rr_type rr = TypeRRSIG")
    case False
    with 2 show ?thesis by auto
  next
    case rrsig: True
    show ?thesis
    proof (cases "ParseRRSIG rr")
      case (Inl e)
      with 2 rrsig show ?thesis by auto
    next
      case (Inr sig)
      show ?thesis
      proof (cases "sg_TypeCovered sig = tc \<and> accepted c (clock i) keys rrset sig raw")
        case True
        with Inr show ?thesis by (intro exI [of _ i] exI [of _ rr] exI [of _ sig]) simp
      next
        case False
        then have "sg_TypeCovered sig = tc \<longrightarrow> VerifyRRSIG c (clock i) keys rrset sig raw \<noteq> Inr ()"
          by (simp add: VerifyRRSIG_accepted)
        with 2 rrsig Inr show ?thesis
          by (cases "VerifyRRSIG c (clock i) keys rrset sig raw") (auto split: if_splits, blast+)
      qed
    qed
  qed
qed (simp split: option.splits)

lemma VerifyAnyRRSIG_sound:
  "VerifyAnyRRSIG c clock keys rrset rrsigs tc raw = Inr u \<Longrightarrow>
   \<exists>j rr sig. rr \<in> set rrsigs \<and> ParseRRSIG rr = Inr sig \<and> sg_TypeCovered sig = tc \<and>
     accepted c (clock j) keys rrset sig raw"
  unfolding VerifyAnyRRSIG_def by (rule any_loop_sound)

subsection \<open>Accepted zone keys\<close>

lemma add_key_of:
  "map_of (fold add_key rrs m) tag = Some k \<Longrightarrow>
   map_of m tag = Some k \<or> (\<exists>rr \<in> set rrs. ParseDNSKEY rr = Inr k \<and> KeyTag k = tag)"
proof (induction rrs arbitrary: m)
  case (Cons rr rrs)
  from Cons.prems have "map_of (fold add_key rrs (add_key rr m)) tag = Some k" by simp
  from Cons.IH [OF this] have "map_of (add_key rr m) tag = Some k \<or>
      (\<exists>rr \<in> set rrs. ParseDNSKEY rr = Inr k \<and> KeyTag k = tag)" .
  moreover have "map_of (add_key rr m) tag = Some k \<Longrightarrow>
      map_of m tag = Some k \<or> (ParseDNSKEY rr = Inr k \<and> KeyTag k = tag)"
    by (auto simp: add_key_def map_of_update split: if_splits sum.splits)
  ultimately show ?case by auto
qed simp

lemma ds_seeds_of:
  assumes "map_of (ds_seeds c zone parentDS allKeys) tag = Some k"
  shows "map_of allKeys tag = Some k \<and> (\<exists>ds \<in> set parentDS. ds_KeyTag ds = tag \<and> VerifyDS c zone k ds = Inr ())"
proof -
  define f where "f = (\<lambda>ds seeds. case map_of allKeys (ds_KeyTag ds) of None \<Rightarrow> seeds
      | Some k \<Rightarrow> (case VerifyDS c zone k ds of Inl _ \<Rightarrow> seeds | Inr _ \<Rightarrow> AList.update (ds_KeyTag ds) k seeds))"
  have "map_of (fold f dss m) tag = Some k \<Longrightarrow> map_of m tag = Some k \<or>
      map_of allKeys tag = Some k \<and> (\<exists>ds \<in> set dss. ds_KeyTag ds = tag \<and> VerifyDS c zone k ds = Inr ())" for dss m
  proof (induction dss arbitrary: m)
    case (Cons ds dss)
    have "map_of (f ds m) tag = Some k \<Longrightarrow> map_of m tag = Some k \<or>
        map_of allKeys tag = Some k \<and> ds_KeyTag ds = tag \<and> VerifyDS c zone k ds = Inr ()"
      by (auto simp: f_def map_of_update split: option.splits sum.splits if_splits)
    with Cons.IH [of "f ds m"] Cons.prems show ?case by auto
  qed simp
  from this [of parentDS "[]"] assms show ?thesis by (simp add: ds_seeds_def f_def)
qed

text \<open>
  C29: the validator accepts the DNSKEY set of a zone below the root only along the chain of
  trust: one of its keys has the digest that a DS record of the parent holds, and a signature
  by that very key, valid at the time of a reading of the clock, covers the whole set. Every key
  it returns is a record of the set, filed under its own tag.
\<close>

theorem ValidateZoneDNSKEY_sound:
  assumes "ValidateZoneDNSKEY c clock v zone dnskeyRRs rrsigs parentDS raw = Inr keys"
    and "\<not> isRootZone zone"
  shows "(\<exists>ds \<in> set parentDS. \<exists>k \<in> set (map snd keys). \<exists>rr \<in> set rrsigs. \<exists>sig j.
      VerifyDS c zone k ds = Inr () \<and> ParseRRSIG rr = Inr sig \<and> sg_TypeCovered sig = TypeDNSKEY \<and>
      sg_KeyTag sig = ds_KeyTag ds \<and> accepted c (clock j) [(ds_KeyTag ds, k)] dnskeyRRs sig raw) \<and>
    (\<forall>tag k. map_of keys tag = Some k \<longrightarrow> KeyTag k = tag \<and> Inr k \<in> ParseDNSKEY ` set dnskeyRRs)"
proof
  let ?all = "fold add_key dnskeyRRs []"
  let ?seeds = "ds_seeds c zone parentDS ?all"
  from assms have keys: "keys = ?all"
    and ver: "VerifyAnyRRSIG c clock ?seeds dnskeyRRs rrsigs TypeDNSKEY raw = Inr ()"
    by (auto simp: ValidateZoneDNSKEY_def trust_seeds_def Let_def split: if_splits sum.splits)
  from VerifyAnyRRSIG_sound [OF ver] obtain j rr sig where sig: "rr \<in> set rrsigs"
    "ParseRRSIG rr = Inr sig" "sg_TypeCovered sig = TypeDNSKEY" "accepted c (clock j) ?seeds dnskeyRRs sig raw"
    by blast
  then obtain k where k: "map_of ?seeds (sg_KeyTag sig) = Some k"
    by (auto simp: accepted_def split: option.splits)
  from ds_seeds_of [OF this] obtain ds where ds: "map_of ?all (sg_KeyTag sig) = Some k"
    "ds \<in> set parentDS" "ds_KeyTag ds = sg_KeyTag sig" "VerifyDS c zone k ds = Inr ()" by blast
  have "k \<in> set (map snd keys)" using map_of_SomeD [OF ds(1)] keys by force
  moreover have "accepted c (clock j) [(ds_KeyTag ds, k)] dnskeyRRs sig raw"
    using sig(4) k ds(3) by (simp add: accepted_def)
  ultimately show "\<exists>ds \<in> set parentDS. \<exists>k \<in> set (map snd keys). \<exists>rr \<in> set rrsigs. \<exists>sig j.
      VerifyDS c zone k ds = Inr () \<and> ParseRRSIG rr = Inr sig \<and> sg_TypeCovered sig = TypeDNSKEY \<and>
      sg_KeyTag sig = ds_KeyTag ds \<and> accepted c (clock j) [(ds_KeyTag ds, k)] dnskeyRRs sig raw"
    using sig ds by (metis (no_types))
  show "\<forall>tag k. map_of keys tag = Some k \<longrightarrow> KeyTag k = tag \<and> Inr k \<in> ParseDNSKEY ` set dnskeyRRs"
    using add_key_of [of dnskeyRRs "[]"] by (force simp: keys)
qed

text \<open>A zone with one Ed25519 key, for the witnesses; the primitives accept everything.\<close>

definition ex_crypto :: crypto where
  "ex_crypto = \<lparr>c_digest = (\<lambda>_ _. [1]), c_rsa = (\<lambda>_ _ _ _. True), c_ecdsa = (\<lambda>_ _ _ _. True),
                c_ed25519 = (\<lambda>_ _ _. True)\<rparr>"

definition ex_key :: DNSKEY where
  "ex_key = \<lparr>k_Flags = 257, k_Protocol = 3, k_Algorithm = 15, k_PublicKey = replicate 32 0\<rparr>"

definition ex_rr :: "u16 \<Rightarrow> byte list \<Rightarrow> RR" where
  "ex_rr t d = \<lparr>rr_name = ''a'', rr_type = t, rr_class = 1, rr_ttl = 9, rr_data = d, rr_offset = 0\<rparr>"

definition ex_dnskey :: RR where
  "ex_dnskey = ex_rr TypeDNSKEY (dnskeyRdata ex_key)"

definition ex_rrsig :: RR where
  "ex_rrsig = ex_rr TypeRRSIG ([0, 48, 15, 1, 0, 0, 0, 9, 0xFF, 0xFF, 0xFF, 0xFF, 0, 0, 0, 0, 4, 16] @
     [1, 97, 0] @ replicate 64 0)"

definition ex_ds :: DS where
  "ex_ds = \<lparr>ds_KeyTag = 1040, ds_Algorithm = 15, ds_DigestType = 2, ds_Digest = [1]\<rparr>"

lemma ValidateZoneDNSKEY_sound_witness:
  "\<exists>ds \<in> set [ex_ds]. \<exists>k \<in> set (map snd [(1040 :: u16, ex_key)]). \<exists>sig j.
     VerifyDS ex_crypto ''a'' k ds = Inr () \<and>
     accepted ex_crypto ((\<lambda>_. 0) (j :: nat)) [(ds_KeyTag ds, k)] [ex_dnskey] sig []"
proof -
  have "ValidateZoneDNSKEY ex_crypto (\<lambda>_. 0) \<lparr>v_anchors = [], v_keyCache = []\<rparr> ''a''
      [ex_dnskey] [ex_rrsig] [ex_ds] [] = Inr [(1040, ex_key)]" "\<not> isRootZone ''a''" by code_simp+
  from conjunct1 [OF ValidateZoneDNSKEY_sound [OF this]] show ?thesis by blast
qed

subsection \<open>The root keys\<close>

definition filed :: "key_map \<Rightarrow> bool" where
  "filed m \<longleftrightarrow> distinct (map fst m) \<and> list_all (\<lambda>(tag, k). KeyTag k = tag) m"

lemma filed_update: "filed m \<Longrightarrow> filed (AList.update (KeyTag k) k m)"
  unfolding filed_def by (auto simp: distinct_update) (induction m; fastforce split: if_splits)

lemma filed_add_keys: "filed m \<Longrightarrow> filed (fold add_key rrs m)"
  by (induction rrs arbitrary: m) (auto simp: add_key_def filed_update split: sum.split)

lemma seed_anchor:
  "filed allKeys \<Longrightarrow>
   map_of (fold (\<lambda>(_, k) seeds. if KeyTag k = tag then AList.update tag k seeds else seeds) allKeys s) t =
     (if t = tag then (case map_of allKeys tag of Some k \<Rightarrow> Some k | None \<Rightarrow> map_of s t) else map_of s t)"
proof (induction allKeys arbitrary: s)
  case (Cons p allKeys)
  obtain u k where p: "p = (u, k)" by fastforce
  from Cons.prems have "filed allKeys" "KeyTag k = u" "map_of allKeys u = None"
    by (auto simp: filed_def p map_of_eq_None_iff)
  with Cons.IH show ?case by (auto simp: p map_of_update split: option.splits)
qed simp

lemma root_seeds_map:
  assumes "filed allKeys"
  shows "map_of (root_seeds anchors allKeys) t = (if t \<in> fst ` set anchors then map_of allKeys t else None)"
proof -
  define f where "f = (\<lambda>(tag, anchor) seeds.
        fold (\<lambda>(_, k) seeds. if KeyTag k = tag then AList.update tag k seeds else seeds) allKeys
          (if map_of allKeys tag \<noteq> None then AList.update tag anchor seeds else seeds))"
  have step: "map_of (f (tag, anchor) s) t =
      (if t = tag \<and> map_of allKeys tag \<noteq> None then map_of allKeys tag else map_of s t)" for tag anchor s
    by (auto simp: f_def seed_anchor [OF assms] map_of_update split: option.split)
  have "map_of (fold f as s) t =
      (if t \<in> fst ` set as \<and> map_of allKeys t \<noteq> None then map_of allKeys t else map_of s t)" for as s
    by (induction as arbitrary: s) (auto simp: step)
  from this [of anchors "[]"] show ?thesis by (auto simp: root_seeds_def f_def)
qed

lemma VerifyRRSIG_map_of:
  assumes "map_of keys = map_of keys'"
  shows "VerifyRRSIG c t keys rrset sig raw = VerifyRRSIG c t keys' rrset sig raw"
  unfolding VerifyRRSIG_def assms by (rule refl)

lemma VerifyAnyRRSIG_map_of:
  assumes "map_of keys = map_of keys'"
  shows "VerifyAnyRRSIG c clock keys rrset rrsigs tc raw = VerifyAnyRRSIG c clock keys' rrset rrsigs tc raw"
proof -
  have "any_loop c clock keys rrset tc raw i le rrs = any_loop c clock keys' rrset tc raw i le rrs" for i le rrs
    by (induction rrs arbitrary: i le)
      (simp_all add: VerifyRRSIG_map_of [OF assms] split: sum.split)
  then show ?thesis by (simp add: VerifyAnyRRSIG_def)
qed

text \<open>
  C31: of the configured trust anchors only the 16-bit key tags count: two validators whose
  anchors have the same tags, whatever their keys, give the same verdict on every root DNSKEY
  set, so a self-signed key that merely shares a tag with an anchor is trusted as the root.
\<close>

theorem root_anchor_keys_ignored:
  assumes "fst ` set (v_anchors v) = fst ` set (v_anchors v')" "isRootZone zone"
  shows "ValidateZoneDNSKEY c clock v zone rrs rrsigs ds raw = ValidateZoneDNSKEY c clock v' zone rrs rrsigs ds raw"
proof -
  let ?all = "fold add_key rrs []"
  have "filed ?all" by (rule filed_add_keys) (simp add: filed_def)
  then have eq: "map_of (root_seeds (v_anchors v) ?all) = map_of (root_seeds (v_anchors v') ?all)"
    using assms(1) by (simp add: fun_eq_iff root_seeds_map)
  then have "root_seeds (v_anchors v) ?all = [] \<longleftrightarrow> root_seeds (v_anchors v') ?all = []"
    by (metis map_of_eq_empty_iff)
  then show ?thesis
    using assms(2) VerifyAnyRRSIG_map_of [OF eq]
    by (auto simp: ValidateZoneDNSKEY_def trust_seeds_def Let_def)
qed

lemma root_anchor_keys_ignored_witness:
  "ValidateZoneDNSKEY ex_crypto (\<lambda>_. 0)
     \<lparr>v_anchors = [(1040, \<lparr>k_Flags = 257, k_Protocol = 3, k_Algorithm = 15, k_PublicKey = [0, 0, 1] @ replicate 29 7\<rparr>)],
      v_keyCache = []\<rparr> ''.'' [ex_dnskey] [ex_rrsig] [] [] = Inr [(1040, ex_key)]"
proof -
  let ?v = "\<lparr>v_anchors = [(1040, \<lparr>k_Flags = 257, k_Protocol = 3, k_Algorithm = 15,
      k_PublicKey = [0, 0, 1] @ replicate 29 7\<rparr>)], v_keyCache = []\<rparr>"
  let ?w = "\<lparr>v_anchors = [(1040, ex_key)], v_keyCache = []\<rparr>"
  have "fst ` set (v_anchors ?v) = fst ` set (v_anchors ?w)" "isRootZone ''.''" by (simp_all add: isRootZone_def)
  from root_anchor_keys_ignored [OF this]
  have "ValidateZoneDNSKEY ex_crypto (\<lambda>_. 0) ?v ''.'' [ex_dnskey] [ex_rrsig] [] [] =
      ValidateZoneDNSKEY ex_crypto (\<lambda>_. 0) ?w ''.'' [ex_dnskey] [ex_rrsig] [] []" .
  also have "\<dots> = Inr [(1040, ex_key)]" by code_simp
  finally show ?thesis .
qed

text \<open>The table of the base64 digits, so that the anchors decode quickly.\<close>

lemma b64_vals:
  "b64_val CHR ''A'' = Some 0" "b64_val CHR ''B'' = Some 1" "b64_val CHR ''C'' = Some 2" "b64_val CHR ''D'' = Some 3"
  "b64_val CHR ''E'' = Some 4" "b64_val CHR ''F'' = Some 5" "b64_val CHR ''G'' = Some 6" "b64_val CHR ''H'' = Some 7"
  "b64_val CHR ''I'' = Some 8" "b64_val CHR ''J'' = Some 9" "b64_val CHR ''K'' = Some 10" "b64_val CHR ''L'' = Some 11"
  "b64_val CHR ''M'' = Some 12" "b64_val CHR ''N'' = Some 13" "b64_val CHR ''O'' = Some 14" "b64_val CHR ''P'' = Some 15"
  "b64_val CHR ''Q'' = Some 16" "b64_val CHR ''R'' = Some 17" "b64_val CHR ''S'' = Some 18" "b64_val CHR ''T'' = Some 19"
  "b64_val CHR ''U'' = Some 20" "b64_val CHR ''V'' = Some 21" "b64_val CHR ''W'' = Some 22" "b64_val CHR ''X'' = Some 23"
  "b64_val CHR ''Y'' = Some 24" "b64_val CHR ''Z'' = Some 25" "b64_val CHR ''a'' = Some 26" "b64_val CHR ''b'' = Some 27"
  "b64_val CHR ''c'' = Some 28" "b64_val CHR ''d'' = Some 29" "b64_val CHR ''e'' = Some 30" "b64_val CHR ''f'' = Some 31"
  "b64_val CHR ''g'' = Some 32" "b64_val CHR ''h'' = Some 33" "b64_val CHR ''i'' = Some 34" "b64_val CHR ''j'' = Some 35"
  "b64_val CHR ''k'' = Some 36" "b64_val CHR ''l'' = Some 37" "b64_val CHR ''m'' = Some 38" "b64_val CHR ''n'' = Some 39"
  "b64_val CHR ''o'' = Some 40" "b64_val CHR ''p'' = Some 41" "b64_val CHR ''q'' = Some 42" "b64_val CHR ''r'' = Some 43"
  "b64_val CHR ''s'' = Some 44" "b64_val CHR ''t'' = Some 45" "b64_val CHR ''u'' = Some 46" "b64_val CHR ''v'' = Some 47"
  "b64_val CHR ''w'' = Some 48" "b64_val CHR ''x'' = Some 49" "b64_val CHR ''y'' = Some 50" "b64_val CHR ''z'' = Some 51"
  "b64_val CHR ''0'' = Some 52" "b64_val CHR ''1'' = Some 53" "b64_val CHR ''2'' = Some 54" "b64_val CHR ''3'' = Some 55"
  "b64_val CHR ''4'' = Some 56" "b64_val CHR ''5'' = Some 57" "b64_val CHR ''6'' = Some 58" "b64_val CHR ''7'' = Some 59"
  "b64_val CHR ''8'' = Some 60" "b64_val CHR ''9'' = Some 61" "b64_val CHR ''+'' = Some 62" "b64_val CHR ''/'' = Some 63"
  by (simp_all add: b64_val_def)

lemma anchor_2017:
  "map_option (\<lambda>pk. (KeyTag \<lparr>k_Flags = 257, k_Protocol = 3, k_Algorithm = 8, k_PublicKey = pk\<rparr>, length pk))
     (b64_decode ksk2017) = Some (20326, 260)"
  by (simp add: b64_decode_def ksk2017_def b64_vals KeyTag_def dnskeyRdata_def put16_def Let_def)

lemma anchor_2024:
  "map_option (\<lambda>pk. (KeyTag \<lparr>k_Flags = 257, k_Protocol = 3, k_Algorithm = 8, k_PublicKey = pk\<rparr>, length pk))
     (b64_decode ksk2024) = Some (38696, 260)"
  by (simp add: b64_decode_def ksk2024_def b64_vals KeyTag_def dnskeyRdata_def put16_def Let_def)

text \<open>
  The built-in trust anchors decode, and the validator files them under 20326 and 38696, the
  tags IANA publishes for the root's key signing keys of 2017 and 2024.
\<close>

theorem root_anchor_tags:
  "map_option (\<lambda>v. map (\<lambda>(tag, k). (tag, length (k_PublicKey k))) (v_anchors v)) NewValidator =
     Some [(20326, 260), (38696, 260)]"
  using anchor_2017 anchor_2024 by (auto simp: NewValidator_def rootTrustAnchors_def)

end
