(* ===== verification/Zones.thy ===== *)
theory Zones
  imports Config Domains DnsPack
begin

text \<open>
  The helpers of \<open>internal/server/resolver.go\<close> that do not use the network: the table of
  forwarded zones, the zone arithmetic of the DNSSEC walk, the selection of records from a
  response, and the messages that the resolver assembles.
\<close>

subsection \<open>Forwarded zones\<close>

definition zone_step :: "string \<Rightarrow> ZoneConfig option \<times> nat \<Rightarrow> ZoneConfig \<Rightarrow> ZoneConfig option \<times> nat" where
  "zone_step name acc z =
     (case acc of (best, bestLen) \<Rightarrow>
        let domain = norm_name (zn_Domain z)
        in if (name = domain \<or> has_suffix name (''.'' @ domain)) \<and> bestLen < length domain
           then (Some z, length domain) else (best, bestLen))"

definition lookupZone :: "ZoneConfig list \<Rightarrow> string \<Rightarrow> ZoneConfig option" where
  "lookupZone zones name = fst (foldl (zone_step (norm_name name)) (None, 0) zones)"

subsection \<open>Zone arithmetic\<close>

definition isDescendantZone :: "string \<Rightarrow> string \<Rightarrow> bool" where
  "isDescendantZone child ancestor =
     (let child = norm_name child; ancestor = norm_name ancestor
      in if child = '''' \<or> child = ancestor then False
         else if ancestor = '''' then True
         else has_suffix child (''.'' @ ancestor))"

text \<open>The loop of \<open>zoneChain\<close> over the labels of the remainder, from the last to the first.\<close>

fun chain_loop :: "string \<Rightarrow> string list \<Rightarrow> string list" where
  "chain_loop current [] = []"
| "chain_loop current (l # ls) =
     (let current = (if current = '''' then l else l @ ''.'' @ current)
      in current # chain_loop current ls)"

definition zoneChain :: "string \<Rightarrow> string \<Rightarrow> string list" where
  "zoneChain parent target =
     (let parent = norm_name parent; target = norm_name target
      in if \<not> isDescendantZone target parent then []
         else
           let remainder = (if parent = '''' then target else trim_suffix target (''.'' @ parent))
           in chain_loop parent (rev (split_on CHR ''.'' remainder)))"

definition secDelegatedZone :: "message \<Rightarrow> string" where
  "secDelegatedZone m =
     (case find (\<lambda>rr. rr_type rr = TypeNS) (Authority m) of
        Some rr \<Rightarrow> norm_name (rr_name rr)
      | None \<Rightarrow> '''')"

definition secFilterType :: "RR list \<Rightarrow> u16 \<Rightarrow> RR list" where
  "secFilterType rrs t = filter (\<lambda>rr. rr_type rr = t) rrs"

definition secFilterTypeOwner :: "RR list \<Rightarrow> u16 \<Rightarrow> string \<Rightarrow> RR list" where
  "secFilterTypeOwner rrs t zone =
     filter (\<lambda>rr. rr_type rr = t \<and> norm_name (rr_name rr) = norm_name zone) rrs"

subsection \<open>Addresses\<close>

text \<open>
  \<open>split_ok addr\<close> tells whether \<open>net.SplitHostPort\<close> accepts the address.
\<close>

definition forwarderAddr :: "(string \<Rightarrow> bool) \<Rightarrow> string \<Rightarrow> string" where
  "forwarderAddr split_ok server = (if split_ok server then server else server @ '':53'')"

definition dotAddr :: "(string \<Rightarrow> bool) \<Rightarrow> string \<Rightarrow> string" where
  "dotAddr split_ok server =
     (let addr = trim_prefix server ''tls://''
      in if \<not> split_ok addr then addr @ '':853'' else addr)"

definition inflightKey :: "string \<Rightarrow> u16 \<Rightarrow> string" where
  "inflightKey name qtype = name @ '':'' @ dec_string (unat qtype)"

subsection \<open>Records of a response\<close>

definition extractNS :: "message \<Rightarrow> string list" where
  "extractNS m =
     concat (map (\<lambda>rr. if rr_type rr = TypeNS
                       then (case parseName (Raw m) (rr_offset rr) of
                               Inr (name, _) \<Rightarrow> [name] | Inl _ \<Rightarrow> [])
                       else []) (Authority m))"

text \<open>\<open>render\<close> is \<open>net.IP.String\<close> of the 16 bytes of an AAAA record.\<close>

definition extractGlue :: "(byte list \<Rightarrow> string) \<Rightarrow> message \<Rightarrow> string list \<Rightarrow> string list" where
  "extractGlue render m nsNames =
     concat (map (\<lambda>rr.
        if to_lower (rr_name rr) \<notin> set (map to_lower nsNames) then []
        else if rr_type rr = TypeA then
          (case ParseA (rr_data rr) of Some ip \<Rightarrow> [ip] | None \<Rightarrow> [])
        else if rr_type rr = TypeAAAA \<and> length (rr_data rr) = 16
        then [''['' @ render (rr_data rr) @ '']'']
        else []) (Additional m))"

definition parseCNAME :: "message \<Rightarrow> RR \<Rightarrow> name_error + string" where
  "parseCNAME m rr =
     (case parseName (Raw m) (rr_offset rr) of Inl e \<Rightarrow> Inl e | Inr (name, _) \<Rightarrow> Inr name)"

definition hasTerminalRecords :: "RR list \<Rightarrow> string \<Rightarrow> u16 \<Rightarrow> bool" where
  "hasTerminalRecords answers name qtype =
     list_ex (\<lambda>rr. rr_type rr = qtype \<and> equal_fold (rr_name rr) name) answers"

definition materializeRR :: "RR \<Rightarrow> byte list \<Rightarrow> RR" where
  "materializeRR rr raw =
     (let data =
        (if raw \<noteq> [] \<and> 12 \<le> rr_offset rr then
           if rr_type rr \<in> {TypeCNAME, TypeNS, TypePTR} then
             (case parseName raw (rr_offset rr) of Inr (name, _) \<Rightarrow> PackName name | Inl _ \<Rightarrow> rr_data rr)
           else if rr_type rr = TypeMX \<and> 2 \<le> length (rr_data rr) then
             (case parseName raw (rr_offset rr + 2) of
                Inr (name, _) \<Rightarrow> take 2 (rr_data rr) @ PackName name
              | Inl _ \<Rightarrow> rr_data rr)
           else rr_data rr
         else rr_data rr)
      in rr\<lparr>rr_data := data, rr_offset := 0\<rparr>)"

text \<open>The answer has the header of the inner message and no questions, authority or packet.\<close>

definition prependCNAME :: "message \<Rightarrow> RR \<Rightarrow> message \<Rightarrow> message" where
  "prependCNAME cnameMsg cnameRR inner =
     header.extend (header.truncate inner)
       (message.fields [] (materializeRR cnameRR (Raw cnameMsg) #
          map (\<lambda>rr. materializeRR rr (Raw inner)) (Answers inner)) [] [] [])"

text \<open>\<open>buildQuery\<close>; the random ID is an argument, the callers overwrite it.\<close>

definition buildQuery :: "Config \<Rightarrow> u16 \<Rightarrow> string \<Rightarrow> u16 \<Rightarrow> message" where
  "buildQuery cfg rnd name qtype =
     (let rs = cfg_Resolver cfg;
          req = (SetRD False (empty_message\<lparr>ID := rnd\<rparr>))
                  \<lparr>Questions := [\<lparr>q_name = name, q_type = qtype, q_class = ClassIN\<rparr>]\<rparr>
      in if rs_EDNS0 rs \<or> rs_DNSSEC rs
         then req\<lparr>Additional := [\<lparr>rr_name = '''', rr_type = 41, rr_class = 4096,
                rr_ttl = (if rs_DNSSEC rs then 0x8000 else 0), rr_data = [], rr_offset = 0\<rparr>]\<rparr>
         else req)"

subsection \<open>The most specific zone\<close>

text \<open>A zone entry covers a name that is the zone's domain or below it.\<close>

definition covers :: "string \<Rightarrow> ZoneConfig \<Rightarrow> bool" where
  "covers name z \<longleftrightarrow> norm_name (zn_Domain z) \<in> set (name_and_parents (norm_name name))"

definition zone_len :: "ZoneConfig \<Rightarrow> nat" where
  "zone_len z = length (norm_name (zn_Domain z))"

lemma covers_test:
  "covers name z \<longleftrightarrow>
     norm_name name = norm_name (zn_Domain z) \<or> has_suffix (norm_name name) (''.'' @ norm_name (zn_Domain z))"
  by (simp add: covers_def in_name_and_parents)

lemma zone_step_snoc:
  "foldl (zone_step (norm_name name)) acc (zs @ [z]) =
     zone_step (norm_name name) (foldl (zone_step (norm_name name)) acc zs) z"
  by simp

definition best_zone :: "string \<Rightarrow> ZoneConfig list \<Rightarrow> ZoneConfig option \<times> nat \<Rightarrow> bool" where
  "best_zone name zs acc \<longleftrightarrow>
     (case acc of
        (None, n) \<Rightarrow> n = 0 \<and> (\<forall>z \<in> set zs. covers name z \<longrightarrow> zone_len z = 0)
      | (Some b, n) \<Rightarrow> b \<in> set zs \<and> covers name b \<and> n = zone_len b \<and> 0 < n \<and>
          (\<forall>z \<in> set zs. covers name z \<longrightarrow> zone_len z \<le> n))"

lemma best_zone_fold: "best_zone name zs (foldl (zone_step (norm_name name)) (None, 0) zs)"
proof (induction zs rule: rev_induct)
  case Nil
  then show ?case by (simp add: best_zone_def)
next
  case (snoc z zs)
  obtain b n where acc: "foldl (zone_step (norm_name name)) (None, 0) zs = (b, n)" by fastforce
  have step: "zone_step (norm_name name) (b, n) z =
      (if covers name z \<and> n < zone_len z then (Some z, zone_len z) else (b, n))"
    by (simp add: zone_step_def covers_test zone_len_def Let_def)
  from snoc have "best_zone name zs (b, n)" by (simp add: acc)
  then have "best_zone name (zs @ [z]) (zone_step (norm_name name) (b, n) z)"
    unfolding step best_zone_def by (auto split: option.splits)
  then show ?case by (simp add: acc)
qed

text \<open>
  C28: a query goes to the servers of the most specific configured zone. The zone that
  \<open>lookupZone\<close> returns is configured and contains the name at a label boundary, no longer zone
  does, and it returns none only if no zone (the root apart, which it never selects) does.
\<close>

theorem lookupZone_most_specific:
  "case lookupZone zones name of
     Some b \<Rightarrow> b \<in> set zones \<and> covers name b \<and> zone_len b \<noteq> 0 \<and>
       list_all (\<lambda>z. \<not> (covers name z \<and> zone_len b < zone_len z)) zones
   | None \<Rightarrow> list_all (\<lambda>z. \<not> (covers name z \<and> zone_len z \<noteq> 0)) zones"
  using best_zone_fold [of name zones]
  by (auto simp: lookupZone_def best_zone_def list_all_iff not_less split: option.splits prod.splits)

subsection \<open>The chain of zones between two zones\<close>

lemma chain_loop_append: "chain_loop c (ls @ [l]) =
  (let d = (if chain_loop c ls = [] then c else last (chain_loop c ls))
   in chain_loop c ls @ [if d = '''' then l else l @ ''.'' @ d])"
  by (induction c ls rule: chain_loop.induct) (simp_all add: Let_def)

text \<open>Extending a non-empty zone by labels, the one next to the zone first.\<close>

lemma chain_loop_labels:
  assumes "ls \<noteq> []" "parent = '''' \<longrightarrow> last ls \<noteq> ''''"
  shows "chain_loop parent (rev ls) =
    rev (map (\<lambda>i. join_with CHR ''.'' (drop i ls @ (if parent = '''' then [] else [parent])))
           [0..<length ls]) \<and>
    last (chain_loop parent (rev ls)) \<noteq> ''''"
  using assms
proof (induction ls)
  case (Cons l ls)
  show ?case
  proof (cases "ls = []")
    case True
    with Cons.prems show ?thesis by simp
  next
    case False
    define tl' where "tl' = (if parent = '''' then [] else [parent])"
    have "parent = '''' \<longrightarrow> last ls \<noteq> ''''" using Cons.prems(2) False by simp
    note IH0 = Cons.IH [OF False this, folded tl'_def]
    note IH = conjunct1 [OF IH0] conjunct2 [OF IH0]
    have ne: "chain_loop parent (rev ls) \<noteq> []" using IH(1) False by simp
    have "last (chain_loop parent (rev ls)) = join_with CHR ''.'' (ls @ tl')"
      using False by (simp add: IH(1) last_rev hd_map)
    then have snoc: "chain_loop parent (rev (l # ls)) =
        chain_loop parent (rev ls) @ [join_with CHR ''.'' (l # ls @ tl')]"
      using ne IH(2) False by (simp add: chain_loop_append Let_def join_with_Cons)
    have "chain_loop parent (rev ls) @ [join_with CHR ''.'' (l # ls @ tl')] =
        rev (map (\<lambda>i. join_with CHR ''.'' (drop i (l # ls) @ tl')) [0..<length (l # ls)])"
      unfolding IH(1) list.size(4) add_Suc_right add_0_right upt_Suc_shift by simp
    from trans [OF snoc this] have "chain_loop parent (rev (l # ls)) =
        rev (map (\<lambda>i. join_with CHR ''.'' (drop i (l # ls) @ tl')) [0..<length (l # ls)])" .
    moreover have "join_with CHR ''.'' (l # ls @ tl') \<noteq> ''''"
      using False by (simp add: join_with_Cons)
    then have "last (chain_loop parent (rev (l # ls))) \<noteq> ''''" unfolding snoc last_snoc .
    ultimately show ?thesis unfolding tl'_def by (rule conjI)
  qed
qed simp

text \<open>The labels of a zone; the root has none.\<close>

definition zone_labels :: "string \<Rightarrow> nat" where
  "zone_labels z = (if z = '''' then 0 else length (split_on CHR ''.'' z))"

lemma norm_name_norm [simp]: "is_ascii s \<Longrightarrow> last s \<noteq> CHR ''.'' \<Longrightarrow> norm_name s = to_lower s"
  by (cases "s = []") (simp_all add: norm_name_def trim_suffix_none suffix_dot_iff)

lemma isDescendantZone_norm:
  assumes "norm_name t = t" "norm_name p = p" "isDescendantZone t p" "p \<noteq> ''''"
  obtains r where "t = r @ CHR ''.'' # p"
proof -
  from assms have "has_suffix t (CHR ''.'' # p)"
    by (simp add: isDescendantZone_def Let_def split: if_splits)
  then show thesis using that by (auto simp: has_suffix_def suffix_def)
qed

text \<open>
  The walk from a zone to a zone below it visits every zone in between, one label at a time
  and in order: the chain holds the target and its parents below the start, from the one next
  to the start down to the target itself.
\<close>

theorem zoneChain_parents:
  assumes "norm_name t = t" "norm_name p = p" "isDescendantZone t p"
    and "last (split_on CHR ''.'' t) \<noteq> ''''"
  shows "zoneChain p t = rev (take (zone_labels t - zone_labels p) (name_and_parents t)) \<and>
    zoneChain p t \<noteq> [] \<and> last (zoneChain p t) = t"
proof -
  define ls where "ls = split_on CHR ''.'' (if p = '''' then t else trim_suffix t (CHR ''.'' # p))"
  have t: "t \<noteq> ''''" using assms(3) by (auto simp: isDescendantZone_def norm_name_def Let_def trim_suffix_def)
  have chain: "zoneChain p t = chain_loop p (rev ls)"
    using assms by (simp add: zoneChain_def Let_def ls_def)
  have split: "split_on CHR ''.'' t = ls @ (if p = '''' then [] else split_on CHR ''.'' p)"
  proof (cases "p = ''''")
    case False
    from isDescendantZone_norm [OF assms(1-3) this] obtain r where "t = r @ CHR ''.'' # p" by blast
    then show ?thesis using False by (simp add: ls_def split_on_append_dot)
  qed (simp add: ls_def)
  have ls: "ls \<noteq> []" by (simp add: ls_def)
  have "p = '''' \<longrightarrow> last ls \<noteq> ''''"
  proof
    assume "p = ''''"
    with assms(4) split show "last ls \<noteq> ''''" by simp
  qed
  note loop = chain_loop_labels [OF ls this]
  have n: "zone_labels t - zone_labels p = length ls"
    using t by (simp add: zone_labels_def split)
  have parents: "take (length ls) (name_and_parents t) =
      map (\<lambda>i. join_with CHR ''.'' (drop i (split_on CHR ''.'' t))) [0..<length ls]"
    by (simp add: name_and_parents_def Let_def take_map split)
  have join: "join_with CHR ''.'' (drop i ls @ (if p = '''' then [] else [p])) =
      join_with CHR ''.'' (drop i (split_on CHR ''.'' t))" if "i < length ls" for i
    using that by (simp add: split join_append join_split)
  have "zoneChain p t = rev (take (length ls) (name_and_parents t))"
    unfolding chain parents using conjunct1 [OF loop] join by (simp cong: map_cong)
  moreover have "hd (name_and_parents t) = t"
    by (simp add: name_and_parents_def Let_def hd_map join_split)
  ultimately show ?thesis
    using ls by (simp add: n last_rev) (metis hd_take length_greater_0_conv length_name_and_parents list.size(3) split_on_not_Nil)
qed

lemma zoneChain_parents_witness:
  "zoneChain ''com'' ''a.b.com'' = [''b.com'', ''a.b.com'']"
proof -
  have "norm_name ''a.b.com'' = ''a.b.com''" "norm_name ''com'' = ''com''"
    "isDescendantZone ''a.b.com'' ''com''" "last (split_on CHR ''.'' ''a.b.com'') \<noteq> ''''" by code_simp+
  from zoneChain_parents [OF this]
  have "zoneChain ''com'' ''a.b.com'' =
      rev (take (zone_labels ''a.b.com'' - zone_labels ''com'') (name_and_parents ''a.b.com''))" by blast
  also have "\<dots> = [''b.com'', ''a.b.com'']" by code_simp
  finally show ?thesis .
qed

end
