(* ===== verification/ZoneKeys.thy ===== *)
theory ZoneKeys
  imports ChainOfTrust Zones
begin

text \<open>
  The validator's cache of zone keys as an interpretation of \<open>expiring_store\<close>, and the panic
  that a malformed SOA record provokes in the verifier.
\<close>

subsection \<open>The key cache\<close>

text \<open>
  The operations on the cache, in any interleaving: a lookup that finds expired keys deletes
  the entry in a second step (\<open>OpDropKeys\<close>), which may run after another goroutine stored new
  keys.
\<close>

datatype key_op =
  OpCacheKeys int string key_map u32
| OpLookupKeys int string
| OpDropKeys string

fun key_step :: "key_op \<Rightarrow> Validator \<Rightarrow> Validator" where
  "key_step (OpCacheKeys t zone keys ttl) v = CacheZoneKeys t zone keys ttl v"
| "key_step (OpLookupKeys t zone) v = snd (LookupZoneKeys t zone v)"
| "key_step (OpDropKeys zone) v = delete_zone zone v"

fun key_writes :: "Validator \<Rightarrow> key_op \<Rightarrow> (string \<times> cachedZone) option" where
  "key_writes v (OpCacheKeys t zone keys ttl) =
     Some (to_lower (fqdn zone),
       \<lparr>cz_keys = keys, cz_expiresAt = t + (if ttl = 0 then 3600 else uint ttl) * second\<rparr>)"
| "key_writes v (OpLookupKeys t zone) = None"
| "key_writes v (OpDropKeys zone) = None"

definition find_zone :: "Validator \<Rightarrow> string \<Rightarrow> cachedZone option" where
  "find_zone v k = map_of (v_keyCache v) k"

definition fresh_zone :: "int \<Rightarrow> cachedZone \<Rightarrow> bool" where
  "fresh_zone t cz \<longleftrightarrow> t \<le> cz_expiresAt cz"

definition read_zone :: "int \<Rightarrow> Validator \<Rightarrow> string \<Rightarrow> cachedZone option" where
  "read_zone t v k =
     (case find_zone v k of Some cz \<Rightarrow> if fresh_zone t cz then Some cz else None | None \<Rightarrow> None)"

lemma find_delete_zone:
  "find_zone (delete_zone zone v) k = (if k = to_lower (fqdn zone) then None else find_zone v k)"
  by (simp add: find_zone_def delete_zone_def map_of_delete)

lemma key_step_find:
  "find_zone (key_step op v) k = Some cz \<Longrightarrow>
   key_writes v op = Some (k, cz) \<or> (find_zone v k = Some cz \<and> (\<forall>w. key_writes v op \<noteq> Some (k, w)))"
proof (cases op)
  case (OpLookupKeys t zone)
  moreover have "snd (LookupZoneKeys t zone v) \<in> {v, delete_zone zone v}"
    by (auto simp: LookupZoneKeys_def split: option.split)
  ultimately show "find_zone (key_step op v) k = Some cz \<Longrightarrow> ?thesis"
    by (auto simp: find_delete_zone split: if_splits)
qed (auto simp: find_zone_def CacheZoneKeys_def Let_def map_of_update find_delete_zone [unfolded find_zone_def]
       split: if_splits)

interpretation zone_keys: expiring_store "\<lambda>_. True" find_zone key_step key_writes fresh_zone read_zone
proof unfold_locales
  show "find_zone (key_step op v) k = Some cz \<Longrightarrow>
      key_writes v op = Some (k, cz) \<or> (find_zone v k = Some cz \<and> (\<forall>w. key_writes v op \<noteq> Some (k, w)))"
    for v op k cz by (rule key_step_find)
qed (auto simp: read_zone_def split: option.splits if_splits)

lemma LookupZoneKeys_read:
  "fst (LookupZoneKeys t zone v) = map_option cz_keys (read_zone t v (to_lower (fqdn zone)))"
  by (auto simp: LookupZoneKeys_def read_zone_def find_zone_def fresh_zone_def split: option.split)

text \<open>
  Keys that the validator hands out for a zone were stored for that zone (up to letter case
  and the final dot) by the last operation of the whole history that stored keys for it, and
  they have not expired, under every interleaving of stores, lookups and late deletions.
\<close>

theorem LookupZoneKeys_provenance:
  assumes "v_keyCache v = []" "fst (LookupZoneKeys t zone (fold key_step ops v)) = Some keys"
  shows "case last_write key_step key_writes v ops (to_lower (fqdn zone)) of
      Some cz \<Rightarrow> cz_keys cz = keys \<and> t \<le> cz_expiresAt cz
    | None \<Rightarrow> False"
proof -
  from assms(2) obtain cz where "read_zone t (fold key_step ops v) (to_lower (fqdn zone)) = Some cz"
    and "cz_keys cz = keys" by (auto simp: LookupZoneKeys_read)
  with zone_keys.read_provenance [of v "to_lower (fqdn zone)" t ops cz] assms(1)
  show ?thesis by (simp add: find_zone_def fresh_zone_def)
qed

lemma LookupZoneKeys_provenance_witness:
  "last_write key_step key_writes \<lparr>v_anchors = [], v_keyCache = []\<rparr>
     [OpCacheKeys 0 ''com'' [] 60, OpCacheKeys 5 ''COM.'' [(1040, ex_key)] 60] ''com.'' =
   Some \<lparr>cz_keys = [(1040, ex_key)], cz_expiresAt = 60000000005\<rparr>"
proof -
  let ?v = "\<lparr>v_anchors = [], v_keyCache = []\<rparr>"
  let ?ops = "[OpCacheKeys 0 ''com'' [] 60, OpCacheKeys 5 ''COM.'' [(1040, ex_key)] 60]"
  have "v_keyCache ?v = []" "fst (LookupZoneKeys 1000 ''com'' (fold key_step ?ops ?v)) = Some [(1040, ex_key)]"
    by (simp, code_simp)
  from LookupZoneKeys_provenance [OF this]
  have "last_write key_step key_writes ?v ?ops (to_lower (fqdn ''com'')) \<noteq> None" by (auto split: option.splits)
  then show ?thesis by code_simp
qed

subsection \<open>The panic\<close>

lemma canonRdata_panics_only_on_SOA: "canonRdata rr raw = None \<Longrightarrow> rr_type rr = TypeSOA"
  by (auto simp: canonRdata_def split: if_splits sum.splits prod.splits)

text \<open>A response with an SOA record without rdata, followed by a signature over it.\<close>

definition soa_packet :: "byte list" where
  "soa_packet = [0, 7, 0x80, 0, 0, 0, 0, 2, 0, 0, 0, 0] @
     [0, 0, 6, 0, 1, 0, 0, 0, 9, 0, 0] @
     [0, 0, 46, 0, 1, 0, 0, 0, 9, 0, 19, 0, 6, 8, 0, 0, 0, 0, 9, 0xFF, 0xFF, 0xFF, 0xFF, 0, 0, 0, 0, 4, 16, 0]"

definition soa_message :: message where
  "soa_message = (case ParseMessage soa_packet of Inr m \<Rightarrow> m | Inl _ \<Rightarrow> empty_message)"

definition soa_rr :: RR where
  "soa_rr = \<lparr>rr_name = '''', rr_type = TypeSOA, rr_class = 1, rr_ttl = 9, rr_data = [], rr_offset = 23\<rparr>"

definition soa_sig :: RRSIG where
  "soa_sig = \<lparr>sg_TypeCovered = TypeSOA, sg_Algorithm = 8, sg_Labels = 0, sg_OrigTTL = 9,
     sg_Expiration = 0xFFFFFFFF, sg_Inception = 0, sg_KeyTag = 1040, sg_SignerName = ''.'', sg_Signature = []\<rparr>"

lemma soa_message_parts:
  "ParseMessage soa_packet = Inr soa_message"
  "secFilterType (Answers soa_message) TypeSOA = [soa_rr]"
  "map ParseRRSIG (secFilterType (Answers soa_message) TypeRRSIG) = [Inr soa_sig]"
  "map rr_type (secFilterType (Answers soa_message) TypeRRSIG) = [TypeRRSIG]"
  "buildSignedData soa_sig [soa_rr] (Raw soa_message) = None"
  by code_simp+

lemma VerifyRRSIG_soa:
  assumes "map_of keys 1040 = Some k" "k_Algorithm k = 8"
  shows "VerifyRRSIG c t keys [soa_rr] soa_sig (Raw soa_message) = Inl DnssecPanic"
proof -
  have "\<not> (0xFFFFFFFF :: u32) < w" for w
  proof -
    have "unat w < 2 ^ LENGTH(32)" by (rule unsigned_less)
    then show ?thesis by (simp add: word_less_nat_alt)
  qed
  moreover have "sg_Inception soa_sig = 0" "sg_Expiration soa_sig = 0xFFFFFFFF" "sg_KeyTag soa_sig = 1040"
    "sg_Algorithm soa_sig = 8" by (simp_all add: soa_sig_def)
  ultimately show ?thesis
    by (simp add: VerifyRRSIG_def soa_message_parts(5) assms Let_def)
qed

text \<open>
  C30: a response that the parser accepts can crash the verifier. The SOA record of the packet has
  no rdata, so the two names read at its offset lie outside it, and with them the slice of the
  rdata; whoever can answer for a zone whose keys the resolver knows triggers the panic, whatever
  the signature and at any time.
\<close>

theorem SOA_response_panics:
  assumes "map_of keys 1040 = Some k" "k_Algorithm k = 8"
  shows "ParseMessage soa_packet = Inr soa_message \<and>
    VerifyAnyRRSIG c clock keys (secFilterType (Answers soa_message) TypeSOA)
      (secFilterType (Answers soa_message) TypeRRSIG) TypeSOA (Raw soa_message) = Inl DnssecPanic"
proof -
  from soa_message_parts(3,4) obtain rr where rr: "secFilterType (Answers soa_message) TypeRRSIG = [rr]"
    "ParseRRSIG rr = Inr soa_sig" "rr_type rr = TypeRRSIG" by auto
  have "sg_TypeCovered soa_sig = TypeSOA" by (simp add: soa_sig_def)
  with VerifyRRSIG_soa [OF assms, of c "clock 0"] rr show ?thesis
    by (simp add: VerifyAnyRRSIG_def soa_message_parts(1,2))
qed

lemma SOA_response_panics_witness:
  "VerifyAnyRRSIG ex_crypto (\<lambda>_. 0) [(1040, ex_key\<lparr>k_Algorithm := 8\<rparr>)]
     (secFilterType (Answers soa_message) TypeSOA) (secFilterType (Answers soa_message) TypeRRSIG)
     TypeSOA (Raw soa_message) = Inl DnssecPanic"
  using SOA_response_panics [of "[(1040, ex_key\<lparr>k_Algorithm := 8\<rparr>)]"] by simp

end
