(* ===== verification/LocRecord.thy ===== *)
theory LocRecord
  imports GoEncoding Float64
begin

text \<open>
  LOC rdata as \<open>internal/records/records.go\<close> builds it (RFC 1876): degrees, minutes and seconds of
  both coordinates, an altitude and three sizes, from the fields of the configured value. The
  standard library's \<open>strconv.Atoi\<close> and \<open>strconv.ParseFloat\<close> are modelled on decimal numbers;
  what \<open>ParseFloat\<close> does with hexadecimal numbers, underscores, infinities and NaN is a
  constant of which nothing is known.
\<close>

subsection \<open>Numbers\<close>

definition atoi :: "string \<Rightarrow> int option" where
  "atoi s =
     (let (neg, ds) = (case s of
            c # r \<Rightarrow> if c = CHR ''-'' then (True, r) else if c = CHR ''+'' then (False, r) else (False, s)
          | [] \<Rightarrow> (False, s))
      in if ds = [] then None
         else case parse_dec 0 ds of
                None \<Rightarrow> None
              | Some n \<Rightarrow>
                  let i = (if neg then - int n else int n)
                  in if - (2 ^ 63) \<le> i \<and> i < 2 ^ 63 then Some i else None)"

definition unmodelled_float :: "string \<Rightarrow> rat option" where
  "unmodelled_float s = undefined s"

text \<open>The digits at the start of a string, and the rest.\<close>

definition take_digits :: "string \<Rightarrow> string \<times> string" where
  "take_digits s = (takeWhile (\<lambda>c. digit_val c \<noteq> None) s, dropWhile (\<lambda>c. digit_val c \<noteq> None) s)"

definition dec_nat :: "string \<Rightarrow> nat" where
  "dec_nat s = (case parse_dec 0 s of Some n \<Rightarrow> n | None \<Rightarrow> 0)"

text \<open>The exponent, after an \<open>e\<close>: an optional sign and at least one digit, to the end.\<close>

definition parse_exponent :: "string \<Rightarrow> int option" where
  "parse_exponent s =
     (let (neg, ds) = (case s of
            c # r \<Rightarrow> if c = CHR ''-'' then (True, r) else if c = CHR ''+'' then (False, r) else (False, s)
          | [] \<Rightarrow> (False, s))
      in if ds = [] then None
         else map_option (\<lambda>n. if neg then - int n else int n) (parse_dec 0 ds))"

definition parse_decimal :: "string \<Rightarrow> rat option" where
  "parse_decimal s =
     (let (ip, r) = take_digits s;
          (fp, r) = (case r of c # r' \<Rightarrow> if c = CHR ''.'' then take_digits r' else ([], r) | [] \<Rightarrow> ([], r));
          mant = of_nat (dec_nat (ip @ fp))
      in if ip @ fp = [] then None
         else case r of
                [] \<Rightarrow> Some (mant * 10 powi (- int (length fp)))
              | c # r' \<Rightarrow>
                  if c = CHR ''e'' \<or> c = CHR ''E''
                  then map_option (\<lambda>e. mant * 10 powi (e - int (length fp))) (parse_exponent r')
                  else None)"

text \<open>Letters other than the exponent's, and underscores, lead to the forms that are not modelled.\<close>

definition special_float :: "string \<Rightarrow> bool" where
  "special_float s \<longleftrightarrow>
     list_ex (\<lambda>c. c \<in> set ''_xXiInNpPaAfFtTyY'') s"

text \<open>The largest finite float rounds from below \<open>2 ^ 1024 - 2 ^ 970\<close>; above, \<open>ErrRange\<close>.\<close>

definition parse_float :: "string \<Rightarrow> rat option" where
  "parse_float s =
     (if special_float s then unmodelled_float s
      else
        let (neg, ds) = (case s of
              c # r \<Rightarrow> if c = CHR ''-'' then (True, r) else if c = CHR ''+'' then (False, r) else (False, s)
            | [] \<Rightarrow> (False, s))
        in case parse_decimal ds of
             None \<Rightarrow> None
           | Some q \<Rightarrow>
               if 2 ^ 1024 - 2 ^ 970 \<le> q then None
               else Some (round64 (if neg then - q else q)))"

text \<open>
  \<open>int64(f)\<close> truncates towards zero; outside the range of \<open>int64\<close> Go leaves the result to the
  implementation, and amd64 gives the smallest value.
\<close>

definition int64_of_float :: "rat \<Rightarrow> int" where
  "int64_of_float x =
     (let i = (if 0 \<le> x then \<lfloor>x\<rfloor> else \<lceil>x\<rceil>)
      in if - (2 ^ 63) \<le> i \<and> i < 2 ^ 63 then i else - (2 ^ 63))"

subsection \<open>Sizes\<close>

function loc_scale :: "int \<Rightarrow> nat \<Rightarrow> int \<times> nat" where
  "loc_scale cm e = (if 10 \<le> cm \<and> e < 9 then loc_scale (cm div 10) (e + 1) else (cm, e))"
  by pat_completeness auto
termination
  by (relation "measure (\<lambda>(cm, e). 9 - e)") auto

declare loc_scale.simps [simp del]

text \<open>\<open>mant << 4 | exp\<close>, two nibbles.\<close>

definition loc_cm_byte :: "int \<Rightarrow> byte" where
  "loc_cm_byte cm =
     (if cm \<le> 0 then 0
      else case loc_scale cm 0 of
             (mant, e) \<Rightarrow>
               let mant = (if 9 < mant then 9 else mant); mant = (if mant < 1 then 1 else mant)
               in of_int (mant * 16 + int e))"

definition locEncodeMeters :: "rat \<Rightarrow> byte" where
  "locEncodeMeters m = loc_cm_byte (int64_of_float (round64 (round64 (m * 100) + 1/2)))"

subsection \<open>Coordinates\<close>

datatype loc_error = LocEnd | LocNumber | LocHemisphere

definition isHemi :: "string \<Rightarrow> bool" where
  "isHemi s \<longleftrightarrow> to_upper s \<in> {''N'', ''S'', ''E'', ''W''}"

text \<open>\<open>get\<close>: the next field, and the fields that remain.\<close>

fun loc_get :: "string list \<Rightarrow> loc_error + (string \<times> string list)" where
  "loc_get [] = Inl LocEnd"
| "loc_get (s # f) = Inr (s, f)"

text \<open>The optional seconds, and the hemisphere, after the degrees and the minutes.\<close>

definition loc_hemi :: "int \<Rightarrow> int \<Rightarrow> int \<Rightarrow> string list \<Rightarrow>
    loc_error + ((int \<times> int \<times> int \<times> string) \<times> string list)" where
  "loc_hemi deg mn secMs f =
     (case loc_get f of
        Inl e \<Rightarrow> Inl e
      | Inr (s, f) \<Rightarrow>
          if isHemi (to_upper s) then Inr ((deg, mn, secMs, to_upper s), f) else Inl LocHemisphere)"

definition loc_seconds :: "int \<Rightarrow> int \<Rightarrow> string list \<Rightarrow>
    loc_error + ((int \<times> int \<times> int \<times> string) \<times> string list)" where
  "loc_seconds deg mn f =
     (case f of
        s # f' \<Rightarrow>
          if \<not> isHemi s then
            (case parse_float s of
               None \<Rightarrow> Inl LocNumber
             | Some sec \<Rightarrow> loc_hemi deg mn (int64_of_float (round64 (sec * 1000))) f')
          else loc_hemi deg mn 0 f
      | [] \<Rightarrow> loc_hemi deg mn 0 f)"

definition parseCoord :: "string list \<Rightarrow>
    loc_error + ((int \<times> int \<times> int \<times> string) \<times> string list)" where
  "parseCoord f =
     (case loc_get f of
        Inl e \<Rightarrow> Inl e
      | Inr (s, f) \<Rightarrow>
          (case atoi s of
             None \<Rightarrow> Inl LocNumber
           | Some deg \<Rightarrow>
               (case f of
                  s # f' \<Rightarrow>
                    if \<not> isHemi s then
                      (case atoi s of None \<Rightarrow> Inl LocNumber | Some mn \<Rightarrow> loc_seconds deg mn f')
                    else loc_hemi deg 0 0 f
                | [] \<Rightarrow> loc_hemi deg 0 0 f)))"

definition loc_meters :: "string \<Rightarrow> rat option" where
  "loc_meters s = parse_float (trim_suffix s ''m'')"

text \<open>The optional size and precisions: what is missing keeps its default.\<close>

fun loc_sizes :: "rat list \<Rightarrow> string list \<Rightarrow> rat list option" where
  "loc_sizes [] f = Some []"
| "loc_sizes (d # ds) [] = Some (d # ds)"
| "loc_sizes (d # ds) (s # f) =
     (case loc_meters s of None \<Rightarrow> None | Some m \<Rightarrow> map_option ((#) m) (loc_sizes ds f))"

definition loc_ms :: "int \<Rightarrow> int \<Rightarrow> int \<Rightarrow> u32" where
  "loc_ms deg mn secMs = of_int ((deg * 3600 + mn * 60) * 1000 + secMs)"

definition parseLOC :: "string \<Rightarrow> loc_error + byte list" where
  "parseLOC v =
     (case parseCoord (str_fields v) of
        Inl e \<Rightarrow> Inl e
      | Inr ((latD, latM, latSms, ns), f) \<Rightarrow>
     (case parseCoord f of
        Inl e \<Rightarrow> Inl e
      | Inr ((lonD, lonM, lonSms, ew), f) \<Rightarrow>
     (case loc_get f of
        Inl e \<Rightarrow> Inl e
      | Inr (altStr, f) \<Rightarrow>
     (case (loc_meters altStr, loc_sizes [1, 10000, 10] f) of
        (Some altM, Some [sizeM, hpM, vpM]) \<Rightarrow>
          let latMs = loc_ms latD latM latSms; lonMs = loc_ms lonD lonM lonSms;
              lat = (if ns = ''N'' then 0x80000000 + latMs else 0x80000000 - latMs);
              lon = (if ew = ''E'' then 0x80000000 + lonMs else 0x80000000 - lonMs);
              altCm = of_int (int64_of_float (round64 (altM * 100)) + 10000000)
          in Inr ([0, locEncodeMeters sizeM, locEncodeMeters hpM, locEncodeMeters vpM] @
                  put32 lat @ put32 lon @ put32 altCm)
      | _ \<Rightarrow> Inl LocNumber))))"

end
