(* ===== verification/RecordRdata.thy ===== *)
theory RecordRdata
  imports Config DnsPack LocRecord
begin

text \<open>
  Custom records of \<open>internal/records/records.go\<close>: the rdata that a configured value stands for,
  one definition per record type, as the cases of \<open>buildRR\<close>. \<open>RecordPanic\<close> is an index out of
  range; every other error is returned with a message.
\<close>

datatype record_error =
  InvalidAddress
| TXTTooLong
| FieldCount
| BadNumber
| BadEncoding
| BadLOC loc_error
| UnsupportedType
| RecordPanic

definition parseUint8 :: "string \<Rightarrow> record_error + byte" where
  "parseUint8 s = (case parse_uint 8 s of None \<Rightarrow> Inl BadNumber | Some n \<Rightarrow> Inr (of_nat n))"

definition parseUint16 :: "string \<Rightarrow> record_error + u16" where
  "parseUint16 s = (case parse_uint 16 s of None \<Rightarrow> Inl BadNumber | Some n \<Rightarrow> Inr (of_nat n))"

text \<open>Sequencing of results, and a decoder whose error is passed on.\<close>

definition bind_result :: "'e + 'a \<Rightarrow> ('a \<Rightarrow> 'e + 'b) \<Rightarrow> 'e + 'b" where
  "bind_result r f = (case r of Inl e \<Rightarrow> Inl e | Inr x \<Rightarrow> f x)"

lemma bind_result_simps [simp]: "bind_result (Inl e) f = Inl e" "bind_result (Inr x) f = f x"
  by (simp_all add: bind_result_def)

lemma bind_result_Inr: "bind_result r f = Inr y \<longleftrightarrow> (\<exists>x. r = Inr x \<and> f x = Inr y)"
  by (cases r) auto

definition decoded :: "byte list option \<Rightarrow> record_error + byte list" where
  "decoded r = (case r of None \<Rightarrow> Inl BadEncoding | Some bs \<Rightarrow> Inr bs)"

subsection \<open>The types\<close>

definition rdata_A :: "string \<Rightarrow> record_error + byte list" where
  "rdata_A v =
     (case Option.bind (ParseIP v) To4 of None \<Rightarrow> Inl InvalidAddress | Some ip \<Rightarrow> Inr ip)"

definition rdata_AAAA :: "string \<Rightarrow> record_error + byte list" where
  "rdata_AAAA v = (case ParseIP v of None \<Rightarrow> Inl InvalidAddress | Some ip \<Rightarrow> Inr ip)"

definition rdata_TXT :: "string \<Rightarrow> record_error + byte list" where
  "rdata_TXT v =
     (if 255 < length v then Inl TXTTooLong else Inr (of_nat (length v) # bytes_of v))"

text \<open>
  \<open>fmt.Sscanf(v, "%d %s", \<dots>)\<close> into a \<open>uint16\<close> and a string, on ASCII input: white space, digits,
  at least one space that is not a line feed, white space again and a run of other
  characters; a line feed where space is skipped is an error, what follows is ignored.
\<close>

definition scan_space :: "string \<Rightarrow> string option" where
  "scan_space s =
     (let r = dropWhile (\<lambda>c. ascii_space c \<and> of_char c \<noteq> (10 :: nat)) s
      in if r \<noteq> [] \<and> of_char (hd r) = (10 :: nat) then None else Some r)"

definition unicode_scan :: "string \<Rightarrow> (u16 \<times> string) option" where
  "unicode_scan s = undefined s"

definition scan_mx :: "string \<Rightarrow> (u16 \<times> string) option" where
  "scan_mx s =
     (if \<not> is_ascii s then unicode_scan s
      else case scan_space s of
        None \<Rightarrow> None
      | Some s \<Rightarrow>
          (case take_digits s of (ds, r) \<Rightarrow>
             if ds = [] \<or> 65535 < dec_nat ds then None
             else if r \<noteq> [] \<and> (\<not> ascii_space (hd r) \<or> of_char (hd r) = (10 :: nat)) then None
             else (case scan_space r of
                     None \<Rightarrow> None
                   | Some r \<Rightarrow>
                       if r = [] then None
                       else Some (of_nat (dec_nat ds), takeWhile (\<lambda>c. \<not> ascii_space c) r))))"

definition rdata_MX :: "string \<Rightarrow> record_error + byte list" where
  "rdata_MX v =
     (case scan_mx v of
        None \<Rightarrow> Inl FieldCount
      | Some (pref, target) \<Rightarrow> Inr (put16 pref @ PackName target))"

definition rdata_SRV :: "string \<Rightarrow> record_error + byte list" where
  "rdata_SRV v =
     (case str_fields v of
        [p, w, q, target] \<Rightarrow>
          bind_result (parseUint16 p) (\<lambda>prio.
          bind_result (parseUint16 w) (\<lambda>weight.
          bind_result (parseUint16 q) (\<lambda>port.
            Inr (put16 prio @ put16 weight @ put16 port @ PackName target))))
      | _ \<Rightarrow> Inl FieldCount)"

definition rdata_CAA :: "string \<Rightarrow> record_error + byte list" where
  "rdata_CAA v =
     (case split_n CHR '' '' 3 v of
        [f, tag, val] \<Rightarrow>
          bind_result (parseUint8 f) (\<lambda>fl.
            Inr ([fl, of_nat (length tag)] @ bytes_of tag @ bytes_of val))
      | _ \<Rightarrow> Inl FieldCount)"

definition rdata_CERT :: "string \<Rightarrow> record_error + byte list" where
  "rdata_CERT v =
     (case str_fields v of
        [t, k, a, d] \<Rightarrow>
          bind_result (parseUint16 t) (\<lambda>certType.
          bind_result (parseUint16 k) (\<lambda>keyTag.
          bind_result (parseUint8 a) (\<lambda>alg.
          bind_result (decoded (b64_decode d)) (\<lambda>certData.
            Inr (put16 certType @ put16 keyTag @ [alg] @ certData)))))
      | _ \<Rightarrow> Inl FieldCount)"

definition rdata_DNSKEY :: "string \<Rightarrow> record_error + byte list" where
  "rdata_DNSKEY v =
     (case str_fields v of
        [f, p, a, d] \<Rightarrow>
          bind_result (parseUint16 f) (\<lambda>fl.
          bind_result (parseUint8 p) (\<lambda>proto.
          bind_result (parseUint8 a) (\<lambda>alg.
          bind_result (decoded (b64_decode d)) (\<lambda>keyData.
            Inr (put16 fl @ [proto, alg] @ keyData)))))
      | _ \<Rightarrow> Inl FieldCount)"

definition rdata_DS :: "string \<Rightarrow> record_error + byte list" where
  "rdata_DS v =
     (case str_fields v of
        [k, a, t, d] \<Rightarrow>
          bind_result (parseUint16 k) (\<lambda>keyTag.
          bind_result (parseUint8 a) (\<lambda>alg.
          bind_result (parseUint8 t) (\<lambda>digestType.
          bind_result (decoded (hex_decode d)) (\<lambda>digest.
            Inr (put16 keyTag @ [alg, digestType] @ digest)))))
      | _ \<Rightarrow> Inl FieldCount)"

text \<open>\<open>strings.Fields(parts[1])[0]\<close> is out of range when only white space follows the priority.\<close>

definition rdata_SVCB :: "string \<Rightarrow> record_error + byte list" where
  "rdata_SVCB v =
     (case split_n CHR '' '' 2 v of
        [p, r] \<Rightarrow>
          bind_result (parseUint16 p) (\<lambda>prio.
            (case str_fields r of
               [] \<Rightarrow> Inl RecordPanic
             | target # _ \<Rightarrow> Inr (put16 prio @ PackName target)))
      | _ \<Rightarrow> Inl FieldCount)"

definition naptr_string :: "string \<Rightarrow> byte list" where
  "naptr_string s = (let s = (if s = ''.'' then '''' else s) in of_nat (length s) # bytes_of s)"

definition rdata_NAPTR :: "string \<Rightarrow> record_error + byte list" where
  "rdata_NAPTR v =
     (case str_fields v of
        o' # p # s1 # s2 # s3 # target # _ \<Rightarrow>
          bind_result (parseUint16 o') (\<lambda>ord.
          bind_result (parseUint16 p) (\<lambda>pref.
            Inr (put16 ord @ put16 pref @ naptr_string s1 @ naptr_string s2 @ naptr_string s3 @
                 PackName target)))
      | _ \<Rightarrow> Inl FieldCount)"

definition tlsaLike :: "string \<Rightarrow> record_error + byte list" where
  "tlsaLike v =
     (case str_fields v of
        [u, s, m, d] \<Rightarrow>
          bind_result (parseUint8 u) (\<lambda>usage.
          bind_result (parseUint8 s) (\<lambda>sel.
          bind_result (parseUint8 m) (\<lambda>mt.
          bind_result (decoded (hex_decode d)) (\<lambda>cert. Inr ([usage, sel, mt] @ cert)))))
      | _ \<Rightarrow> Inl FieldCount)"

definition rdata_SSHFP :: "string \<Rightarrow> record_error + byte list" where
  "rdata_SSHFP v =
     (case str_fields v of
        [a, t, d] \<Rightarrow>
          bind_result (parseUint8 a) (\<lambda>alg.
          bind_result (parseUint8 t) (\<lambda>fpType.
          bind_result (decoded (hex_decode d)) (\<lambda>fp. Inr ([alg, fpType] @ fp))))
      | _ \<Rightarrow> Inl FieldCount)"

definition rdata_URI :: "string \<Rightarrow> record_error + byte list" where
  "rdata_URI v =
     (case split_n CHR '' '' 3 v of
        [p, w, target] \<Rightarrow>
          bind_result (parseUint16 p) (\<lambda>prio.
          bind_result (parseUint16 w) (\<lambda>weight. Inr (put16 prio @ put16 weight @ bytes_of target)))
      | _ \<Rightarrow> Inl FieldCount)"

subsection \<open>Records\<close>

text \<open>The type number and the rdata that the upper-case type name selects.\<close>

definition build_rdata :: "string \<Rightarrow> string \<Rightarrow> record_error + (u16 \<times> byte list)" where
  "build_rdata t v =
     (let typed = (\<lambda>ty r. bind_result r (\<lambda>d. Inr (ty, d)))
      in if t = ''A'' then typed TypeA (rdata_A v)
         else if t = ''AAAA'' then typed TypeAAAA (rdata_AAAA v)
         else if t = ''CNAME'' then Inr (TypeCNAME, PackName v)
         else if t = ''PTR'' then Inr (TypePTR, PackName v)
         else if t = ''NS'' then Inr (TypeNS, PackName v)
         else if t = ''TXT'' then typed TypeTXT (rdata_TXT v)
         else if t = ''MX'' then typed TypeMX (rdata_MX v)
         else if t = ''SRV'' then typed TypeSRV (rdata_SRV v)
         else if t = ''CAA'' then typed TypeCAA (rdata_CAA v)
         else if t = ''CERT'' then typed TypeCERT (rdata_CERT v)
         else if t = ''DNSKEY'' then typed TypeDNSKEY (rdata_DNSKEY v)
         else if t = ''DS'' then typed TypeDS (rdata_DS v)
         else if t = ''HTTPS'' then typed TypeHTTPS (rdata_SVCB v)
         else if t = ''SVCB'' then typed TypeSVCB (rdata_SVCB v)
         else if t = ''LOC'' then
           (case parseLOC v of Inl e \<Rightarrow> Inl (BadLOC e) | Inr d \<Rightarrow> Inr (TypeLOC, d))
         else if t = ''NAPTR'' then typed TypeNAPTR (rdata_NAPTR v)
         else if t = ''OPENPGPKEY'' then typed TypeOPENPGPKEY (decoded (b64_decode v))
         else if t = ''SMIMEA'' then typed TypeSMIMEA (tlsaLike v)
         else if t = ''SSHFP'' then typed TypeSSHFP (rdata_SSHFP v)
         else if t = ''TLSA'' then typed TypeTLSA (tlsaLike v)
         else if t = ''URI'' then typed TypeURI (rdata_URI v)
         else Inl UnsupportedType)"

definition buildRR :: "RecordConfig \<Rightarrow> record_error + RR" where
  "buildRR r =
     bind_result (build_rdata (to_upper (rc_Type r)) (rc_Value r)) (\<lambda>(ty, d).
       Inr \<lparr>rr_name = rc_Name r, rr_type = ty, rr_class = ClassIN, rr_ttl = rc_TTL r,
            rr_data = d, rr_offset = 0\<rparr>)"

definition ValidateRecord :: "RecordConfig \<Rightarrow> record_error + unit" where
  "ValidateRecord r = bind_result (buildRR r) (\<lambda>_. Inr ())"

end
