(* ===== verification/RecordStore.thy ===== *)
theory RecordStore
  imports RecordRdata Domains
begin

text \<open>
  The record store of \<open>internal/records/records.go\<close>: the custom records by lower-case name, and
  the lookup with its one-label wildcard. The first theorem gives the answer as a function of
  the configuration alone.
\<close>

type_synonym RecordStore = "(string \<times> RR list) list"

definition add_record :: "RecordConfig \<Rightarrow> RecordStore \<Rightarrow> RecordStore" where
  "add_record r rs =
     (case buildRR r of
        Inl _ \<Rightarrow> rs
      | Inr rr \<Rightarrow>
          (let key = to_lower (rc_Name r);
               old = (case map_of rs key of Some l \<Rightarrow> l | None \<Rightarrow> [])
           in AList.update key (old @ [rr]) rs))"

text \<open>\<open>None\<close>: the panic of \<open>buildRR\<close> on one of the records.\<close>

definition NewRecordStore :: "RecordConfig list \<Rightarrow> RecordStore option" where
  "NewRecordStore rcs =
     (if list_ex (\<lambda>r. buildRR r = Inl RecordPanic) rcs then None else Some (fold add_record rcs []))"

definition filterByType :: "RR list \<Rightarrow> u16 \<Rightarrow> RR list" where
  "filterByType rrs qtype = filter (\<lambda>rr. rr_type rr = qtype) rrs"

definition rs_Lookup :: "RecordStore \<Rightarrow> string \<Rightarrow> u16 \<Rightarrow> RR list" where
  "rs_Lookup rs name qtype =
     (let key = norm_name name
      in case map_of rs key of
           Some rrs \<Rightarrow> filterByType rrs qtype
         | None \<Rightarrow>
             (case index_of CHR ''.'' key of
                None \<Rightarrow> []
              | Some idx \<Rightarrow>
                  (case map_of rs (''*.'' @ drop (idx + 1) key) of
                     None \<Rightarrow> []
                   | Some rrs \<Rightarrow> map (\<lambda>rr. rr\<lparr>rr_name := key\<rparr>) (filterByType rrs qtype))))"

subsection \<open>The store as a function of the configuration\<close>

text \<open>The valid records that are configured under a name, in order.\<close>

definition configured :: "RecordConfig list \<Rightarrow> string \<Rightarrow> RR list" where
  "configured rcs key =
     concat (map (\<lambda>r. if to_lower (rc_Name r) = key
                      then (case buildRR r of Inr rr \<Rightarrow> [rr] | Inl _ \<Rightarrow> []) else []) rcs)"

lemma map_of_add_record:
  "map_of (add_record r rs) key =
     (case buildRR r of
        Inr rr \<Rightarrow> if to_lower (rc_Name r) = key
                   then Some ((case map_of rs key of Some l \<Rightarrow> l | None \<Rightarrow> []) @ [rr]) else map_of rs key
      | Inl _ \<Rightarrow> map_of rs key)"
  by (auto simp: add_record_def Let_def map_of_update split: sum.split)

lemma map_of_store:
  "map_of (fold add_record rcs rs) key =
     (let new = configured rcs key
      in case map_of rs key of
           Some l \<Rightarrow> Some (l @ new)
         | None \<Rightarrow> if new = [] then None else Some new)"
proof (induction rcs arbitrary: rs)
  case Nil
  then show ?case by (simp add: configured_def split: option.split)
next
  case (Cons r rcs)
  have "configured (r # rcs) key =
      (if to_lower (rc_Name r) = key then (case buildRR r of Inr rr \<Rightarrow> [rr] | Inl _ \<Rightarrow> []) else []) @
      configured rcs key" by (simp add: configured_def)
  then show ?case
    by (auto simp: Cons.IH map_of_add_record Let_def split: option.split sum.split)
qed

lemma record_of_type: "rr \<in> set (filterByType rrs t) \<longleftrightarrow> rr \<in> set rrs \<and> rr_type rr = t"
  by (auto simp: filterByType_def)

text \<open>
  C33: a lookup answers from the configuration alone. If any valid record is configured under the
  queried name (any letter case, with or without a final dot), the answer is those of them
  that have the queried type, in the order of the configuration, and a wildcard is not consulted
  even when there is none of that type; otherwise the records of the wildcard that replaces
  exactly the first label are returned under the queried name.
\<close>

theorem Lookup_configured:
  assumes "NewRecordStore rcs = Some rs"
  shows "rs_Lookup rs name qtype =
    (let key = norm_name name; exact = configured rcs key
     in if exact \<noteq> [] then filter (\<lambda>rr. rr_type rr = qtype) exact
        else case split_on CHR ''.'' key of
               _ # label # labels \<Rightarrow>
                 map (\<lambda>rr. rr\<lparr>rr_name := key\<rparr>)
                   (filter (\<lambda>rr. rr_type rr = qtype)
                     (configured rcs (''*.'' @ join_with CHR ''.'' (label # labels))))
             | _ \<Rightarrow> [])"
proof -
  from assms have rs: "rs = fold add_record rcs []" by (auto simp: NewRecordStore_def split: if_splits)
  have store: "map_of rs key = (if configured rcs key = [] then None else Some (configured rcs key))" for key
    by (simp add: rs map_of_store Let_def)
  define key where "key = norm_name name"
  show ?thesis
  proof (cases "index_of CHR ''.'' key")
    case None
    then have "split_on CHR ''.'' key = [key]" by (simp add: index_of_None split_on_no_sep)
    with None show ?thesis
      by (simp add: rs_Lookup_def key_def [symmetric] store filterByType_def)
  next
    case (Some idx)
    from index_of_Some [OF this] have key: "key = take idx key @ CHR ''.'' # drop (idx + 1) key"
      and "CHR ''.'' \<notin> set (take idx key)"
      by (metis Suc_eq_plus1 id_take_nth_drop, simp)
    then have "split_on CHR ''.'' key = take idx key # split_on CHR ''.'' (drop (idx + 1) key)"
      using split_on_append by metis
    moreover obtain l ls where l: "split_on CHR ''.'' (drop (idx + 1) key) = l # ls"
      by (metis list.exhaust split_on_not_Nil)
    moreover have "join_with CHR ''.'' (l # ls) = drop (idx + 1) key"
      using join_split [of "CHR ''.''" "drop (idx + 1) key"] l by simp
    ultimately show ?thesis
      using Some by (simp add: rs_Lookup_def key_def [symmetric] store filterByType_def)
  qed
qed

definition ex_records :: "RecordConfig list" where
  "ex_records =
     [\<lparr>rc_Name = ''*.Lan'', rc_Type = ''a'', rc_TTL = 60, rc_Value = ''10.0.0.1''\<rparr>,
      \<lparr>rc_Name = ''NAS.lan'', rc_Type = ''txt'', rc_TTL = 60, rc_Value = ''hi''\<rparr>]"

lemma Lookup_configured_witness:
  "\<exists>rs. NewRecordStore ex_records = Some rs \<and> rs_Lookup rs ''nas.lan'' TypeA = [] \<and>
     map (\<lambda>rr. (rr_name rr, rr_data rr)) (rs_Lookup rs ''Tv.LAN.'' TypeA) = [(''tv.lan'', [10, 0, 0, 1])]"
proof -
  obtain rs where rs: "NewRecordStore ex_records = Some rs"
    by (cases "NewRecordStore ex_records") (simp add: NewRecordStore_def, code_simp, simp)
  have "filter (\<lambda>rr. rr_type rr = TypeA) (configured ex_records (norm_name ''nas.lan'')) = []"
    "configured ex_records (norm_name ''nas.lan'') \<noteq> []"
    "configured ex_records (norm_name ''Tv.LAN.'') = []"
    "norm_name ''Tv.LAN.'' = ''tv.lan''" "split_on CHR ''.'' ''tv.lan'' = [''tv'', ''lan'']"
    "map (\<lambda>rr. (rr_name rr, rr_data rr)) (map (\<lambda>rr. rr\<lparr>rr_name := ''tv.lan''\<rparr>)
      (filter (\<lambda>rr. rr_type rr = TypeA) (configured ex_records ''*.lan''))) = [(''tv.lan'', [10, 0, 0, 1])]"
    by code_simp+
  with rs show ?thesis by (intro exI [of _ rs]) (simp add: Lookup_configured [OF rs] Let_def)
qed

subsection \<open>The panic of the constructor\<close>

lemma not_panic_simps [simp]:
  "parseUint8 s \<noteq> Inl RecordPanic" "parseUint16 s \<noteq> Inl RecordPanic" "decoded r \<noteq> Inl RecordPanic"
  by (auto simp: parseUint8_def parseUint16_def decoded_def split: option.splits)

lemma bind_result_panic:
  "bind_result r f = Inl RecordPanic \<longleftrightarrow> r = Inl RecordPanic \<or> (\<exists>x. r = Inr x \<and> f x = Inl RecordPanic)"
  by (cases r) auto

lemmas rdata_defs = rdata_A_def rdata_AAAA_def rdata_TXT_def rdata_MX_def rdata_SRV_def rdata_CAA_def
  rdata_CERT_def rdata_DNSKEY_def rdata_DS_def rdata_NAPTR_def tlsaLike_def rdata_SSHFP_def rdata_URI_def

lemma rdata_no_panic [simp]:
  "rdata_A v \<noteq> Inl RecordPanic" "rdata_AAAA v \<noteq> Inl RecordPanic" "rdata_TXT v \<noteq> Inl RecordPanic"
  "rdata_MX v \<noteq> Inl RecordPanic" "rdata_SRV v \<noteq> Inl RecordPanic" "rdata_CAA v \<noteq> Inl RecordPanic"
  "rdata_CERT v \<noteq> Inl RecordPanic" "rdata_DNSKEY v \<noteq> Inl RecordPanic" "rdata_DS v \<noteq> Inl RecordPanic"
  "rdata_NAPTR v \<noteq> Inl RecordPanic" "tlsaLike v \<noteq> Inl RecordPanic" "rdata_SSHFP v \<noteq> Inl RecordPanic"
  "rdata_URI v \<noteq> Inl RecordPanic"
  by (auto simp: rdata_defs bind_result_panic split: list.split option.split)

text \<open>The values on which the target field of an HTTPS or SVCB record does not exist.\<close>

definition blank_target :: "string \<Rightarrow> bool" where
  "blank_target v \<longleftrightarrow>
     (case split_n CHR '' '' 2 v of
        [p, r] \<Rightarrow> parse_uint 16 p \<noteq> None \<and> str_fields r = []
      | _ \<Rightarrow> False)"

lemma rdata_SVCB_panic: "rdata_SVCB v = Inl RecordPanic \<longleftrightarrow> blank_target v"
  by (auto simp: rdata_SVCB_def blank_target_def bind_result_panic parseUint16_def split: list.split option.split)
    (metis neq_Nil_conv)+

text \<open>
  C34: building a custom record panics exactly on HTTPS and SVCB records whose value is a valid
  priority, a space and nothing but white space: one such entry in the configuration stops the
  server at start-up. No other type and no other value of any length makes it panic.
\<close>

theorem buildRR_panics_iff:
  "buildRR r = Inl RecordPanic \<longleftrightarrow>
     to_upper (rc_Type r) \<in> {''HTTPS'', ''SVCB''} \<and> blank_target (rc_Value r)"
proof -
  have "parseLOC v = Inl e \<Longrightarrow> BadLOC e \<noteq> RecordPanic" for v e by simp
  then show ?thesis
    by (auto simp: buildRR_def bind_result_panic build_rdata_def Let_def rdata_SVCB_panic
        split: if_splits sum.splits)
qed

subsection \<open>Sizes in LOC records\<close>

lemma loc_scale_spec:
  assumes "0 < cm" "loc_scale cm e = (m, e')" "e \<le> 9"
  shows "e \<le> e' \<and> e' \<le> 9 \<and> 1 \<le> m \<and> m * 10 ^ (e' - e) \<le> cm \<and> cm < (m + 1) * 10 ^ (e' - e) \<and>
    (m < 10 \<or> e' = 9)"
  using assms
proof (induction cm e rule: loc_scale.induct)
  case (1 cm e)
  show ?case
  proof (cases "10 \<le> cm \<and> e < 9")
    case False
    with 1 show ?thesis by (subst (asm) (2) loc_scale.simps) auto
  next
    case True
    with "1.prems"(2) have "loc_scale (cm div 10) (e + 1) = (m, e')" by (simp add: loc_scale.simps [of cm e])
    with 1 True have IH: "e + 1 \<le> e'" "e' \<le> 9" "1 \<le> m" "m * 10 ^ (e' - (e + 1)) \<le> cm div 10"
      "cm div 10 < (m + 1) * 10 ^ (e' - (e + 1))" "m < 10 \<or> e' = 9" by auto
    have p: "10 ^ (e' - e) = (10 :: int) * 10 ^ (e' - (e + 1))"
      using IH(1) by (metis Suc_diff_le Suc_eq_plus1 diff_Suc_Suc power_Suc)
    have "m * 10 ^ (e' - e) \<le> cm" using IH(4) unfolding p by linarith
    moreover have "cm < (m + 1) * 10 ^ (e' - e)" using IH(5) unfolding p by linarith
    ultimately show ?thesis using IH by simp
  qed
qed

text \<open>
  A size or precision of a LOC record is encoded to its leading decimal digit: for every
  positive number of centimetres below 100 000 km the two nibbles of the byte are a digit from 1
  to 9 and an exponent up to 9 (RFC 1876), and the size they stand for is the largest such value
  not above the original.
\<close>

theorem loc_cm_byte_digit:
  assumes "0 < cm" "cm < 10 ^ 10"
  shows "let b = loc_cm_byte cm; m = uint (drop_bit 4 b); e = unat (b AND 0x0F)
    in 1 \<le> m \<and> m \<le> 9 \<and> e \<le> 9 \<and> m * 10 ^ e \<le> cm \<and> cm < (m + 1) * 10 ^ e"
proof -
  obtain m e where me: "loc_scale cm 0 = (m, e)" by fastforce
  from loc_scale_spec [OF assms(1) this] have e: "e \<le> 9" "1 \<le> m" "m * 10 ^ e \<le> cm" "cm < (m + 1) * 10 ^ e"
    "m < 10 \<or> e = 9" by auto
  have m: "m \<le> 9"
  proof (cases "e = 9")
    case True
    with e(3) assms(2) show ?thesis by simp
  qed (use e(5) in simp)
  define k where "k = nat m"
  have k: "m = int k" "1 \<le> k" "k \<le> 9" using m e(2) by (simp_all add: k_def)
  have "loc_cm_byte cm = of_nat (k * 16 + e)"
    using assms(1) m e(2) k by (simp add: loc_cm_byte_def me)
  then have u: "unat (loc_cm_byte cm) = k * 16 + e" using k e(1) by (simp only: unat_of_nat) simp
  have "unat (drop_bit 4 (loc_cm_byte cm)) = k"
    using e(1) by (simp add: unat_drop_bit_eq u drop_bit_nat_def)
  then have "uint (drop_bit 4 (loc_cm_byte cm)) = m" by (metis k(1) uint_nat)
  moreover have "loc_cm_byte cm AND 0x0F = take_bit 4 (loc_cm_byte cm)"
    by (simp add: take_bit_eq_mask mask_eq_exp_minus_1)
  then have "unat (loc_cm_byte cm AND 0x0F) = e"
    using e(1) by (simp only: unsigned_take_bit_eq u) (simp add: take_bit_eq_mod)
  ultimately show ?thesis using e m by (simp add: Let_def)
qed

lemma loc_cm_byte_digit_witness:
  "let b = loc_cm_byte 12345; m = uint (drop_bit 4 b); e = unat (b AND 0x0F)
   in 1 \<le> m \<and> m \<le> 9 \<and> e \<le> 9 \<and> m * 10 ^ e \<le> 12345 \<and> 12345 < (m + 1) * 10 ^ e"
  by (rule loc_cm_byte_digit) simp_all

end
