(* ===== verification/Upstream.thy ===== *)
theory Upstream
  imports Zones ConnPool Cache Dnssec
begin

text \<open>
  Queries to upstream servers, from \<open>internal/server/resolver.go\<close>: over UDP, TCP, TLS and HTTPS.
  The state of the process that the resolver shares with other goroutines (cache, connection
  pools, validator) is the record \<open>world\<close>; whatever lies outside (the network, the clock,
  randomness) is a record of functions that may change the whole world, so that what other
  goroutines do while this one waits is covered. Errors are their texts, because the resolver
  decides by the text of an error what it caches.
\<close>

subsection \<open>The world\<close>

datatype transport = UDP | TCP | DoT

record 'n world =
  w_cache :: Cache
  w_pools :: "transport \<Rightarrow> connPool"
  w_val :: Validator
  w_rest :: 'n

text \<open>The reply to an HTTP request: an error, or status, body, and what went wrong while reading.\<close>

datatype http_reply = HttpError string | HttpReply nat "byte list" "string option"

text \<open>
  \<open>e_datagram\<close> writes a packet and reads one datagram, \<open>e_stream\<close> writes a packet and returns the
  bytes that arrive with the error that ends them; the texts of I/O errors include the prefix
  that the code gives them. \<open>e_pick\<close> tells which of two channels is ready first,
  \<open>e_share\<close> for which other queries goroutines hold the message of this reply, and the order in which
  they and this one take their steps on it.
\<close>

record 'n env =
  e_dial :: "transport \<Rightarrow> string \<Rightarrow> 'n world \<Rightarrow> (string + nat \<times> u16) \<times> 'n world"
  e_datagram :: "nat \<Rightarrow> byte list \<Rightarrow> 'n world \<Rightarrow> (string + byte list) \<times> 'n world"
  e_stream :: "transport \<Rightarrow> nat \<Rightarrow> byte list \<Rightarrow> 'n world \<Rightarrow> (string + byte list \<times> string) \<times> 'n world"
  e_http :: "string \<Rightarrow> byte list \<Rightarrow> 'n world \<Rightarrow> http_reply \<times> 'n world"
  e_clock :: "'n world \<Rightarrow> (nat \<Rightarrow> int) \<times> 'n world"
  e_now :: "'n world \<Rightarrow> int \<times> 'n world"
  e_rand :: "'n world \<Rightarrow> u16 \<times> 'n world"
  e_shuffle :: "string list \<Rightarrow> 'n world \<Rightarrow> string list \<times> 'n world"
  e_pick :: "'n world \<Rightarrow> bool \<times> 'n world"
  e_share :: "'n world \<Rightarrow> message list \<times> nat list"
  e_render :: "byte list \<Rightarrow> string"
  e_split_ok :: "string \<Rightarrow> bool"
  e_order :: range_order
  e_crypto :: crypto
  e_dnssec_text :: "dnssec_error \<Rightarrow> string"

subsection \<open>Texts\<close>

definition contains_str :: "string \<Rightarrow> string \<Rightarrow> bool" where
  "contains_str s t \<longleftrightarrow> list_ex (\<lambda>i. prefix t (drop i s)) [0..<Suc (length s)]"

definition hex_string :: "nat \<Rightarrow> string" where
  "hex_string n = (if n < 16 then [hex_digit n] else [hex_digit (n div 16), hex_digit (n mod 16)])"

fun name_error_text :: "name_error \<Rightarrow> string" where
  "name_error_text NameOutOfBounds = ''name parse: offset out of bounds''"
| "name_error_text NamePointerTruncated = ''name parse: pointer truncated''"
| "name_error_text NamePointerLoop = ''name parse: compression pointer loop''"
| "name_error_text (NameReservedLabel b) = ''name parse: reserved label type 0x'' @ hex_string (unat b)"
| "name_error_text NameLabelOutOfBounds = ''name parse: label out of bounds''"
| "name_error_text NameCompressed = ''name parse: unexpected compression''"
| "name_error_text NamePanic = ''''"

fun parse_error_text :: "parse_error \<Rightarrow> string" where
  "parse_error_text MessageTooShort = ''message too short''"
| "parse_error_text (QuestionNameError e) = ''question name: '' @ name_error_text e"
| "parse_error_text QuestionTruncated = ''question section truncated''"
| "parse_error_text (RRNameError e) = ''rr name: '' @ name_error_text e"
| "parse_error_text RRFixedTruncated = ''rr fixed fields truncated''"
| "parse_error_text RdataTruncated = ''rdata truncated''"
| "parse_error_text ParsePanic = ''''"

definition nx_text :: "string \<Rightarrow> string" where
  "nx_text name = ''NXDOMAIN: '' @ name @ '' does not exist''"

subsection \<open>Connections\<close>

definition get_conn ::
  "'n env \<Rightarrow> transport \<Rightarrow> string \<Rightarrow> 'n world \<Rightarrow> (string + pooledConn) \<times> 'n world" where
  "get_conn env tr server w =
     (if conns (w_pools w tr) server \<noteq> [] then
        (case pool_get (\<lambda>_. None) 0 server (w_pools w tr) of
           (Some pc, p) \<Rightarrow> (Inr pc, w\<lparr>w_pools := (w_pools w)(tr := p)\<rparr>)
         | (None, _) \<Rightarrow> (Inl '''', w))
      else
        (case e_dial env tr server w of
           (Inl e, w) \<Rightarrow> (Inl e, w)
         | (Inr (c, rnd), w) \<Rightarrow> (Inr \<lparr>pc_conn = c, pc_nextID = rnd, pc_lastUsed = 0\<rparr>, w)))"

definition put_conn ::
  "'n env \<Rightarrow> transport \<Rightarrow> string \<Rightarrow> pooledConn \<Rightarrow> bool \<Rightarrow> 'n world \<Rightarrow> 'n world" where
  "put_conn env tr server pc failed w =
     (case e_now env w of (t, w) \<Rightarrow>
        w\<lparr>w_pools := (w_pools w)(tr := fst (pool_put t server pc failed (w_pools w tr)))\<rparr>)"

subsection \<open>What the reply means\<close>

datatype verdict =
  Rejected string      \<comment> \<open>an error; the connection counts as failed\<close>
| Answered string      \<comment> \<open>an error that the server reported; the connection stays usable\<close>
| Truncated
| Accepted message

text \<open>
  The checks on a reply, with the texts that differ between the callers: the prefixes of parse
  and ID errors, and what stands around the server's name.
\<close>

definition check_reply ::
  "string \<Rightarrow> string \<Rightarrow> string \<Rightarrow> string \<Rightarrow> bool \<Rightarrow> u16 \<Rightarrow> string \<Rightarrow> string \<Rightarrow> byte list \<Rightarrow> verdict" where
  "check_reply parse_pre id_pre from_pre from_post retry reqID name server bytes =
     (case ParseMessage bytes of
        Inl e \<Rightarrow> Rejected (parse_pre @ parse_error_text e)
      | Inr resp \<Rightarrow>
          if ID resp \<noteq> reqID
          then Rejected (id_pre @ ''got '' @ dec_string (unat (ID resp)) @ '' want '' @ dec_string (unat reqID))
          else if Rcode resp = RcodeNXDomain then Answered (nx_text name)
          else if Rcode resp \<noteq> RcodeNoError
          then Answered (''rcode '' @ dec_string (unat (Rcode resp)) @ from_pre @ server @ from_post)
          else if Flags resp AND 0x0200 \<noteq> 0 \<and> retry then Truncated
          else Accepted resp)"

definition request :: "Config \<Rightarrow> bool \<Rightarrow> u16 \<Rightarrow> string \<Rightarrow> u16 \<Rightarrow> message" where
  "request cfg rd i name qtype = (let q = buildQuery cfg i name qtype in (SetRD rd q)\<lparr>ID := i\<rparr>)"

subsection \<open>Queries\<close>

definition next_id :: "pooledConn \<Rightarrow> pooledConn" where
  "next_id pc = pc\<lparr>pc_nextID := pc_nextID pc + 1\<rparr>"

definition stream_verdict ::
  "string \<Rightarrow> string \<Rightarrow> u16 \<Rightarrow> byte list \<Rightarrow> string \<Rightarrow> verdict" where
  "stream_verdict name server reqID bs e =
     (if length bs < 2 then Rejected (''tcp read length: '' @ e)
      else let n = unat (be16 bs 0)
           in if length bs < 2 + n then Rejected (''tcp read body: '' @ e)
              else check_reply ''tcp parse: '' ''tcp ID mismatch: '' '' from '' '' (tcp)'' False
                     reqID name server (slice bs 2 (2 + n)))"

definition queryTCPPool ::
  "'n env \<Rightarrow> Config \<Rightarrow> transport \<Rightarrow> string \<Rightarrow> string \<Rightarrow> u16 \<Rightarrow> 'n world \<Rightarrow> (string + message) \<times> 'n world" where
  "queryTCPPool env cfg tr server name qtype w =
     (case get_conn env tr server w of
        (Inl e, w) \<Rightarrow> (Inl (''tcp dial: '' @ e), w)
      | (Inr pc, w) \<Rightarrow>
          let packed = Pack (request cfg False (pc_nextID pc) name qtype)
          in case e_stream env tr (pc_conn pc) (put16 (of_nat (length packed)) @ packed) w of
               (Inl e, w) \<Rightarrow> (Inl e, put_conn env tr server (next_id pc) True w)
             | (Inr (bs, e), w) \<Rightarrow>
                 (case stream_verdict name server (pc_nextID pc) bs e of
                    Accepted resp \<Rightarrow> (Inr resp, put_conn env tr server (next_id pc) False w)
                  | Answered e \<Rightarrow> (Inl e, put_conn env tr server (next_id pc) False w)
                  | Rejected e \<Rightarrow> (Inl e, put_conn env tr server (next_id pc) True w)
                  | Truncated \<Rightarrow> (Inl '''', w)))"

definition queryTCP ::
  "'n env \<Rightarrow> Config \<Rightarrow> string \<Rightarrow> string \<Rightarrow> u16 \<Rightarrow> 'n world \<Rightarrow> (string + message) \<times> 'n world" where
  "queryTCP env cfg server name qtype w = queryTCPPool env cfg TCP server name qtype w"

definition queryDoT ::
  "'n env \<Rightarrow> Config \<Rightarrow> string \<Rightarrow> string \<Rightarrow> u16 \<Rightarrow> 'n world \<Rightarrow> (string + message) \<times> 'n world" where
  "queryDoT env cfg server name qtype w = queryTCPPool env cfg DoT server name qtype w"

text \<open>\<open>udpBufSize\<close>: a longer datagram is cut, as \<open>Read\<close> does.\<close>

definition udpBufSize :: nat where
  "udpBufSize = 4096"

text \<open>The common body of \<open>query\<close> and \<open>queryForwarder\<close>: they differ in texts and in the RD flag.\<close>

definition query_udp ::
  "(u16 \<Rightarrow> byte list \<Rightarrow> verdict) \<Rightarrow> bool \<Rightarrow> 'n env \<Rightarrow> Config \<Rightarrow> string \<Rightarrow> string \<Rightarrow> u16 \<Rightarrow>
   'n world \<Rightarrow> (string + message) \<times> 'n world" where
  "query_udp check rd env cfg server name qtype w =
     (case get_conn env UDP server w of
        (Inl e, w) \<Rightarrow> (Inl (''dial: '' @ e), w)
      | (Inr pc, w) \<Rightarrow>
          (case e_datagram env (pc_conn pc) (Pack (request cfg rd (pc_nextID pc) name qtype)) w of
             (Inl e, w) \<Rightarrow> (Inl e, put_conn env UDP server (next_id pc) True w)
           | (Inr dg, w) \<Rightarrow>
               (case check (pc_nextID pc) (take udpBufSize dg) of
                  Accepted resp \<Rightarrow> (Inr resp, put_conn env UDP server (next_id pc) False w)
                | Answered e \<Rightarrow> (Inl e, put_conn env UDP server (next_id pc) False w)
                | Rejected e \<Rightarrow> (Inl e, put_conn env UDP server (next_id pc) True w)
                | Truncated \<Rightarrow>
                    (case queryTCP env cfg server name qtype w of
                       (r, w) \<Rightarrow> (r, put_conn env UDP server (next_id pc) False w)))))"

definition query ::
  "'n env \<Rightarrow> Config \<Rightarrow> string \<Rightarrow> string \<Rightarrow> u16 \<Rightarrow> 'n world \<Rightarrow> (string + message) \<times> 'n world" where
  "query env cfg server name qtype w =
     query_udp (\<lambda>i. check_reply ''parse response: '' ''response ID mismatch: '' '' from '' ''''
                  (rs_TCPFallback (cfg_Resolver cfg)) i name server)
       False env cfg server name qtype w"

definition queryForwarder ::
  "'n env \<Rightarrow> Config \<Rightarrow> string \<Rightarrow> string \<Rightarrow> u16 \<Rightarrow> 'n world \<Rightarrow> (string + message) \<times> 'n world" where
  "queryForwarder env cfg server name qtype w =
     query_udp (\<lambda>i. check_reply ''parse: '' ''ID mismatch: '' '' from forwarder '' ''''
                  (rs_TCPFallback (cfg_Resolver cfg)) i name server)
       True env cfg server name qtype w"

definition doh_reply :: "string \<Rightarrow> string \<Rightarrow> http_reply \<Rightarrow> string + message" where
  "doh_reply url name r =
     (case r of
        HttpError e \<Rightarrow> Inl e
      | HttpReply status body readErr \<Rightarrow>
          if status \<noteq> 200
          then Inl (''doh http status '' @ dec_string status @ '' from '' @ url)
          else case readErr of
                 Some e \<Rightarrow> Inl (''doh read: '' @ e)
               | None \<Rightarrow>
                   (case ParseMessage (take 65535 body) of
                      Inl e \<Rightarrow> Inl (''doh parse: '' @ parse_error_text e)
                    | Inr resp \<Rightarrow>
                        if Rcode resp = RcodeNXDomain then Inl (nx_text name)
                        else if Rcode resp \<noteq> RcodeNoError
                        then Inl (''rcode '' @ dec_string (unat (Rcode resp)) @ '' from doh '' @ url)
                        else Inr resp))"

definition queryDoH ::
  "'n env \<Rightarrow> Config \<Rightarrow> string \<Rightarrow> string \<Rightarrow> u16 \<Rightarrow> 'n world \<Rightarrow> (string + message) \<times> 'n world" where
  "queryDoH env cfg url name qtype w =
     (case e_rand env w of (i, w) \<Rightarrow>
      (case e_http env url (Pack (request cfg True i name qtype)) w of (r, w) \<Rightarrow>
        (doh_reply url name r, w)))"

subsection \<open>Forwarding\<close>

definition query_upstream ::
  "'n env \<Rightarrow> Config \<Rightarrow> string \<Rightarrow> string \<Rightarrow> u16 \<Rightarrow> 'n world \<Rightarrow> (string + message) \<times> 'n world" where
  "query_upstream env cfg upstream name qtype w =
     (if has_prefix upstream ''https://'' then queryDoH env cfg upstream name qtype w
      else if has_prefix upstream ''tls://''
      then queryDoT env cfg (dotAddr (e_split_ok env) upstream) name qtype w
      else queryForwarder env cfg (forwarderAddr (e_split_ok env) upstream) name qtype w)"

primrec resolveViaServers ::
  "'n env \<Rightarrow> Config \<Rightarrow> string \<Rightarrow> u16 \<Rightarrow> string list \<Rightarrow> 'n world \<Rightarrow> (string + message) \<times> 'n world" where
  "resolveViaServers env cfg name qtype [] w = (Inl (''all forwarders failed for '' @ name), w)"
| "resolveViaServers env cfg name qtype (upstream # servers) w =
     (case query_upstream env cfg upstream name qtype w of
        (Inr msg, w) \<Rightarrow> (Inr msg, w)
      | (Inl e, w) \<Rightarrow>
          if contains_str e ''NXDOMAIN'' then (Inl e, w)
          else resolveViaServers env cfg name qtype servers w)"

definition resolveViaForwarder ::
  "'n env \<Rightarrow> Config \<Rightarrow> string \<Rightarrow> u16 \<Rightarrow> 'n world \<Rightarrow> (string + message) \<times> 'n world" where
  "resolveViaForwarder env cfg name qtype w =
     resolveViaServers env cfg name qtype (fw_Servers (rs_Forwarder (cfg_Resolver cfg))) w"

end
