(* ===== verification/Resolver.thy ===== *)
theory Resolver
  imports Upstream
begin

text \<open>
  Iterative resolution, from \<open>internal/server/resolver.go\<close>: \<open>resolveAt\<close> walks the referrals from
  the root servers down, follows CNAMEs and resolves the addresses of name servers. Its
  body is a definition over the recursive call one level deeper (\<open>rec\<close>), and the recursion
  stops at the configured depth. The goroutines of \<open>resolveNSParallel\<close> run here one after the
  other; the environment decides the order of their results and may change the world in
  between.
\<close>

definition RootServers :: "string list" where
  "RootServers =
     [''198.41.0.4'', ''170.247.170.2'', ''192.33.4.12'', ''199.7.91.13'', ''192.203.230.10'',
      ''192.5.5.241'', ''192.112.36.4'', ''198.97.190.53'', ''192.36.148.17'', ''192.58.128.30'',
      ''193.0.14.129'', ''199.7.83.42'', ''202.12.27.33'']"

type_synonym 'n resolution = "string \<Rightarrow> u16 \<Rightarrow> string list \<Rightarrow> 'n world \<Rightarrow> (string + message) \<times> 'n world"

subsection \<open>The cache\<close>

definition cache_negative :: "'n env \<Rightarrow> string \<Rightarrow> u16 \<Rightarrow> 'n world \<Rightarrow> bool \<times> 'n world" where
  "cache_negative env name qtype w =
     (case e_now env w of (t, w) \<Rightarrow> (IsNegative t name qtype (w_cache w), w))"

text \<open>The flag of \<open>Get\<close> that a prefetch was started is dropped: it runs in a goroutine of its own.\<close>

definition cache_get :: "'n env \<Rightarrow> Config \<Rightarrow> string \<Rightarrow> u16 \<Rightarrow> 'n world \<Rightarrow> message option \<times> 'n world" where
  "cache_get env cfg name qtype w =
     (case e_now env w of (t1, w) \<Rightarrow>
      case e_now env w of (t2, w) \<Rightarrow>
      case e_now env w of (t3, w) \<Rightarrow>
      (case Get t1 t2 t3 (cc_Prefetch (rs_Cache (cfg_Resolver cfg))) name qtype (w_cache w) of
         (r, _, c) \<Rightarrow> (r, w\<lparr>w_cache := c\<rparr>)))"

subsection \<open>Addresses of name servers\<close>

definition resolveNSAddr :: "'n resolution \<Rightarrow> 'n env \<Rightarrow> Config \<Rightarrow> string \<Rightarrow> u16 \<Rightarrow> 'n world \<Rightarrow>
    (string + message) \<times> 'n world" where
  "resolveNSAddr rec env cfg ns qtype w =
     (case cache_negative env ns qtype w of
        (True, w) \<Rightarrow> (Inl (nx_text ns), w)
      | (False, w) \<Rightarrow>
          (case cache_get env cfg ns qtype w of
             (Some cached, w) \<Rightarrow> (Inr cached, w)
           | (None, w) \<Rightarrow> rec ns qtype RootServers w))"

definition a_addresses :: "string + message \<Rightarrow> string list" where
  "a_addresses r =
     (case r of
        Inl _ \<Rightarrow> []
      | Inr m \<Rightarrow> concat (map (\<lambda>rr. if rr_type rr = TypeA
                     then (case ParseA (rr_data rr) of Some ip \<Rightarrow> [ip] | None \<Rightarrow> []) else []) (Answers m)))"

definition aaaa_addresses :: "(byte list \<Rightarrow> string) \<Rightarrow> string + message \<Rightarrow> string list" where
  "aaaa_addresses render r =
     (case r of
        Inl _ \<Rightarrow> []
      | Inr m \<Rightarrow> concat (map (\<lambda>rr. if rr_type rr = TypeAAAA \<and> length (rr_data rr) = 16
                     then [''['' @ render (rr_data rr) @ '']''] else []) (Answers m)))"

text \<open>One goroutine: the family that arrives first is used, unless it has no address.\<close>

definition resolve_ns :: "'n resolution \<Rightarrow> 'n env \<Rightarrow> Config \<Rightarrow> string \<Rightarrow> 'n world \<Rightarrow> string list \<times> 'n world" where
  "resolve_ns rec env cfg ns w =
     (case resolveNSAddr rec env cfg ns TypeA w of (ra, w) \<Rightarrow>
      case resolveNSAddr rec env cfg ns TypeAAAA w of (raaaa, w) \<Rightarrow>
      case e_pick env w of (a_first, w) \<Rightarrow>
        let a = a_addresses ra; aaaa = aaaa_addresses (e_render env) raaaa
        in (if a_first then (if a \<noteq> [] then a else aaaa) else (if aaaa \<noteq> [] then aaaa else a), w))"

primrec collect_ns :: "'n resolution \<Rightarrow> 'n env \<Rightarrow> Config \<Rightarrow> string list \<Rightarrow> string option \<Rightarrow> string list \<Rightarrow>
    'n world \<Rightarrow> (string option \<times> string list) \<times> 'n world" where
  "collect_ns rec env cfg allIPs lastErr [] w = ((lastErr, allIPs), w)"
| "collect_ns rec env cfg allIPs lastErr (ns # nss) w =
     (case resolve_ns rec env cfg ns w of (ips, w) \<Rightarrow>
        if ips = [] then collect_ns rec env cfg allIPs (Some (''no IPs found for NS '' @ ns)) nss w
        else collect_ns rec env cfg (allIPs @ ips) lastErr nss w)"

definition resolveNSParallel :: "'n resolution \<Rightarrow> 'n env \<Rightarrow> Config \<Rightarrow> string list \<Rightarrow> 'n world \<Rightarrow>
    (string + string list) \<times> 'n world" where
  "resolveNSParallel rec env cfg nsNames w =
     (case e_shuffle env nsNames w of (order, w) \<Rightarrow>
      (case collect_ns rec env cfg [] None order w of
         ((lastErr, allIPs), w) \<Rightarrow>
           (if allIPs = [] then
              (case lastErr of
                 Some e \<Rightarrow> Inl (''all NS resolutions failed: '' @ e)
               | None \<Rightarrow> Inl ''no IPs found for any NS'')
            else Inr allIPs, w)))"

subsection \<open>Answers\<close>

definition follow_cname :: "'n resolution \<Rightarrow> 'n env \<Rightarrow> Config \<Rightarrow> u16 \<Rightarrow> message \<Rightarrow> RR \<Rightarrow> 'n world \<Rightarrow>
    (string + message) \<times> 'n world" where
  "follow_cname rec env cfg qtype resp rr w =
     (case parseCNAME resp rr of
        Inl e \<Rightarrow> (Inl (''cname parse: '' @ name_error_text e), w)
      | Inr target \<Rightarrow>
          if hasTerminalRecords (Answers resp) target qtype then (Inr resp, w)
          else case cache_negative env target qtype w of
            (True, w) \<Rightarrow> (Inl (nx_text target), w)
          | (False, w) \<Rightarrow>
              (case cache_get env cfg target qtype w of
                 (Some cached, w) \<Rightarrow> (Inr (prependCNAME resp rr cached), w)
               | (None, w) \<Rightarrow>
                   (case rec target qtype RootServers w of
                      (Inl e, w) \<Rightarrow> (Inl e, w)
                    | (Inr inner, w) \<Rightarrow> (Inr (prependCNAME resp rr inner), w))))"

text \<open>The first CNAME of an answer, unless CNAMEs were asked for.\<close>

definition cname_of :: "u16 \<Rightarrow> message \<Rightarrow> RR option" where
  "cname_of qtype resp =
     (if qtype = TypeCNAME then None else find (\<lambda>rr. rr_type rr = TypeCNAME) (Answers resp))"

definition all_failed :: "string \<Rightarrow> string option \<Rightarrow> string" where
  "all_failed name lastErr =
     ''all servers failed for '' @ name @ '': '' @ (case lastErr of Some e \<Rightarrow> e | None \<Rightarrow> ''%!w(<nil>)'')"

primrec try_servers :: "'n resolution \<Rightarrow> 'n env \<Rightarrow> Config \<Rightarrow> string \<Rightarrow> u16 \<Rightarrow> string option \<Rightarrow> string list \<Rightarrow>
    'n world \<Rightarrow> (string + message) \<times> 'n world" where
  "try_servers rec env cfg name qtype lastErr [] w = (Inl (all_failed name lastErr), w)"
| "try_servers rec env cfg name qtype lastErr (sv # svs) w =
     (case query env cfg (sv @ '':53'') name qtype w of
        (Inl e, w) \<Rightarrow> try_servers rec env cfg name qtype (Some e) svs w
      | (Inr resp, w) \<Rightarrow>
          if Answers resp \<noteq> [] then
            (case cname_of qtype resp of
               Some rr \<Rightarrow> follow_cname rec env cfg qtype resp rr w
             | None \<Rightarrow> (Inr resp, w))
          else
            let nsNames = extractNS resp; glue = extractGlue (e_render env) resp nsNames
            in if nsNames = [] then (Inr resp, w)
               else if glue \<noteq> [] then rec name qtype glue w
               else case resolveNSParallel rec env cfg nsNames w of
                      (Inl e, w) \<Rightarrow> try_servers rec env cfg name qtype (Some e) svs w
                    | (Inr nsIPs, w) \<Rightarrow> rec name qtype nsIPs w)"

definition resolve_body :: "'n resolution \<Rightarrow> 'n env \<Rightarrow> Config \<Rightarrow> 'n resolution" where
  "resolve_body rec env cfg name qtype servers w =
     (case e_shuffle env servers w of (shuffled, w) \<Rightarrow> try_servers rec env cfg name qtype None shuffled w)"

function resolveAt :: "'n env \<Rightarrow> Config \<Rightarrow> nat \<Rightarrow> 'n resolution" where
  "resolveAt env cfg depth name qtype servers w =
     (if rs_MaxDepth (cfg_Resolver cfg) < int depth
      then (Inl (''max referral depth exceeded resolving '' @ name), w)
      else resolve_body (\<lambda>n q svs w. resolveAt env cfg (Suc depth) n q svs w) env cfg name qtype servers w)"
  by pat_completeness auto
termination
  by (relation "measure (\<lambda>(env, cfg, depth, _). nat (rs_MaxDepth (cfg_Resolver cfg) + 1 - int depth))") auto

declare resolveAt.simps [simp del]

end
