(* ===== verification/ResolverSec.thy ===== *)
theory ResolverSec
  imports Resolver
begin

text \<open>
  Resolution with DNSSEC, from \<open>internal/server/resolver.go\<close>: \<open>resolveAtDNSSEC\<close> walks the
  referrals with the keys of the zone it is in, checks signatures with them, and fetches and
  validates the keys of the zones below. A failure is an error text or a crash: the panic of
  the verifier is not recovered anywhere and ends the process.
\<close>

datatype failure = Failed string | Crashed

datatype ValidationStatus = StatusSecure | StatusInsecure | StatusBogus

record secCtx =
  sc_zone :: string
  sc_keys :: key_map

type_synonym 'n sec_resolution =
  "string \<Rightarrow> u16 \<Rightarrow> string list \<Rightarrow> secCtx \<Rightarrow> 'n world \<Rightarrow> ((failure + message) \<times> ValidationStatus) \<times> 'n world"

subsection \<open>Signatures\<close>

definition failure_of :: "'n env \<Rightarrow> dnssec_error \<Rightarrow> failure" where
  "failure_of env e = (if e = DnssecPanic then Crashed else Failed (e_dnssec_text env e))"

text \<open>\<open>fmt.Errorf("\<dots>: %w", err)\<close>: a crash passes through.\<close>

definition wrap :: "string \<Rightarrow> failure \<Rightarrow> failure" where
  "wrap pre f = (case f of Failed e \<Rightarrow> Failed (pre @ '': '' @ e) | Crashed \<Rightarrow> Crashed)"

definition verify_any ::
  "'n env \<Rightarrow> key_map \<Rightarrow> RR list \<Rightarrow> RR list \<Rightarrow> u16 \<Rightarrow> byte list \<Rightarrow> 'n world \<Rightarrow> failure option \<times> 'n world" where
  "verify_any env keys rrset rrsigs tc raw w =
     (case e_clock env w of (clock, w) \<Rightarrow>
        (case VerifyAnyRRSIG (e_crypto env) clock keys rrset rrsigs tc raw of
           Inr _ \<Rightarrow> None | Inl e \<Rightarrow> Some (failure_of env e), w))"

fun rrsigSigner :: "RR list \<Rightarrow> u16 \<Rightarrow> string" where
  "rrsigSigner [] tc = ''''"
| "rrsigSigner (rr # rrs) tc =
     (if rr_type rr \<noteq> TypeRRSIG then rrsigSigner rrs tc
      else case ParseRRSIG rr of
             Inl _ \<Rightarrow> rrsigSigner rrs tc
           | Inr sig \<Rightarrow> if sg_TypeCovered sig \<noteq> tc then rrsigSigner rrs tc else norm_name (sg_SignerName sig))"

definition lookup_keys :: "'n env \<Rightarrow> string \<Rightarrow> 'n world \<Rightarrow> key_map option \<times> 'n world" where
  "lookup_keys env zone w =
     (case e_now env w of (t, w) \<Rightarrow>
      (case LookupZoneKeys t zone (w_val w) of (r, v) \<Rightarrow> (r, w\<lparr>w_val := v\<rparr>)))"

subsection \<open>Keys of zones\<close>

primrec secFetchDNSKEY :: "'n env \<Rightarrow> Config \<Rightarrow> string list \<Rightarrow> string \<Rightarrow> 'n world \<Rightarrow> (string + message) \<times> 'n world" where
  "secFetchDNSKEY env cfg [] zone w = (Inl (''no DNSKEY records returned for '' @ zone), w)"
| "secFetchDNSKEY env cfg (sv # svs) zone w =
     (case query env cfg (sv @ '':53'') zone TypeDNSKEY w of
        (Inl _, w) \<Rightarrow> secFetchDNSKEY env cfg svs zone w
      | (Inr resp, w) \<Rightarrow>
          if Answers resp \<noteq> [] then (Inr resp, w) else secFetchDNSKEY env cfg svs zone w)"

definition parsed_ds :: "RR list \<Rightarrow> DS list" where
  "parsed_ds rrs = concat (map (\<lambda>rr. case ParseDS rr of Inr d \<Rightarrow> [d] | Inl _ \<Rightarrow> []) rrs)"

text \<open>
  Fetching and validating the keys of a zone from its DS records, and caching them: the common
  end of \<open>secEstablishIntermediateKeys\<close> and of a referral, which differ in their texts (\<open>sfx\<close>).
\<close>

definition fetch_keys :: "'n env \<Rightarrow> Config \<Rightarrow> string \<Rightarrow> string list \<Rightarrow> string \<Rightarrow> RR list \<Rightarrow> 'n world \<Rightarrow>
    (failure + key_map) \<times> 'n world" where
  "fetch_keys env cfg sfx servers zone dsRRs w =
     (case secFetchDNSKEY env cfg servers zone w of
        (Inl e, w) \<Rightarrow> (Inl (Failed (''DNSKEY fetch'' @ sfx @ '': '' @ e)), w)
      | (Inr m, w) \<Rightarrow>
          let rrs = secFilterType (Answers m) TypeDNSKEY; rrsigs = secFilterType (Answers m) TypeRRSIG
          in case e_clock env w of (clock, w) \<Rightarrow>
             (case ValidateZoneDNSKEY (e_crypto env) clock (w_val w) zone rrs rrsigs (parsed_ds dsRRs) (Raw m) of
                Inl e \<Rightarrow> (Inl (wrap (''DNSKEY chain'' @ sfx) (failure_of env e)), w)
              | Inr keys \<Rightarrow>
                  (case e_now env w of (t, w) \<Rightarrow>
                     (Inr keys, w\<lparr>w_val := CacheZoneKeys t zone keys
                         (case rrs of rr # _ \<Rightarrow> rr_ttl rr | [] \<Rightarrow> 3600) (w_val w)\<rparr>))))"

text \<open>The first server that answers the DS query without an error.\<close>

primrec query_ds :: "'n env \<Rightarrow> Config \<Rightarrow> string \<Rightarrow> string option \<Rightarrow> string list \<Rightarrow> 'n world \<Rightarrow>
    (string option + message) \<times> 'n world" where
  "query_ds env cfg zone lastErr [] w = (Inl lastErr, w)"
| "query_ds env cfg zone lastErr (sv # svs) w =
     (case query env cfg (sv @ '':53'') zone TypeDS w of
        (Inl e, w) \<Rightarrow> query_ds env cfg zone (Some e) svs w
      | (Inr resp, w) \<Rightarrow> (Inr resp, w))"

definition secEstablishIntermediateKeys :: "'n env \<Rightarrow> Config \<Rightarrow> string list \<Rightarrow> secCtx \<Rightarrow> string \<Rightarrow> 'n world \<Rightarrow>
    (failure + key_map) \<times> 'n world" where
  "secEstablishIntermediateKeys env cfg parentServers parentCtx zone w =
     (case query_ds env cfg zone None parentServers w of
        (Inl lastErr, w) \<Rightarrow>
          (Inl (Failed (''DS query failed: '' @ (case lastErr of Some e \<Rightarrow> e | None \<Rightarrow> ''%!w(<nil>)''))), w)
      | (Inr dsResp, w) \<Rightarrow>
          let inAnswers = secFilterTypeOwner (Answers dsResp) TypeDS zone;
              section' = (if inAnswers = [] then Authority dsResp else Answers dsResp);
              dsRRs = secFilterTypeOwner section' TypeDS zone;
              rrsigs = secFilterType section' TypeRRSIG
          in if dsRRs = [] then (Inl (Failed (''no DS records returned for '' @ zone)), w)
             else case verify_any env (sc_keys parentCtx) dsRRs rrsigs TypeDS (Raw dsResp) w of
                    (Some f, w) \<Rightarrow> (Inl (wrap ''DS RRSIG'' f), w)
                  | (None, w) \<Rightarrow> fetch_keys env cfg '''' parentServers zone dsRRs w)"

primrec walk_zones :: "'n env \<Rightarrow> Config \<Rightarrow> string list \<Rightarrow> secCtx \<Rightarrow> string list \<Rightarrow> 'n world \<Rightarrow>
    (failure + secCtx) \<times> 'n world" where
  "walk_zones env cfg parentServers walkCtx [] w = (Inr walkCtx, w)"
| "walk_zones env cfg parentServers walkCtx (zone # zones) w =
     (case lookup_keys env zone w of
        (Some cached, w) \<Rightarrow>
          walk_zones env cfg parentServers \<lparr>sc_zone = zone, sc_keys = cached\<rparr> zones w
      | (None, w) \<Rightarrow>
          (case secEstablishIntermediateKeys env cfg parentServers walkCtx zone w of
             (Inl f, w) \<Rightarrow> (Inl (wrap zone f), w)
           | (Inr keys, w) \<Rightarrow>
               walk_zones env cfg parentServers \<lparr>sc_zone = zone, sc_keys = keys\<rparr> zones w))"

definition secWalkToZone :: "'n env \<Rightarrow> Config \<Rightarrow> string list \<Rightarrow> secCtx \<Rightarrow> string \<Rightarrow> 'n world \<Rightarrow>
    (failure + secCtx) \<times> 'n world" where
  "secWalkToZone env cfg parentServers startCtx target w =
     walk_zones env cfg parentServers startCtx (zoneChain (sc_zone startCtx) target) w"

definition secVerifyWithWalk :: "'n env \<Rightarrow> Config \<Rightarrow> string list \<Rightarrow> secCtx \<Rightarrow> RR list \<Rightarrow> RR list \<Rightarrow> u16 \<Rightarrow>
    byte list \<Rightarrow> 'n world \<Rightarrow> failure option \<times> 'n world" where
  "secVerifyWithWalk env cfg parentServers ctx rrset rrsigs tc raw w =
     (let signer = rrsigSigner rrsigs tc; normCtx = norm_name (sc_zone ctx)
      in if signer \<noteq> '''' \<and> signer \<noteq> normCtx \<and> isDescendantZone signer normCtx then
           (case secWalkToZone env cfg parentServers ctx signer w of
              (Inl f, w) \<Rightarrow> (Some (wrap (''walk '' @ sc_zone ctx @ [char_of (226 :: nat), char_of (134 :: nat), char_of (146 :: nat)] @ signer) f), w)
            | (Inr walked, w) \<Rightarrow> verify_any env (sc_keys walked) rrset rrsigs tc raw w)
         else verify_any env (sc_keys ctx) rrset rrsigs tc raw w)"

subsection \<open>Answers\<close>

definition bogus :: "failure \<Rightarrow> (failure + message) \<times> ValidationStatus" where
  "bogus f = (Inl f, StatusBogus)"

text \<open>The part of the CNAME case behind the signature check.\<close>

definition sec_follow :: "'n sec_resolution \<Rightarrow> 'n env \<Rightarrow> Config \<Rightarrow> u16 \<Rightarrow> message \<Rightarrow> RR \<Rightarrow> string \<Rightarrow> 'n world \<Rightarrow>
    ((failure + message) \<times> ValidationStatus) \<times> 'n world" where
  "sec_follow rec env cfg qtype resp rr target w =
     (if hasTerminalRecords (Answers resp) target qtype then ((Inr resp, StatusInsecure), w)
      else case cache_negative env target qtype w of
        (True, w) \<Rightarrow> ((Inl (Failed (nx_text target)), StatusInsecure), w)
      | (False, w) \<Rightarrow>
          (case cache_get env cfg target qtype w of
             (Some cached, w) \<Rightarrow> ((Inr (prependCNAME resp rr cached), StatusSecure), w)
           | (None, w) \<Rightarrow>
               (case lookup_keys env ''.'' w of (rootKeys, w) \<Rightarrow>
                (case rec target qtype RootServers
                        \<lparr>sc_zone = ''.'', sc_keys = (case rootKeys of Some k \<Rightarrow> k | None \<Rightarrow> [])\<rparr> w of
                   ((Inl f, st), w) \<Rightarrow> ((Inl f, st), w)
                 | ((Inr inner, st), w) \<Rightarrow> ((Inr (prependCNAME resp rr inner), st), w)))))"

definition sec_cname :: "'n sec_resolution \<Rightarrow> 'n env \<Rightarrow> Config \<Rightarrow> string \<Rightarrow> u16 \<Rightarrow> string list \<Rightarrow> secCtx \<Rightarrow>
    message \<Rightarrow> RR \<Rightarrow> 'n world \<Rightarrow> ((failure + message) \<times> ValidationStatus) \<times> 'n world" where
  "sec_cname rec env cfg name qtype shuffled ctx resp rr w =
     (case parseCNAME resp rr of
        Inl e \<Rightarrow> (bogus (Failed (''cname parse: '' @ name_error_text e)), w)
      | Inr target \<Rightarrow>
          if sc_keys ctx = [] then sec_follow rec env cfg qtype resp rr target w
          else case secVerifyWithWalk env cfg shuffled ctx (secFilterType (Answers resp) TypeCNAME)
                      (secFilterType (Answers resp) TypeRRSIG) TypeCNAME (Raw resp) w of
                 (Some f, w) \<Rightarrow> (bogus (wrap (''CNAME RRSIG for '' @ name) f), w)
               | (None, w) \<Rightarrow> sec_follow rec env cfg qtype resp rr target w)"

definition sec_answer :: "'n env \<Rightarrow> Config \<Rightarrow> string \<Rightarrow> u16 \<Rightarrow> string list \<Rightarrow> secCtx \<Rightarrow> message \<Rightarrow> 'n world \<Rightarrow>
    ((failure + message) \<times> ValidationStatus) \<times> 'n world" where
  "sec_answer env cfg name qtype shuffled ctx resp w =
     (let ansRRs = secFilterType (Answers resp) qtype
      in if sc_keys ctx = [] \<or> ansRRs = [] then ((Inr resp, StatusInsecure), w)
         else case secVerifyWithWalk env cfg shuffled ctx ansRRs (secFilterType (Answers resp) TypeRRSIG)
                     qtype (Raw resp) w of
                (Some f, w) \<Rightarrow>
                  (bogus (wrap (''RRSIG for '' @ name @ '' type '' @ dec_string (unat qtype)) f), w)
              | (None, w) \<Rightarrow> ((Inr resp, StatusSecure), w))"

subsection \<open>Referrals\<close>

text \<open>The context of the child zone, once its servers are known.\<close>

definition child_context :: "'n env \<Rightarrow> Config \<Rightarrow> string \<Rightarrow> RR list \<Rightarrow> string list \<Rightarrow> 'n world \<Rightarrow>
    (failure + secCtx) \<times> 'n world" where
  "child_context env cfg childZone childDSRRs childServers w =
     (case lookup_keys env childZone w of
        (Some cached, w) \<Rightarrow> (Inr \<lparr>sc_zone = childZone, sc_keys = cached\<rparr>, w)
      | (None, w) \<Rightarrow>
          if childDSRRs = [] then (Inr \<lparr>sc_zone = childZone, sc_keys = []\<rparr>, w)
          else case fetch_keys env cfg ('' for '' @ childZone) childServers childZone childDSRRs w of
                 (Inl f, w) \<Rightarrow> (Inl f, w)
               | (Inr keys, w) \<Rightarrow> (Inr \<lparr>sc_zone = childZone, sc_keys = keys\<rparr>, w))"

definition sec_descend :: "'n sec_resolution \<Rightarrow> 'n env \<Rightarrow> Config \<Rightarrow> string \<Rightarrow> u16 \<Rightarrow> string \<Rightarrow> RR list \<Rightarrow>
    string list \<Rightarrow> 'n world \<Rightarrow> ((failure + message) \<times> ValidationStatus) \<times> 'n world" where
  "sec_descend rec env cfg name qtype childZone childDSRRs childServers w =
     (case child_context env cfg childZone childDSRRs childServers w of
        (Inl f, w) \<Rightarrow> (bogus f, w)
      | (Inr childCtx, w) \<Rightarrow> rec name qtype childServers childCtx w)"

primrec sec_try_servers :: "'n sec_resolution \<Rightarrow> 'n resolution \<Rightarrow> 'n env \<Rightarrow> Config \<Rightarrow> string \<Rightarrow> u16 \<Rightarrow>
    string list \<Rightarrow> secCtx \<Rightarrow> string option \<Rightarrow> string list \<Rightarrow> 'n world \<Rightarrow>
    ((failure + message) \<times> ValidationStatus) \<times> 'n world" where
  "sec_try_servers rec nsrec env cfg name qtype shuffled ctx lastErr [] w =
     (bogus (Failed (all_failed name lastErr)), w)"
| "sec_try_servers rec nsrec env cfg name qtype shuffled ctx lastErr (sv # svs) w =
     (case query env cfg (sv @ '':53'') name qtype w of
        (Inl e, w) \<Rightarrow> sec_try_servers rec nsrec env cfg name qtype shuffled ctx (Some e) svs w
      | (Inr resp, w) \<Rightarrow>
          if Answers resp \<noteq> [] then
            (case cname_of qtype resp of
               Some rr \<Rightarrow> sec_cname rec env cfg name qtype shuffled ctx resp rr w
             | None \<Rightarrow> sec_answer env cfg name qtype shuffled ctx resp w)
          else
            let nsNames = extractNS resp; childZone = secDelegatedZone resp;
                childDSRRs = secFilterTypeOwner (Authority resp) TypeDS childZone;
                glue = extractGlue (e_render env) resp nsNames
            in if nsNames = [] then ((Inr resp, StatusInsecure), w)
               else
                 (case (if sc_keys ctx \<noteq> [] \<and> childDSRRs \<noteq> []
                        then secVerifyWithWalk env cfg shuffled ctx childDSRRs
                               (secFilterType (Authority resp) TypeRRSIG) TypeDS (Raw resp) w
                        else (None, w)) of
                    (Some f, w) \<Rightarrow> (bogus (wrap (''DS RRSIG for '' @ childZone) f), w)
                  | (None, w) \<Rightarrow>
                      if glue \<noteq> [] then sec_descend rec env cfg name qtype childZone childDSRRs glue w
                      else case resolveNSParallel nsrec env cfg nsNames w of
                             (Inl e, w) \<Rightarrow>
                               sec_try_servers rec nsrec env cfg name qtype shuffled ctx (Some e) svs w
                           | (Inr ips, w) \<Rightarrow>
                               sec_descend rec env cfg name qtype childZone childDSRRs ips w))"

function resolveAtDNSSEC :: "'n env \<Rightarrow> Config \<Rightarrow> nat \<Rightarrow> 'n sec_resolution" where
  "resolveAtDNSSEC env cfg depth name qtype servers ctx w =
     (if rs_MaxDepth (cfg_Resolver cfg) < int depth
      then (bogus (Failed (''max referral depth exceeded resolving '' @ name)), w)
      else
        (case e_shuffle env servers w of (shuffled, w) \<Rightarrow>
           sec_try_servers (\<lambda>n q svs c w. resolveAtDNSSEC env cfg (Suc depth) n q svs c w)
             (resolveAt env cfg (Suc depth)) env cfg name qtype shuffled ctx None shuffled w))"
  by pat_completeness auto
termination
  by (relation "measure (\<lambda>(env, cfg, depth, _). nat (rs_MaxDepth (cfg_Resolver cfg) + 1 - int depth))") auto

declare resolveAtDNSSEC.simps [simp del]

end
