(* ===== verification/Resolve.thy ===== *)
theory Resolve
  imports ResolverSec
begin

text \<open>
  \<open>Server.resolve\<close> and the prefetch function of \<open>internal/server\<close>: the negative and the positive
  cache, the choice between forwarded zones, forwarders, DNSSEC and plain iteration, and what
  is recorded of the outcome. When another goroutine already resolves the same name, its
  result is used (\<open>e_join\<close>); the table behind that is the subject of the theory \<open>Inflight\<close>.
\<close>

type_synonym 'n join = "string \<Rightarrow> 'n world \<Rightarrow> (failure + message) option \<times> 'n world"

definition lift_failure :: "(string + message) \<times> 'n world \<Rightarrow> (failure + message) \<times> 'n world" where
  "lift_failure r = (case r of (Inl e, w) \<Rightarrow> (Inl (Failed e), w) | (Inr m, w) \<Rightarrow> (Inr m, w))"

text \<open>The walk with DNSSEC from the root, and the authentic-data flag.\<close>

definition resolve_dnssec :: "'n env \<Rightarrow> Config \<Rightarrow> string \<Rightarrow> u16 \<Rightarrow> 'n world \<Rightarrow> (failure + message) \<times> 'n world" where
  "resolve_dnssec env cfg name qtype w =
     (case lookup_keys env ''.'' w of (rootKeys, w) \<Rightarrow>
      (case resolveAtDNSSEC env cfg 0 name qtype RootServers
              \<lparr>sc_zone = ''.'', sc_keys = (case rootKeys of Some k \<Rightarrow> k | None \<Rightarrow> [])\<rparr> w of
         ((Inl f, _), w) \<Rightarrow> (Inl f, w)
       | ((Inr msg, status), w) \<Rightarrow>
           (if status = StatusBogus then Inl (Failed (''DNSSEC validation failed for '' @ name))
            else Inr (if status = StatusSecure then SetAD True msg else msg), w)))"

text \<open>\<open>val\<close> tells whether the server has a validator.\<close>

definition resolve_work :: "'n env \<Rightarrow> Config \<Rightarrow> bool \<Rightarrow> string \<Rightarrow> u16 \<Rightarrow> 'n world \<Rightarrow> (failure + message) \<times> 'n world" where
  "resolve_work env cfg val name qtype w =
     (let rs = cfg_Resolver cfg
      in case lookupZone (rs_Zones rs) name of
           Some zone \<Rightarrow> lift_failure (resolveViaServers env cfg name qtype (zn_Servers zone) w)
         | None \<Rightarrow>
             if fw_Enabled (rs_Forwarder rs) then
               (case resolveViaForwarder env cfg name qtype w of
                  (Inr msg, w) \<Rightarrow> (Inr msg, w)
                | (Inl e, w) \<Rightarrow>
                    if fw_FallbackToIterative (rs_Forwarder rs)
                    then lift_failure (resolveAt env cfg 0 name qtype RootServers w)
                    else (Inl (Failed e), w))
             else if rs_DNSSEC rs \<and> val then resolve_dnssec env cfg name qtype w
             else lift_failure (resolveAt env cfg 0 name qtype RootServers w))"

text \<open>What the leader records: a negative answer by the text of the error, or the message.\<close>

definition record_outcome :: "'n env \<Rightarrow> Config \<Rightarrow> string \<Rightarrow> u16 \<Rightarrow> failure + message \<Rightarrow> 'n world \<Rightarrow> 'n world" where
  "record_outcome env cfg name qtype r w =
     (case r of
        Inl (Failed e) \<Rightarrow>
          if contains_str e ''NXDOMAIN'' then
            (case e_now env w of (t, w) \<Rightarrow>
               w\<lparr>w_cache := SetNegative t name qtype (cc_NegativeTTL (rs_Cache (cfg_Resolver cfg))) (w_cache w)\<rparr>)
          else w
      | Inl Crashed \<Rightarrow> w
      | Inr msg \<Rightarrow>
          (case e_now env w of (t, w) \<Rightarrow>
             w\<lparr>w_cache := Set (e_order env) t name qtype msg (w_cache w)\<rparr>))"

text \<open>The result, and whether it came from the cache.\<close>

definition resolve :: "'n env \<Rightarrow> 'n join \<Rightarrow> Config \<Rightarrow> bool \<Rightarrow> string \<Rightarrow> u16 \<Rightarrow> 'n world \<Rightarrow>
    ((failure + message) \<times> bool) \<times> 'n world" where
  "resolve env join cfg val name qtype w =
     (case cache_negative env name qtype w of
        (True, w) \<Rightarrow> ((Inl (Failed (nx_text name)), False), w)
      | (False, w) \<Rightarrow>
          (case cache_get env cfg name qtype w of
             (Some msg, w) \<Rightarrow> ((Inr msg, True), w)
           | (None, w) \<Rightarrow>
               (case join (inflightKey name qtype) w of
                  (Some r, w) \<Rightarrow> ((r, False), w)
                | (None, w) \<Rightarrow>
                    (case resolve_work env cfg val name qtype w of
                       (r, w) \<Rightarrow> ((r, False), record_outcome env cfg name qtype r w)))))"

text \<open>The function that the cache calls to refresh an entry: never with DNSSEC.\<close>

definition prefetch_fn :: "'n env \<Rightarrow> Config \<Rightarrow> string \<Rightarrow> u16 \<Rightarrow> 'n world \<Rightarrow> (string + message) \<times> 'n world" where
  "prefetch_fn env cfg name qtype w =
     (let rs = cfg_Resolver cfg
      in case lookupZone (rs_Zones rs) name of
           Some zone \<Rightarrow> resolveViaServers env cfg name qtype (zn_Servers zone) w
         | None \<Rightarrow>
             if fw_Enabled (rs_Forwarder rs) then
               (case resolveViaForwarder env cfg name qtype w of
                  (r, w) \<Rightarrow>
                    if \<not> isl r \<or> \<not> fw_FallbackToIterative (rs_Forwarder rs) then (r, w)
                    else resolveAt env cfg 0 name qtype RootServers w)
             else resolveAt env cfg 0 name qtype RootServers w)"

end
