(* ===== verification/ResolveProps.thy ===== *)
theory ResolveProps
  imports Resolve CacheProps
begin

text \<open>
  What resolution guarantees and where it fails: a connection returns to its pool only behind
  the reply to its last request, a referral loop ends after as many queries as the configured
  depth allows, what was resolved is served from the cache until it expires, the text test for
  negative answers catches failures that are none, and a cached CNAME target counts as
  authenticated.
\<close>

subsection \<open>Connections and replies\<close>

lemma check_reply_usable:
  assumes "check_reply a b c d retry i name server bytes = v" "\<forall>e. v \<noteq> Rejected e"
  shows "\<exists>m. ParseMessage bytes = Inr m \<and> ID m = i"
  using assms by (auto simp: check_reply_def split: sum.splits if_splits)

lemma check_reply_Accepted:
  "check_reply a b c d retry i name server bytes = Accepted m \<longleftrightarrow>
     ParseMessage bytes = Inr m \<and> ID m = i \<and> Rcode m = RcodeNoError \<and> \<not> (Flags m AND 0x0200 \<noteq> 0 \<and> retry)"
  by (auto simp: check_reply_def split: sum.splits)

lemma check_reply_Truncated: "check_reply a b c d retry i name server bytes = Truncated \<Longrightarrow> retry"
  by (auto simp: check_reply_def split: sum.splits if_splits)

definition pure_clock :: "'n env \<Rightarrow> ('n world \<Rightarrow> int) \<Rightarrow> bool" where
  "pure_clock env clk \<longleftrightarrow> e_now env = (\<lambda>w. (clk w, w))"

lemma put_conn_failed:
  "pure_clock env clk \<Longrightarrow> put_conn env tr server pc True w = w"
  by (simp add: pure_clock_def put_conn_def pool_put_def)

text \<open>
  Over TCP and TLS: the connection goes back only behind a length-prefixed reply that parses and carries
  the ID of the request, and a result has that ID and no error code.
\<close>

lemma stream_verdict_usable:
  assumes "stream_verdict name server i bs e = v" "\<forall>e. v \<noteq> Rejected e"
  shows "\<exists>m. ParseMessage (slice bs 2 (2 + unat (be16 bs 0))) = Inr m \<and> ID m = i \<and>
    (\<forall>m'. v = Accepted m' \<longrightarrow> m' = m \<and> Rcode m = RcodeNoError) \<and> v \<noteq> Truncated"
proof -
  have c: "check_reply ''tcp parse: '' ''tcp ID mismatch: '' '' from '' '' (tcp)'' False i name server
      (slice bs 2 (2 + unat (be16 bs 0))) = v"
    using assms by (auto simp: stream_verdict_def Let_def split: if_splits)
  obtain m where m: "ParseMessage (slice bs 2 (2 + unat (be16 bs 0))) = Inr m" "ID m = i"
    using check_reply_usable [OF c assms(2)] by blast
  have "v \<noteq> Truncated" using check_reply_Truncated [of "''tcp parse: ''"] c by blast
  moreover have "m' = m \<and> Rcode m = RcodeNoError" if "v = Accepted m'" for m'
    using c m unfolding that check_reply_Accepted by simp
  ultimately show ?thesis using m by blast
qed

lemma stream_connection_safe:
  assumes "pure_clock env clk" "queryTCPPool env cfg tr server name qtype w = (res, w')"
  shows "(isl res \<or>
      (\<exists>m pc w1. res = Inr m \<and> get_conn env tr server w = (Inr pc, w1) \<and> ID m = pc_nextID pc \<and> Rcode m = RcodeNoError)) \<and>
    (\<forall>pc w1 bs e w2.
      get_conn env tr server w = (Inr pc, w1) \<longrightarrow>
      e_stream env tr (pc_conn pc) (put16 (of_nat (length (Pack (request cfg False (pc_nextID pc) name qtype)))) @
        Pack (request cfg False (pc_nextID pc) name qtype)) w1 = (Inr (bs, e), w2) \<longrightarrow>
      w' = w2 \<or> (\<exists>m. ParseMessage (slice bs 2 (2 + unat (be16 bs 0))) = Inr m \<and> ID m = pc_nextID pc))"
proof (cases "get_conn env tr server w")
  case (Pair g w1)
  show ?thesis
  proof (cases g)
    case (Inl e)
    with Pair assms show ?thesis by (auto simp: queryTCPPool_def)
  next
    case (Inr pc)
    let ?packed = "Pack (request cfg False (pc_nextID pc) name qtype)"
    obtain r w2 where st: "e_stream env tr (pc_conn pc) (put16 (of_nat (length ?packed)) @ ?packed) w1 = (r, w2)"
      by fastforce
    note run = assms(2) [unfolded queryTCPPool_def Pair Inr prod.case sum.case Let_def st]
    show ?thesis
    proof (cases r)
      case (Inl e)
      with run st Pair \<open>g = _\<close> show ?thesis by (auto simp: put_conn_failed [OF assms(1)])
    next
      case (Inr be)
      then obtain bs e where be: "r = Inr (bs, e)" by (cases be) auto
      note got = run [unfolded be prod.case sum.case]
      note usable = stream_verdict_usable [OF refl, of name server "pc_nextID pc" bs e]
      show ?thesis
      proof (cases "stream_verdict name server (pc_nextID pc) bs e")
        case (Rejected x)
        with got st Pair \<open>g = _\<close> be show ?thesis by (auto simp: put_conn_failed [OF assms(1)])
      next
        case (Answered x)
        with usable got st Pair \<open>g = _\<close> be show ?thesis by auto
      next
        case Truncated
        with usable show ?thesis by simp
      next
        case (Accepted m)
        with usable have "ParseMessage (slice bs 2 (2 + unat (be16 bs 0))) = Inr m \<and> ID m = pc_nextID pc \<and> Rcode m = RcodeNoError"
          by auto
        with Accepted got st Pair \<open>g = _\<close> be show ?thesis by auto
      qed
    qed
  qed
qed

text \<open>
  C13: a query over UDP, to an authoritative server or to a forwarder, has one of two outcomes. Either
  it fails and its connection is closed: the exchange failed, the datagram does not parse, or it
  carries another ID. Or the datagram is the reply to this very request, by its ID; only then
  does the connection go back to the pool, so no late reply is left for the next query. The
  result is then an error if the reply has an error code; what the retry over TCP gave, if the reply
  is truncated and the retry is configured, again with the ID of its own request; and else the
  message of the datagram.
\<close>

theorem query_connection_safe:
  assumes "pure_clock env clk" "(ask, rd) = (query, False) \<or> (ask, rd) = (queryForwarder, True)"
    and "get_conn env UDP server w = (Inr pc, w1)"
    and "e_datagram env (pc_conn pc) (Pack (request cfg rd (pc_nextID pc) name qtype)) w1 = (r, w2)"
    and "ask env cfg server name qtype w = (res, w')"
  shows "(isl res \<and> w' = w2) \<or>
    (\<exists>dg m w3. r = Inr dg \<and> ParseMessage (take udpBufSize dg) = Inr m \<and> ID m = pc_nextID pc \<and>
       w' = put_conn env UDP server (next_id pc) False w3 \<and>
       (if Rcode m \<noteq> RcodeNoError then isl res \<and> w3 = w2
        else if Flags m AND 0x0200 \<noteq> 0 \<and> rs_TCPFallback (cfg_Resolver cfg)
        then queryTCP env cfg server name qtype w2 = (res, w3) \<and>
          (isl res \<or> (\<exists>m' pc' w4. res = Inr m' \<and> get_conn env TCP server w2 = (Inr pc', w4) \<and>
             ID m' = pc_nextID pc' \<and> Rcode m' = RcodeNoError))
        else res = Inr m \<and> w3 = w2))"
proof -
  obtain a b c where run: "query_udp (\<lambda>i. check_reply a b c [] (rs_TCPFallback (cfg_Resolver cfg)) i name server)
      rd env cfg server name qtype w = (res, w')"
    using assms(2,5) by (auto simp: query_def queryForwarder_def)
  show ?thesis
  proof (cases r)
    case (Inl e)
    with assms run show ?thesis by (auto simp: query_udp_def put_conn_failed)
  next
    case (Inr dg)
    define v where "v = check_reply a b c [] (rs_TCPFallback (cfg_Resolver cfg)) (pc_nextID pc) name server
      (take udpBufSize dg)"
    note run = run [unfolded query_udp_def assms(3) prod.case sum.case assms(4) Inr, folded v_def]
    show ?thesis
    proof (cases v)
      case (Rejected e)
      with run show ?thesis by (auto simp: put_conn_failed [OF assms(1)])
    next
      case (Answered e)
      then obtain m where "ParseMessage (take udpBufSize dg) = Inr m" "ID m = pc_nextID pc" "Rcode m \<noteq> RcodeNoError"
        by (auto simp: v_def check_reply_def split: sum.splits if_splits)
      with run Answered Inr show ?thesis by auto
    next
      case Truncated
      then obtain m where m: "ParseMessage (take udpBufSize dg) = Inr m" "ID m = pc_nextID pc" "Rcode m = RcodeNoError"
        "Flags m AND 0x0200 \<noteq> 0 \<and> rs_TCPFallback (cfg_Resolver cfg)"
        by (auto simp: v_def check_reply_def split: sum.splits if_splits)
      obtain w3 where tcp: "queryTCP env cfg server name qtype w2 = (res, w3)"
        "w' = put_conn env UDP server (next_id pc) False w3"
        using run Truncated by (auto split: prod.splits)
      with m Inr stream_connection_safe [OF assms(1) tcp(1) [unfolded queryTCP_def]] show ?thesis by auto
    next
      case (Accepted m)
      then have "ParseMessage (take udpBufSize dg) = Inr m" "ID m = pc_nextID pc" "Rcode m = RcodeNoError"
        "\<not> (Flags m AND 0x0200 \<noteq> 0 \<and> rs_TCPFallback (cfg_Resolver cfg))"
        by (simp_all add: v_def check_reply_Accepted)
      with run Accepted Inr show ?thesis by auto
    qed
  qed
qed

subsection \<open>Referral loops\<close>

text \<open>
  C12: resolution ends: if every server always answers with one and the same referral with glue,
  \<open>resolveAt\<close> gives up with an error after exactly as many queries as the configured depth
  leaves (\<open>P n\<close> holds of a world in which \<open>n\<close> queries were made).
\<close>

theorem referral_loop_stops:
  assumes "P n w" "servers \<noteq> []"
    and query: "\<And>server n w. P n w \<Longrightarrow> \<exists>w'. query env cfg server name qtype w = (Inr m, w') \<and> P (Suc n) w'"
    and shuffle: "\<And>svs n w. P n w \<Longrightarrow> svs \<noteq> [] \<Longrightarrow>
      \<exists>svs' w'. e_shuffle env svs w = (svs', w') \<and> svs' \<noteq> [] \<and> P n w'"
    and "Answers m = []" "extractNS m \<noteq> []" "extractGlue (e_render env) m (extractNS m) \<noteq> []"
  shows "\<exists>w'. resolveAt env cfg depth name qtype servers w =
      (Inl (''max referral depth exceeded resolving '' @ name), w') \<and>
    P (n + nat (rs_MaxDepth (cfg_Resolver cfg) + 1 - int depth)) w'"
  using assms(1,2)
proof (induction "nat (rs_MaxDepth (cfg_Resolver cfg) + 1 - int depth)" arbitrary: depth servers n w)
  case 0
  then show ?case by (simp add: resolveAt.simps)
next
  case (Suc k)
  then have deep: "\<not> rs_MaxDepth (cfg_Resolver cfg) < int depth"
    and k: "k = nat (rs_MaxDepth (cfg_Resolver cfg) + 1 - int (Suc depth))" by linarith+
  obtain sv svs w1 where sh: "e_shuffle env servers w = (sv # svs, w1)" "P n w1"
    using shuffle [OF Suc.prems] by (metis list.exhaust)
  obtain w2 where q: "query env cfg (sv @ '':53'') name qtype w1 = (Inr m, w2)" "P (Suc n) w2"
    using query [OF sh(2)] by blast
  let ?glue = "extractGlue (e_render env) m (extractNS m)"
  have "resolveAt env cfg depth name qtype servers w = resolveAt env cfg (Suc depth) name qtype ?glue w2"
    using deep sh(1) q(1) assms(5-7)
    by (subst resolveAt.simps) (simp add: resolve_body_def Let_def)
  moreover obtain w' where "resolveAt env cfg (Suc depth) name qtype ?glue w2 =
      (Inl (''max referral depth exceeded resolving '' @ name), w')" "P (Suc n + k) w'"
    using Suc.hyps(1) [OF k q(2) assms(7)] k by auto
  moreover have "n + nat (rs_MaxDepth (cfg_Resolver cfg) + 1 - int depth) = Suc n + k"
    using Suc.hyps(2) by simp
  ultimately show ?case by (intro exI [of _ w']) (simp only: simp_thms)
qed

subsection \<open>What was resolved is served from the cache\<close>

text \<open>
  The operations that leave the entry of a key alone until the time \<open>t\<close>: they do not store under
  the key, do not record it as negative, do not evict its entry for want of room, and neither
  tick nor flush removes more than what has expired.
\<close>

definition crowds_out :: "range_order \<Rightarrow> cacheKey \<Rightarrow> Cache \<Rightarrow> cacheKey \<Rightarrow> bool" where
  "crowds_out ord k c victim \<longleftrightarrow>
     0 < maxPerShard c \<and> maxPerShard c \<le> int (length (entries (shard c k))) \<and>
     snd (evict_scan (ord (entries (shard c k)))) = victim"

fun spares :: "int \<Rightarrow> cacheKey \<Rightarrow> cache_op \<Rightarrow> Cache \<Rightarrow> bool" where
  "spares t k (OpSet ord now name qtype msg) c \<longleftrightarrow>
     lowestTTL msg = 0 \<or> (name, qtype) \<noteq> k \<and> \<not> crowds_out ord (name, qtype) c k"
| "spares t k (OpPrefetchDone ord now i name qtype r) c \<longleftrightarrow>
     (case r of None \<Rightarrow> True
      | Some msg \<Rightarrow> lowestTTL msg = 0 \<or> (name, qtype) \<noteq> k \<and> \<not> crowds_out ord (name, qtype) c k)"
| "spares t k (OpSetNegative now name qtype ttl) c \<longleftrightarrow> (name, qtype) \<noteq> k"
| "spares t k (OpGet t1 t2 t3 p name qtype) c \<longleftrightarrow> True"
| "spares t k (OpEvict now) c \<longleftrightarrow> now \<le> t"
| "spares t k (OpFlush clock mode) c \<longleftrightarrow> mode = ''negative'' \<or> mode = ''expired'' \<and> clock (shard_no k) \<le> t"

fun all_spare :: "int \<Rightarrow> cacheKey \<Rightarrow> cache_op list \<Rightarrow> Cache \<Rightarrow> bool" where
  "all_spare t k [] c \<longleftrightarrow> True"
| "all_spare t k (op # ops) c \<longleftrightarrow> spares t k op c \<and> all_spare t k ops (cache_step op c)"

lemma Set_spares:
  assumes "cache_wf c" "lowestTTL msg = 0 \<or> (name, qtype) \<noteq> k \<and> \<not> crowds_out ord (name, qtype) c k"
    and "find_view c k = Some v"
  shows "find_view (Set ord now name qtype msg c) k = Some v"
proof (cases "lowestTTL msg = 0")
  case True
  with assms(3) show ?thesis by (simp add: Set_def)
next
  case False
  have "shard_no k = shard_no (name, qtype) \<Longrightarrow> shard c k = shard c (name, qtype)" by (simp add: shard_def)
  with False assms show ?thesis
    by (cases "shard_no k = shard_no (name, qtype)")
      (auto simp: Set_def Let_def find_view_def find_entry_def shard_put_shard alist crowds_out_def
        AList.delete_conv')
qed

lemma spares_keeps:
  assumes "cache_wf c" "find_view c k = Some v" "t \<le> snd (snd v)" "spares t k op c"
  shows "find_view (cache_step op c) k = Some v"
proof (cases op)
  case (OpSet ord now name qtype msg)
  with Set_spares [OF assms(1) _ assms(2)] assms(4) show ?thesis by simp
next
  case (OpPrefetchDone ord now i name qtype r)
  with Set_spares [OF assms(1) _ assms(2), of _ name qtype ord now] assms show ?thesis
    by (cases r) (simp_all add: prefetch_done_def Let_def find_clear_flag Set_wf)
next
  case (OpGet t1 t2 t3 p name qtype)
  obtain r b c' where get: "Get t1 t2 t3 p name qtype c = (r, b, c')" by (cases "Get t1 t2 t3 p name qtype c")
  from Get_view(1) [OF assms(1) this, of k] assms(2) show ?thesis by (simp add: OpGet get)
next
  case (OpEvict now)
  from assms(2) obtain e where "find_entry c k = Some e" "view e = v" by (auto simp: find_view_def)
  with assms(3,4) find_evict_tick(1) [OF assms(1), of now k e] OpEvict show ?thesis
    by (auto simp: find_view_def view_def)
next
  case (OpFlush clock mode)
  from assms(2) obtain e where e: "map_of (entries (shard c k)) k = Some e" "view e = v"
    by (auto simp: find_view_def find_entry_def)
  have "distinct (map fst (entries (shard c k)))" using cache_wf_shard [OF assms(1)] by (simp add: shard_wf_def)
  then have "map_of (filter (\<lambda>(k, e). \<not> ce_expires e < now) (entries (shard c k))) k = Some e"
    if "now \<le> t" for now
    using that e assms(3) by (subst map_of_filter_Some) (auto simp: view_def)
  with e assms(1,4) OpFlush show ?thesis
    by (auto simp: find_view_def find_entry_def Flush_def shard_map2 flush_shard_def)
qed (use assms in \<open>simp add: find_view_def find_SetNegative\<close>)

lemma spares_neg:
  assumes "cache_wf c" "\<forall>e. find_neg c k = Some e \<longrightarrow> ne_expires e \<le> t" "spares t' k op c"
  shows "\<forall>e. find_neg (cache_step op c) k = Some e \<longrightarrow> ne_expires e \<le> t"
proof (intro allI impI)
  fix e assume "find_neg (cache_step op c) k = Some e"
  from cache_step_neg [OF assms(1) this] assms(2,3) show "ne_expires e \<le> t"
    by (cases op) auto
qed

lemma all_spare_keeps:
  "all_spare t k ops c \<Longrightarrow> cache_wf c \<Longrightarrow> find_view c k = Some v \<Longrightarrow> t \<le> snd (snd v) \<Longrightarrow>
   \<forall>e. find_neg c k = Some e \<longrightarrow> ne_expires e \<le> t \<Longrightarrow>
   find_view (fold cache_step ops c) k = Some v \<and>
   (\<forall>e. find_neg (fold cache_step ops c) k = Some e \<longrightarrow> ne_expires e \<le> t)"
proof (induction ops arbitrary: c)
  case (Cons op ops)
  note c = Cons.prems(2)
  from Cons.prems(1) have op: "spares t k op c" and ops: "all_spare t k ops (cache_step op c)" by simp_all
  show ?case
    unfolding fold_simps
    by (rule Cons.IH [OF ops cache_step_wf [OF c] spares_keeps [OF c Cons.prems(3,4) op] Cons.prems(4)
        spares_neg [OF c Cons.prems(5) op]])
qed (simp only: fold_simps simp_thms)

text \<open>
  C14: once a leader has recorded a message, a query for that name and type is answered from the cache
  until the entry expires, whatever is stored, looked up, evicted and flushed meanwhile, as long
  as nothing overwrites this entry, evicts it for want of room, flushes it or records its name
  as negative: no pool, no validator and no network is touched, and the answer is the recorded
  message with its TTLs reduced by its age. (A negative entry that is left from before, and
  not yet expired, would be asked first.)
\<close>

theorem recorded_then_served:
  assumes clock: "pure_clock env clk" and "cache_wf (w_cache w0)" "lowestTTL msg \<noteq> 0"
    and later: "w_cache w2 = fold cache_step ops (w_cache (record_outcome env cfg name qtype (Inr msg) w0))"
    and "all_spare (clk w2) (name, qtype) ops (w_cache (record_outcome env cfg name qtype (Inr msg) w0))"
    and "\<not> IsNegative (clk w2) name qtype (w_cache w0)"
    and "clk w2 \<le> clk w0 + uint (entry_ttl (w_cache w0) msg) * second"
  shows "\<exists>w3. resolve env join cfg val name qtype w2 =
      ((Inr (cloneMessageWithDecrementedTTL msg (elapsed_seconds (clk w2) (clk w0))), True), w3) \<and>
    w_pools w3 = w_pools w2 \<and> w_val w3 = w_val w2 \<and> w_rest w3 = w_rest w2"
proof -
  define k c where "k = (name, qtype)" and "c = w_cache (record_outcome env cfg name qtype (Inr msg) w0)"
  let ?v = "(msg, clk w0, clk w0 + uint (entry_ttl (w_cache w0) msg) * second)"
  have now: "e_now env = (\<lambda>w. (clk w, w))" using clock by (simp add: pure_clock_def)
  then have c: "c = Set (e_order env) (clk w0) name qtype msg (w_cache w0)"
    by (simp add: c_def record_outcome_def)
  have view: "find_view c k = Some ?v"
    using find_Set_same [OF assms(2)] assms(3) by (simp add: c k_def find_view_def new_entry_for_def view_def)
  have "find_neg c k = find_neg (w_cache w0) k" by (simp add: c neg_Set [OF assms(2)])
  then have neg: "\<forall>e. find_neg c k = Some e \<longrightarrow> ne_expires e \<le> clk w2"
    using assms(6) by (auto simp: k_def IsNegative_def find_neg_def)
  have "all_spare (clk w2) k ops c" using assms(5) by (simp add: k_def c_def)
  moreover have "cache_wf c" using assms(2) by (simp add: c Set_wf)
  moreover have "clk w2 \<le> snd (snd ?v)" using assms(7) by simp
  ultimately have "find_view (fold cache_step ops c) k = Some ?v \<and>
      (\<forall>e. find_neg (fold cache_step ops c) k = Some e \<longrightarrow> ne_expires e \<le> clk w2)"
    using view neg all_spare_keeps by blast
  then have kept: "find_view (w_cache w2) k = Some ?v"
    "\<forall>e. find_neg (w_cache w2) k = Some e \<longrightarrow> ne_expires e \<le> clk w2"
    unfolding later c_def [symmetric] by blast+
  then obtain e where e: "find_entry (w_cache w2) k = Some e" "ce_msg e = msg" "ce_cached e = clk w0"
    "ce_expires e = clk w0 + uint (entry_ttl (w_cache w0) msg) * second"
    by (auto simp: find_view_def view_def)
  have "\<not> IsNegative (clk w2) name qtype (w_cache w2)"
    using kept(2) by (auto simp: IsNegative_def find_neg_def k_def split: option.split)
  moreover obtain b c' where "Get (clk w2) (clk w2) (clk w2) (cc_Prefetch (rs_Cache (cfg_Resolver cfg))) name qtype (w_cache w2) =
      (Some (cloneMessageWithDecrementedTTL msg (elapsed_seconds (clk w2) (clk w0))), b, c')"
    using e assms(7) by (simp add: Get_def find_entry_def k_def Let_def)
  ultimately show ?thesis by (simp add: resolve_def cache_negative_def cache_get_def now)
qed

subsection \<open>Failures taken for negative answers\<close>

lemma contains_str_iff: "contains_str s t \<longleftrightarrow> (\<exists>u v. s = u @ t @ v)"
proof
  assume "contains_str s t"
  then obtain i where "prefix t (drop i s)" unfolding contains_str_def list_ex_iff by blast
  then obtain v where "drop i s = t @ v" by (auto simp: prefix_def)
  then have "s = take i s @ t @ v" by (metis append_take_drop_id)
  then show "\<exists>u v. s = u @ t @ v" by blast
next
  assume "\<exists>u v. s = u @ t @ v"
  then obtain u v where s: "s = u @ t @ v" by blast
  then have "length u \<in> set [0..<Suc (length s)]" "prefix t (drop (length u) s)" by auto
  then show "contains_str s t" unfolding contains_str_def list_ex_iff by blast
qed

lemma contains_str_append: "contains_str b t \<Longrightarrow> contains_str (a @ b) t"
  unfolding contains_str_iff by (metis append.assoc)

lemma forwarder_error_text:
  "contains_str name ''NXDOMAIN'' \<Longrightarrow>
   resolveViaServers env cfg name qtype servers w = (Inl e, w') \<Longrightarrow> contains_str e ''NXDOMAIN''"
proof (induction servers arbitrary: w)
  case Nil
  then show ?case by (auto simp del: append_Cons intro: contains_str_append)
next
  case (Cons upstream servers)
  then show ?case by (auto split: prod.splits sum.splits if_splits)
qed

text \<open>Every failure of a resolution without any reply quotes the name too.\<close>

lemma all_failed_text: "contains_str name t \<Longrightarrow> contains_str (all_failed name e) t"
  unfolding contains_str_iff all_failed_def by (metis append.assoc)

lemma resolveAt_silent:
  assumes silent: "\<And>sv n q w. isl (fst (query env cfg sv n q w))" and "contains_str name t"
    and "resolveAt env cfg depth name qtype servers w = (r, w')"
  shows "\<exists>e. r = Inl e \<and> contains_str e t"
proof -
  have servers: "\<exists>e. fst (try_servers rec env cfg name qtype lastErr svs w) = Inl e \<and> contains_str e t"
    for rec lastErr svs w
  proof (induction svs arbitrary: lastErr w)
    case (Cons sv svs)
    obtain e w1 where "query env cfg (sv @ '':53'') name qtype w = (Inl e, w1)"
      using silent by (metis isl_def prod.collapse)
    with Cons show ?case by simp
  qed (use assms(2) in \<open>simp add: all_failed_text\<close>)
  show ?thesis
  proof (cases "rs_MaxDepth (cfg_Resolver cfg) < int depth")
    case True
    with assms(2,3) show ?thesis by (auto simp: resolveAt.simps simp del: append_Cons intro: contains_str_append)
  next
    case False
    then obtain sh w1 where "try_servers (resolveAt env cfg (Suc depth)) env cfg name qtype None sh w1 = (r, w')"
      using assms(3) by (auto simp: resolveAt.simps [of env cfg depth] resolve_body_def split: prod.splits)
    with servers show ?thesis by (metis fst_conv)
  qed
qed

lemma resolve_dnssec_silent:
  assumes silent: "\<And>sv n q w. isl (fst (query env cfg sv n q w))" and "contains_str name t"
    and "resolve_dnssec env cfg name qtype w = (r, w')"
  shows "\<exists>e. r = Inl (Failed e) \<and> contains_str e t"
proof -
  have servers: "\<exists>e. fst (sec_try_servers rec nsrec env cfg name qtype sh ctx lastErr svs w) = bogus (Failed e) \<and>
      contains_str e t" for rec nsrec sh ctx lastErr svs w
  proof (induction svs arbitrary: lastErr w)
    case (Cons sv svs)
    obtain e w1 where "query env cfg (sv @ '':53'') name qtype w = (Inl e, w1)"
      using silent by (metis isl_def prod.collapse)
    with Cons show ?case by simp
  qed (use assms(2) in \<open>auto intro!: all_failed_text\<close>)
  have walk: "\<exists>e. fst (resolveAtDNSSEC env cfg depth name qtype svs ctx w) = bogus (Failed e) \<and> contains_str e t"
    for depth svs ctx w
  proof (cases "rs_MaxDepth (cfg_Resolver cfg) < int depth")
    case True
    with assms(2) show ?thesis
      by (subst resolveAtDNSSEC.simps) (auto simp del: append_Cons intro!: exI contains_str_append)
  next
    case False
    with servers show ?thesis by (subst resolveAtDNSSEC.simps) (simp split: prod.split)
  qed
  obtain k w1 where k: "lookup_keys env ''.'' w = (k, w1)" by fastforce
  obtain e w2 where "resolveAtDNSSEC env cfg 0 name qtype RootServers
      \<lparr>sc_zone = ''.'', sc_keys = (case k of Some k \<Rightarrow> k | None \<Rightarrow> [])\<rparr> w1 = (bogus (Failed e), w2)"
    "contains_str e t"
    using walk by (metis prod.collapse)
  with k assms(3) show ?thesis by (auto simp: resolve_dnssec_def bogus_def)
qed

text \<open>
  C37: failing to reach anyone counts as non-existence for a name that contains NXDOMAIN, because the
  texts of errors quote the name. With forwarded zones, or forwarders and no fallback, this
  holds of every failure (a timeout, a refused connection, a malformed reply); in every other
  configuration, the default one and the one with DNSSEC included, of every resolution
  during which no server gives an acceptable reply. Right after it the cache reports the name as
  negative.
\<close>

theorem nx_name_failure_negative:
  assumes "pure_clock env clk" "cache_wf (w_cache w0)" "contains_str name ''NXDOMAIN''"
    and "lookupZone (rs_Zones (cfg_Resolver cfg)) name \<noteq> None \<or>
      fw_Enabled (rs_Forwarder (cfg_Resolver cfg)) \<and> \<not> fw_FallbackToIterative (rs_Forwarder (cfg_Resolver cfg)) \<or>
      (\<forall>sv n q w. isl (fst (query env cfg sv n q w)))"
    and "0 \<le> cc_NegativeTTL (rs_Cache (cfg_Resolver cfg))" "cc_NegativeTTL (rs_Cache (cfg_Resolver cfg)) < 2 ^ 32"
    and "resolve_work env cfg val name qtype w = (Inl f, w0)"
  shows "IsNegative (clk w0) name qtype (w_cache (record_outcome env cfg name qtype (Inl f) w0))"
proof -
  note via = forwarder_error_text [OF assms(3)]
  have "\<exists>e. f = Failed e \<and> contains_str e ''NXDOMAIN''"
  proof (cases "lookupZone (rs_Zones (cfg_Resolver cfg)) name")
    case (Some zone)
    with assms(7) via show ?thesis
      by (auto simp: resolve_work_def lift_failure_def split: prod.splits sum.splits)
  next
    case None
    show ?thesis
    proof (cases "fw_Enabled (rs_Forwarder (cfg_Resolver cfg)) \<and> \<not> fw_FallbackToIterative (rs_Forwarder (cfg_Resolver cfg))")
      case True
      with None assms(7) via show ?thesis
        by (auto simp: resolve_work_def resolveViaForwarder_def Let_def split: prod.splits sum.splits)
    next
      case False
      then have "\<And>sv n q w. isl (fst (query env cfg sv n q w))" using None assms(4) by auto
      note silent = resolveAt_silent [OF this assms(3)] resolve_dnssec_silent [OF this assms(3)]
      consider "resolve_dnssec env cfg name qtype w = (Inl f, w0)"
        | w1 where "lift_failure (resolveAt env cfg 0 name qtype RootServers w1) = (Inl f, w0)"
        using False None assms(7)
        by (auto simp: resolve_work_def Let_def split: prod.splits sum.splits if_splits)
      then show ?thesis
      proof cases
        case 1
        from silent(2) [OF this] show ?thesis by simp
      next
        case (2 w1)
        obtain r w' where r: "resolveAt env cfg 0 name qtype RootServers w1 = (r, w')" by fastforce
        from silent(1) [OF r] 2 r show ?thesis by (auto simp: lift_failure_def)
      qed
    qed
  qed
  then obtain e where e: "f = Failed e" "contains_str e ''NXDOMAIN''" by blast
  then have "w_cache (record_outcome env cfg name qtype (Inl f) w0) =
      SetNegative (clk w0) name qtype (cc_NegativeTTL (rs_Cache (cfg_Resolver cfg))) (w_cache w0)"
    using assms(1) by (simp add: record_outcome_def pure_clock_def)
  then have "find_neg (w_cache (record_outcome env cfg name qtype (Inl f) w0)) (name, qtype) = Some
      \<lparr>ne_expires = clk w0 + wrap64 ((if cc_NegativeTTL (rs_Cache (cfg_Resolver cfg)) = 0 then 300
         else cc_NegativeTTL (rs_Cache (cfg_Resolver cfg))) * second)\<rparr>"
    by (simp add: neg_SetNegative [OF assms(2)])
  moreover have "0 < wrap64 ((if cc_NegativeTTL (rs_Cache (cfg_Resolver cfg)) = 0 then 300
         else cc_NegativeTTL (rs_Cache (cfg_Resolver cfg))) * second)"
    using assms(5,6) by (simp add: wrap64_id second_def)
  ultimately show ?thesis by (simp add: IsNegative_def find_neg_def)
qed

subsection \<open>Data that counts as authenticated\<close>

lemma bit_SetAD: "bit (Flags (SetAD True m)) 5"
  by (simp add: SetAD_def bit_setBit)

text \<open>
  C36: an answer can carry the authentic-data flag although no signature was checked. When the
  first reply is a CNAME whose target is in the cache, the walk without any key reports
  the concatenation as secure, whatever the cached message is and whatever the cryptographic
  primitives say.
\<close>

theorem cached_target_authenticated:
  assumes "0 \<le> rs_MaxDepth (cfg_Resolver cfg)"
    and "lookup_keys env ''.'' w = (None, w0)" "e_shuffle env RootServers w0 = (sv # svs, w1)"
    and "query env cfg (sv @ '':53'') name qtype w1 = (Inr resp, w2)"
    and "cname_of qtype resp = Some rr" "parseCNAME resp rr = Inr target"
    and "\<not> hasTerminalRecords (Answers resp) target qtype"
    and "cache_negative env target qtype w2 = (False, w3)"
    and "cache_get env cfg target qtype w3 = (Some cached, w4)"
  shows "\<exists>m. resolve_dnssec env cfg name qtype w = (Inr m, w4) \<and> bit (Flags m) 5 \<and>
    tl (Answers m) = map (\<lambda>rr. materializeRR rr (Raw cached)) (Answers cached)"
proof -
  let ?ctx = "\<lparr>sc_zone = ''.'', sc_keys = []\<rparr>"
  have "Answers resp \<noteq> []" using assms(5) by (auto simp: cname_of_def split: if_splits)
  then have "resolveAtDNSSEC env cfg 0 name qtype RootServers ?ctx w0 =
      ((Inr (prependCNAME resp rr cached), StatusSecure), w4)"
    using assms by (subst resolveAtDNSSEC.simps) (simp add: sec_cname_def sec_follow_def)
  then have "resolve_dnssec env cfg name qtype w = (Inr (SetAD True (prependCNAME resp rr cached)), w4)"
    using assms(2) by (simp add: resolve_dnssec_def)
  moreover have "Answers (SetAD True (prependCNAME resp rr cached)) =
      materializeRR rr (Raw resp) # map (\<lambda>rr. materializeRR rr (Raw cached)) (Answers cached)"
    by (simp add: SetAD_def prependCNAME_def header.defs message.defs)
  ultimately show ?thesis by (simp add: bit_SetAD)
qed

end
