(* ===== verification/ResolveExamples.thy ===== *)
theory ResolveExamples
  imports ResolveProps
begin

text \<open>
  A small network for the theorems on resolution: every server answers every datagram with one
  fixed packet, the world counts the datagrams (and its clock shows the count), connections
  are not kept, and no signature ever verifies.
\<close>

definition ex_env :: "byte list \<Rightarrow> int env" where
  "ex_env reply =
     \<lparr>e_dial = (\<lambda>_ _ w. (Inr (1, 0), w)),
      e_datagram = (\<lambda>_ _ w. (Inr reply, w\<lparr>w_rest := w_rest w + 1\<rparr>)),
      e_stream = (\<lambda>_ _ _ w. (Inl '''', w)),
      e_http = (\<lambda>_ _ w. (HttpError '''', w)),
      e_clock = (\<lambda>w. (\<lambda>_. w_rest w, w)),
      e_now = (\<lambda>w. (w_rest w, w)),
      e_rand = (\<lambda>w. (0, w)),
      e_shuffle = Pair,
      e_pick = (\<lambda>w. (True, w)), e_share = (\<lambda>_. ([], [])),
      e_render = (\<lambda>_. ''::1''),
      e_split_ok = (\<lambda>_. True),
      e_order = (\<lambda>xs. xs),
      e_crypto = \<lparr>c_digest = (\<lambda>_ _. []), c_rsa = (\<lambda>_ _ _ _. False), c_ecdsa = (\<lambda>_ _ _ _. False),
                  c_ed25519 = (\<lambda>_ _ _. False)\<rparr>,
      e_dnssec_text = (\<lambda>_. '''')\<rparr>"

definition ex_pools :: "transport \<Rightarrow> connPool" where
  "ex_pools tr = newConnPool ''udp'' 0"

definition ex_world :: "Cache \<Rightarrow> int \<Rightarrow> int world" where
  "ex_world c n = \<lparr>w_cache = c, w_pools = ex_pools, w_val = \<lparr>v_anchors = [], v_keyCache = []\<rparr>, w_rest = n\<rparr>"

definition ex_cfg :: Config where
  "ex_cfg = defaults"

lemma ex_clock: "pure_clock (ex_env reply) w_rest"
  by (simp add: pure_clock_def ex_env_def)

lemma ex_pools_empty: "conns (ex_pools tr) server = []"
proof -
  have "shard_of server < 16"
    using unat_and_mask_less [of "foldl fnv_byte 2166136261 (bytes_of server)" 4]
    by (simp add: shard_of_def poolShardIdx_def mask_eq_exp_minus_1)
  then show ?thesis by (simp add: ex_pools_def conns_def newConnPool_def poolNumShards_def)
qed

lemma ex_put: "w_pools w = ex_pools \<Longrightarrow> put_conn (ex_env reply) tr server pc failed w = w"
  using ex_pools_empty [of tr server]
  by (cases w) (simp add: put_conn_def ex_env_def pool_put_def Let_def ex_pools_def newConnPool_def fun_upd_idem)

lemma ex_get: "w_pools w = ex_pools \<Longrightarrow>
   get_conn (ex_env reply) tr server w = (Inr \<lparr>pc_conn = 1, pc_nextID = 0, pc_lastUsed = 0\<rparr>, w)"
  using ex_pools_empty [of tr server] by (simp add: get_conn_def ex_env_def)

text \<open>A query to any server gives the fixed reply, when the packet is an acceptable one.\<close>

definition ex_message :: "byte list \<Rightarrow> message" where
  "ex_message reply = (case ParseMessage reply of Inr m \<Rightarrow> m | Inl _ \<Rightarrow> empty_message)"

definition ex_acceptable :: "byte list \<Rightarrow> bool" where
  "ex_acceptable reply \<longleftrightarrow>
     length reply \<le> udpBufSize \<and> ParseMessage reply = Inr (ex_message reply) \<and>
     ID (ex_message reply) = 0 \<and> Rcode (ex_message reply) = 0 \<and> Flags (ex_message reply) AND 0x0200 = 0"

lemma ex_query:
  assumes "ex_acceptable reply" "w_pools w = ex_pools"
  shows "query (ex_env reply) ex_cfg server name qtype w =
    (Inr (ex_message reply), w\<lparr>w_rest := w_rest w + 1\<rparr>)"
proof -
  have dg: "e_datagram (ex_env reply) c p w = (Inr reply, w\<lparr>w_rest := w_rest w + 1\<rparr>)" for c p
    by (simp add: ex_env_def)
  have chk: "check_reply a b c d (rs_TCPFallback (cfg_Resolver ex_cfg)) 0 name server reply =
      Accepted (ex_message reply)" for a b c d
    using assms(1) by (simp add: check_reply_Accepted ex_acceptable_def)
  show ?thesis
    using assms
    by (simp add: query_def query_udp_def ex_get dg chk ex_put ex_acceptable_def)
qed

subsection \<open>Connections\<close>

text \<open>An answer with one address, a referral with glue, and an answer with a CNAME only.\<close>

definition a_reply :: "byte list" where
  "a_reply = [0, 0, 0x80, 0, 0, 0, 0, 1, 0, 0, 0, 0] @ [1, 97, 0, 0, 1, 0, 1, 0, 0, 0, 9, 0, 4, 1, 2, 3, 4]"

definition referral :: "byte list" where
  "referral = [0, 0, 0x80, 0, 0, 0, 0, 0, 0, 1, 0, 1] @
     [0, 0, 2, 0, 1, 0, 0, 0, 9, 0, 3, 1, 110, 0] @ [1, 110, 0, 0, 1, 0, 1, 0, 0, 0, 9, 0, 4, 1, 2, 3, 4]"

definition cname_reply :: "byte list" where
  "cname_reply = [0, 0, 0x80, 0, 0, 0, 0, 1, 0, 0, 0, 0] @
     [1, 97, 0, 0, 5, 0, 1, 0, 0, 0, 9, 0, 3, 1, 98, 0]"

lemma acceptable: "ex_acceptable a_reply" "ex_acceptable referral" "ex_acceptable cname_reply"
  by code_simp+

lemma query_connection_safe_witness:
  "case fst (query (ex_env a_reply) ex_cfg ''s:53'' ''a'' TypeA (ex_world NewCache 0)) of
     Inr m \<Rightarrow> ID m = 0 \<and> Rcode m = RcodeNoError
   | Inl _ \<Rightarrow> False"
proof -
  let ?w = "ex_world NewCache 0"
  have p: "w_pools ?w = ex_pools" by (simp add: ex_world_def)
  have dg: "e_datagram (ex_env a_reply) c pk ?w = (Inr a_reply, ?w\<lparr>w_rest := w_rest ?w + 1\<rparr>)" for c pk
    by (simp add: ex_env_def)
  note q = ex_query [OF acceptable(1) p, of "''s:53''" "''a''" TypeA]
  have "w_pools (?w\<lparr>w_rest := w_rest ?w + 1\<rparr>) = ex_pools" using p by simp
  note tcp = ex_get [OF this]
  from query_connection_safe [OF ex_clock disjI1 [OF refl] ex_get [OF p] dg q]
  show ?thesis by (auto simp: q tcp split: if_splits)
qed

subsection \<open>A referral loop\<close>

lemma ex_referral: "Answers (ex_message referral) = []" "extractNS (ex_message referral) \<noteq> []"
  "extractGlue (\<lambda>_. ''::1'') (ex_message referral) (extractNS (ex_message referral)) \<noteq> []"
  by code_simp+

lemma referral_loop_stops_witness:
  "\<exists>w'. resolveAt (ex_env referral) ex_cfg 0 ''a'' TypeA RootServers (ex_world NewCache 0) =
      (Inl ''max referral depth exceeded resolving a'', w') \<and> w_rest w' = 21"
proof -
  define P :: "nat \<Rightarrow> int world \<Rightarrow> bool" where "P = (\<lambda>n w. w_pools w = ex_pools \<and> w_rest w = int n)"
  have "\<exists>w'. resolveAt (ex_env referral) ex_cfg 0 ''a'' TypeA RootServers (ex_world NewCache 0) =
      (Inl (''max referral depth exceeded resolving '' @ ''a''), w') \<and>
      P (0 + nat (rs_MaxDepth (cfg_Resolver ex_cfg) + 1 - int 0)) w'"
  proof (rule referral_loop_stops [where m = "ex_message referral"])
    show "P 0 (ex_world NewCache 0)" by (simp add: P_def ex_world_def)
    show "\<exists>w'. query (ex_env referral) ex_cfg server ''a'' TypeA w = (Inr (ex_message referral), w') \<and> P (Suc n) w'"
      if "P n w" for server n w
      using that ex_query [OF acceptable(2), of w server "''a''" TypeA] by (simp add: P_def)
    show "\<exists>svs' w'. e_shuffle (ex_env referral) svs w = (svs', w') \<and> svs' \<noteq> [] \<and> P n w'"
      if "P n w" "svs \<noteq> []" for svs n w using that by (simp add: ex_env_def)
  qed (use ex_referral in \<open>simp_all add: RootServers_def ex_env_def\<close>)
  moreover have "rs_MaxDepth (cfg_Resolver ex_cfg) = 20" by (simp add: ex_cfg_def defaults_def)
  ultimately show ?thesis by (auto simp: P_def)
qed

subsection \<open>Caching\<close>

lemma NewCache_wf': "cache_wf NewCache"
  using NewCache_wf [where p = False and m = 0 and n = 0] by (simp add: NewCache_def)

text \<open>Five seconds after the answer was recorded: another one was stored, and expired entries were removed.\<close>

definition a_later :: "cache_op list" where
  "a_later = [OpSet (\<lambda>xs. xs) 1000000000 ''b'' TypeA (ex_message a_reply), OpGet 2 2 2 True ''a'' TypeA,
     OpEvict 3000000000, OpFlush (\<lambda>_. 4000000000) ''expired'']"

definition a_recorded :: "int world" where
  "a_recorded = ex_world (fold cache_step a_later
     (w_cache (record_outcome (ex_env []) ex_cfg ''a'' TypeA (Inr (ex_message a_reply)) (ex_world NewCache 0)))) 5000000000"

lemma recorded_then_served_witness:
  "\<exists>w3. resolve (ex_env []) (\<lambda>_ w. (None, w)) ex_cfg False ''a'' TypeA a_recorded =
      ((Inr (cloneMessageWithDecrementedTTL (ex_message a_reply) (elapsed_seconds 5000000000 0)), True), w3) \<and>
    w_rest w3 = 5000000000"
proof -
  have "w_cache (record_outcome (ex_env []) ex_cfg ''a'' TypeA (Inr (ex_message a_reply)) (ex_world NewCache 0)) =
      Set (\<lambda>xs. xs) 0 ''a'' TypeA (ex_message a_reply) NewCache"
    by (simp add: record_outcome_def ex_env_def ex_world_def)
  moreover have "maxPerShard (Set ord now n q m NewCache) = 0" for ord now n q m
    by (simp add: Set_def Let_def put_shard_def NewCache_def)
  then have "all_spare 5000000000 (''a'', TypeA) a_later
      (Set (\<lambda>xs. xs) 0 ''a'' TypeA (ex_message a_reply) NewCache)"
    by (simp add: a_later_def crowds_out_def)
  moreover have "lowestTTL (ex_message a_reply) \<noteq> 0" "entry_ttl NewCache (ex_message a_reply) = 9"
    "\<not> IsNegative 5000000000 ''a'' TypeA NewCache" by code_simp+
  ultimately show ?thesis
    using recorded_then_served [OF ex_clock [of "[]"], of "ex_world NewCache 0" "ex_message a_reply"
        a_recorded a_later ex_cfg "''a''" TypeA "\<lambda>_ w. (None, w)" False] NewCache_wf'
    by (auto simp: a_recorded_def ex_world_def second_def)
qed

text \<open>The same network, silent.\<close>

definition dead_env :: "int env" where
  "dead_env = ex_env []\<lparr>e_datagram := (\<lambda>_ _ w. (Inl ''timeout'', w))\<rparr>"

lemma dead_clock: "pure_clock dead_env w_rest"
  by (simp add: pure_clock_def dead_env_def ex_env_def)

lemma dead_query: "isl (fst (query dead_env cfg sv n q w))"
  by (cases "get_conn dead_env UDP sv w")
    (auto simp: query_def query_udp_def dead_env_def split: sum.split)

lemma dead_query_same:
  assumes "w_pools w = ex_pools"
  shows "\<exists>e. query dead_env cfg sv n q w = (Inl e, w)"
proof -
  have "get_conn dead_env UDP sv w = (Inr \<lparr>pc_conn = 1, pc_nextID = 0, pc_lastUsed = 0\<rparr>, w)"
    using assms ex_pools_empty by (simp add: get_conn_def dead_env_def ex_env_def)
  then show ?thesis
    using put_conn_failed [OF dead_clock] by (simp add: query_def query_udp_def) (simp add: dead_env_def)
qed

lemma dead_servers: "w_pools w = ex_pools \<Longrightarrow> \<exists>e. try_servers rec dead_env cfg n q le svs w = (Inl e, w)"
proof (induction svs arbitrary: le)
  case (Cons sv svs)
  from dead_query_same [OF Cons.prems] obtain e where "query dead_env cfg (sv @ '':53'') n q w = (Inl e, w)" by blast
  with Cons show ?case by simp
qed simp

lemma nx_name_failure_negative_witness:
  "\<exists>f. resolve_work dead_env defaults False ''NXDOMAIN.org'' TypeA (ex_world NewCache 0) = (Inl f, ex_world NewCache 0) \<and>
     IsNegative 0 ''NXDOMAIN.org'' TypeA
       (w_cache (record_outcome dead_env defaults ''NXDOMAIN.org'' TypeA (Inl f) (ex_world NewCache 0)))"
proof -
  let ?w = "ex_world NewCache 0"
  have "contains_str ''NXDOMAIN.org'' ''NXDOMAIN''" by code_simp
  moreover obtain f where f: "resolve_work dead_env defaults False ''NXDOMAIN.org'' TypeA ?w = (Inl f, ?w)"
  proof -
    have "w_pools ?w = ex_pools" by (simp add: ex_world_def)
    note tried = dead_servers [OF this]
    have "e_shuffle dead_env = Pair" by (simp add: dead_env_def ex_env_def)
    moreover have "\<not> rs_MaxDepth (cfg_Resolver defaults) < int 0" by (simp add: defaults_def)
    ultimately have "\<exists>e. resolveAt dead_env defaults 0 ''NXDOMAIN.org'' TypeA RootServers ?w = (Inl e, ?w)"
      using tried by (subst resolveAt.simps) (simp add: resolve_body_def)
    then obtain e where "resolveAt dead_env defaults 0 ''NXDOMAIN.org'' TypeA RootServers ?w = (Inl e, ?w)" by blast
    moreover have "\<not> fw_Enabled (rs_Forwarder (cfg_Resolver defaults))" "rs_Zones (cfg_Resolver defaults) = []"
      by (simp_all add: defaults_def)
    ultimately show thesis
      using that by (simp add: resolve_work_def lift_failure_def lookupZone_def)
  qed
  ultimately show ?thesis
    using nx_name_failure_negative [OF dead_clock, of ?w "''NXDOMAIN.org''" defaults False TypeA ?w f] NewCache_wf'
      dead_query
    by (simp add: ex_world_def) (simp add: defaults_def)
qed

definition b_cached :: Cache where
  "b_cached = Set (\<lambda>xs. xs) 0 ''b'' TypeA (ex_message a_reply) NewCache"

lemma cached_target_authenticated_witness:
  "\<exists>m w'. resolve_dnssec (ex_env cname_reply) ex_cfg ''a'' TypeA (ex_world b_cached 0) = (Inr m, w') \<and>
     bit (Flags m) 5"
proof -
  let ?w = "ex_world b_cached 0" and ?w' = "ex_world b_cached 1"
  obtain rr where rr: "cname_of TypeA (ex_message cname_reply) = Some rr"
    "parseCNAME (ex_message cname_reply) rr = Inr ''b''"
  proof -
    have "map_option (parseCNAME (ex_message cname_reply)) (cname_of TypeA (ex_message cname_reply)) =
      Some (Inr ''b'')" by code_simp
    then show thesis using that by auto
  qed
  have pools: "w_pools ?w = ex_pools" and step: "?w\<lparr>w_rest := w_rest ?w + 1\<rparr> = ?w'" by (simp_all add: ex_world_def)
  have root: "lookup_keys (ex_env cname_reply) ''.'' ?w = (None, ?w)"
    by (simp add: lookup_keys_def LookupZoneKeys_def ex_env_def ex_world_def)
  obtain sv svs where sh: "e_shuffle (ex_env cname_reply) RootServers ?w = (sv # svs, ?w)"
    by (simp add: ex_env_def RootServers_def)
  have neg: "cache_negative (ex_env cname_reply) ''b'' TypeA ?w' = (False, ?w')"
  proof -
    have "\<not> IsNegative 1 ''b'' TypeA b_cached" by code_simp
    then show ?thesis by (simp add: cache_negative_def ex_env_def ex_world_def)
  qed
  have "lowestTTL (ex_message a_reply) \<noteq> 0" "entry_ttl NewCache (ex_message a_reply) = 9" by code_simp+
  then have "find_entry b_cached (''b'', TypeA) = Some (new_entry_for 0 (ex_message a_reply) NewCache)"
    by (simp add: b_cached_def find_Set_same NewCache_wf')
  then obtain cached b c where "Get 1 1 1 True ''b'' TypeA b_cached = (Some cached, b, c)"
    using \<open>entry_ttl NewCache (ex_message a_reply) = 9\<close>
    by (simp add: Get_def find_entry_def new_entry_for_def Let_def second_def)
  then have get: "cache_get (ex_env cname_reply) ex_cfg ''b'' TypeA ?w' = (Some cached, ?w'\<lparr>w_cache := c\<rparr>)"
    by (simp add: cache_get_def ex_env_def ex_world_def ex_cfg_def defaults_def)
  have depth: "0 \<le> rs_MaxDepth (cfg_Resolver ex_cfg)" by (simp add: ex_cfg_def defaults_def)
  have noterm: "\<not> hasTerminalRecords (Answers (ex_message cname_reply)) ''b'' TypeA" by code_simp
  have q: "query (ex_env cname_reply) ex_cfg (sv @ '':53'') ''a'' TypeA ?w = (Inr (ex_message cname_reply), ?w')"
    using ex_query [OF acceptable(3) pools] by (simp only: step)
  from cached_target_authenticated [OF depth root sh q rr noterm neg get]
  obtain m where "resolve_dnssec (ex_env cname_reply) ex_cfg ''a'' TypeA ?w = (Inr m, ?w'\<lparr>w_cache := c\<rparr>)"
    and "bit (Flags m) 5" by (elim exE conjE)
  then show ?thesis by (intro exI conjI)
qed

end
