(* ===== verification/Inflight.thy ===== *)
theory Inflight
  imports Prelude
begin

text \<open>
  The table of running resolutions in \<open>Server.resolve\<close> and the semaphore \<open>sem\<close>, as a step
  relation over any number of goroutines. A goroutine that misses the cache either registers a
  call for its key and becomes its leader, or waits for the leader; the leader takes the
  semaphore, resolves, publishes its result, and in the order of the deferred functions gives
  the semaphore back, removes the key and closes the call.
\<close>

record 'r call =
  cl_key :: string
  cl_result :: "'r option"
  cl_closed :: bool

text \<open>Where a goroutine stands, with its key and its call.\<close>

datatype 'r goroutine =
  Missed string
| Waiting string nat
| Leading string nat
| Running string nat
| Releasing string nat
| Deleting string nat
| Closing string nat
| Returned string 'r

record 'r flight =
  fl_gs :: "'r goroutine list"
  fl_table :: "(string \<times> nat) list"
  fl_calls :: "'r call list"
  fl_sem :: nat

definition set_g :: "nat \<Rightarrow> 'r goroutine \<Rightarrow> 'r flight \<Rightarrow> 'r flight" where
  "set_g g st s = s\<lparr>fl_gs := (fl_gs s)[g := st]\<rparr>"

definition set_call :: "nat \<Rightarrow> ('r call \<Rightarrow> 'r call) \<Rightarrow> 'r flight \<Rightarrow> 'r flight" where
  "set_call c f s = s\<lparr>fl_calls := (fl_calls s)[c := f (fl_calls s ! c)]\<rparr>"

definition at_g :: "'r flight \<Rightarrow> nat \<Rightarrow> 'r goroutine \<Rightarrow> bool" where
  "at_g s g st \<longleftrightarrow> g < length (fl_gs s) \<and> fl_gs s ! g = st"

text \<open>\<open>cap\<close> is the capacity of the semaphore, \<open>None\<close> when it is not configured.\<close>

inductive flight_step :: "nat option \<Rightarrow> 'r flight \<Rightarrow> 'r flight \<Rightarrow> bool" for cap :: "nat option" where
  spawn: "flight_step cap s (s\<lparr>fl_gs := fl_gs s @ [Missed key]\<rparr>)"
| lead: "at_g s g (Missed key) \<Longrightarrow> map_of (fl_table s) key = None \<Longrightarrow>
    flight_step cap s (set_g g (Leading key (length (fl_calls s)))
      (s\<lparr>fl_table := AList.update key (length (fl_calls s)) (fl_table s),
         fl_calls := fl_calls s @ [\<lparr>cl_key = key, cl_result = None, cl_closed = False\<rparr>]\<rparr>))"
| join: "at_g s g (Missed key) \<Longrightarrow> map_of (fl_table s) key = Some c \<Longrightarrow>
    flight_step cap s (set_g g (Waiting key c) s)"
| acquire: "at_g s g (Leading key c) \<Longrightarrow> (case cap of None \<Rightarrow> True | Some n \<Rightarrow> fl_sem s < n) \<Longrightarrow>
    flight_step cap s (set_g g (Running key c) (s\<lparr>fl_sem := fl_sem s + 1\<rparr>))"
| publish: "at_g s g (Running key c) \<Longrightarrow>
    flight_step cap s (set_g g (Releasing key c) (set_call c (\<lambda>x. x\<lparr>cl_result := Some r\<rparr>) s))"
| release: "at_g s g (Releasing key c) \<Longrightarrow>
    flight_step cap s (set_g g (Deleting key c) (s\<lparr>fl_sem := fl_sem s - 1\<rparr>))"
| delete: "at_g s g (Deleting key c) \<Longrightarrow>
    flight_step cap s (set_g g (Closing key c) (s\<lparr>fl_table := AList.delete key (fl_table s)\<rparr>))"
| closes: "at_g s g (Closing key c) \<Longrightarrow> cl_result (fl_calls s ! c) = Some r \<Longrightarrow>
    flight_step cap s (set_g g (Returned key r) (set_call c (\<lambda>x. x\<lparr>cl_closed := True\<rparr>) s))"
| wake: "at_g s g (Waiting key c) \<Longrightarrow> cl_closed (fl_calls s ! c) \<Longrightarrow>
    cl_result (fl_calls s ! c) = Some r \<Longrightarrow>
    flight_step cap s (set_g g (Returned key r) s)"

definition flight_start :: "'r flight" where
  "flight_start = \<lparr>fl_gs = [], fl_table = [], fl_calls = [], fl_sem = 0\<rparr>"

inductive flight_reachable :: "nat option \<Rightarrow> 'r flight \<Rightarrow> bool" for cap :: "nat option" where
  start: "flight_reachable cap flight_start"
| step: "flight_reachable cap s \<Longrightarrow> flight_step cap s s' \<Longrightarrow> flight_reachable cap s'"

subsection \<open>The invariant\<close>

text \<open>The call a goroutine has registered and not yet closed; whether its key is in the table.\<close>

fun owns :: "'r goroutine \<Rightarrow> (string \<times> nat) option" where
  "owns (Leading key c) = Some (key, c)"
| "owns (Running key c) = Some (key, c)"
| "owns (Releasing key c) = Some (key, c)"
| "owns (Deleting key c) = Some (key, c)"
| "owns (Closing key c) = Some (key, c)"
| "owns _ = None"

fun registered :: "'r goroutine \<Rightarrow> (string \<times> nat) option" where
  "registered (Leading key c) = Some (key, c)"
| "registered (Running key c) = Some (key, c)"
| "registered (Releasing key c) = Some (key, c)"
| "registered (Deleting key c) = Some (key, c)"
| "registered _ = None"

fun holds_sem :: "'r goroutine \<Rightarrow> bool" where
  "holds_sem (Running _ _) = True"
| "holds_sem (Releasing _ _) = True"
| "holds_sem _ = False"

text \<open>Whether the result of its call is settled, for an owner.\<close>

fun published :: "'r goroutine \<Rightarrow> bool" where
  "published (Leading _ _) = False"
| "published (Running _ _) = False"
| "published _ = True"

text \<open>What holds of one goroutine in a table and a list of calls.\<close>

fun g_ok :: "(string \<times> nat) list \<Rightarrow> 'r call list \<Rightarrow> 'r goroutine \<Rightarrow> bool" where
  "g_ok table calls (Missed key) = True"
| "g_ok table calls (Returned key r) = list_ex (\<lambda>x. cl_key x = key \<and> cl_result x = Some r) calls"
| "g_ok table calls (Waiting key c) = (c < length calls \<and> cl_key (calls ! c) = key)"
| "g_ok table calls st =
     (case owns st of None \<Rightarrow> True | Some (key, c) \<Rightarrow>
        c < length calls \<and> cl_key (calls ! c) = key \<and> \<not> cl_closed (calls ! c) \<and>
        (published st \<longleftrightarrow> cl_result (calls ! c) \<noteq> None) \<and>
        (registered st = Some (key, c) \<longrightarrow> map_of table key = Some c))"

definition gs_ok :: "'r flight \<Rightarrow> bool" where
  "gs_ok s \<longleftrightarrow> (\<forall>g < length (fl_gs s). g_ok (fl_table s) (fl_calls s) (fl_gs s ! g))"

definition owners_unique :: "'r flight \<Rightarrow> bool" where
  "owners_unique s \<longleftrightarrow>
     (\<forall>g < length (fl_gs s). \<forall>g' < length (fl_gs s). \<forall>k k' c.
        owns (fl_gs s ! g) = Some (k, c) \<longrightarrow> owns (fl_gs s ! g') = Some (k', c) \<longrightarrow> g = g')"

definition table_ok :: "'r flight \<Rightarrow> bool" where
  "table_ok s \<longleftrightarrow>
     (\<forall>key c. map_of (fl_table s) key = Some c \<longrightarrow>
        (\<exists>g < length (fl_gs s). registered (fl_gs s ! g) = Some (key, c)))"

definition calls_ok :: "'r flight \<Rightarrow> bool" where
  "calls_ok s \<longleftrightarrow>
     (\<forall>c < length (fl_calls s).
        (cl_closed (fl_calls s ! c) \<longrightarrow> cl_result (fl_calls s ! c) \<noteq> None) \<and>
        (\<not> cl_closed (fl_calls s ! c) \<longrightarrow> (\<exists>g < length (fl_gs s). \<exists>k. owns (fl_gs s ! g) = Some (k, c))))"

definition sem_ok :: "nat option \<Rightarrow> 'r flight \<Rightarrow> bool" where
  "sem_ok cap s \<longleftrightarrow>
     length (filter holds_sem (fl_gs s)) = fl_sem s \<and> (case cap of None \<Rightarrow> True | Some n \<Rightarrow> fl_sem s \<le> n)"

lemma registered_owns: "registered st = Some kc \<Longrightarrow> owns st = Some kc"
  by (cases st) auto

lemma g_ok_owner:
  assumes "owns st = Some (key, c)"
  shows "g_ok table calls st \<longleftrightarrow>
    c < length calls \<and> cl_key (calls ! c) = key \<and> \<not> cl_closed (calls ! c) \<and>
    (published st \<longleftrightarrow> cl_result (calls ! c) \<noteq> None) \<and>
    (registered st = Some (key, c) \<longrightarrow> map_of table key = Some c)"
  using assms by (cases st) auto

lemma g_ok_call: "g_ok table calls st \<Longrightarrow> owns st = Some (k, c) \<Longrightarrow> c < length calls"
  by (simp add: g_ok_owner)

lemma count_update:
  "g < length xs \<Longrightarrow>
   length (filter P (xs[g := y])) + (if P (xs ! g) then 1 else 0) = length (filter P xs) + (if P y then 1 else 0)"
proof (induction xs arbitrary: g)
  case (Cons x xs)
  then show ?case by (cases g) auto
qed simp

text \<open>How the conditions on a goroutine survive the steps of another one.\<close>

lemma g_ok_new_call:
  assumes "g_ok table calls st" "map_of table key = None"
  shows "g_ok (AList.update key (length calls) table) (calls @ [x]) st"
proof (cases "owns st")
  case None
  with assms(1) show ?thesis by (cases st) (auto simp: nth_append)
next
  case (Some kc)
  with assms show ?thesis
    by (cases kc) (auto simp: g_ok_owner nth_append map_of_update)
qed

lemma g_ok_call_update:
  assumes "g_ok table calls st" "\<And>k. owns st \<noteq> Some (k, c)" "c < length calls"
    and "cl_key (f (calls ! c)) = cl_key (calls ! c)"
    and "cl_result (calls ! c) \<noteq> None \<longrightarrow> cl_result (f (calls ! c)) = cl_result (calls ! c)"
  shows "g_ok table (calls[c := f (calls ! c)]) st"
proof (cases "owns st")
  case None
  show ?thesis
  proof (cases st)
    case (Returned key r)
    with assms(1) obtain i where i: "i < length calls" "cl_key (calls ! i) = key" "cl_result (calls ! i) = Some r"
      by (auto simp: list_ex_length)
    with assms(4,5) have "cl_key (calls[c := f (calls ! c)] ! i) = key \<and>
        cl_result (calls[c := f (calls ! c)] ! i) = Some r"
      by (cases "i = c") auto
    with i(1) Returned show ?thesis by (auto simp: list_ex_length)
  qed (use assms None in \<open>auto simp: nth_list_update\<close>)
next
  case (Some kc)
  with assms show ?thesis by (cases kc) (auto simp: g_ok_owner nth_list_update)
qed

lemma g_ok_delete:
  assumes "g_ok table calls st" "\<And>c. registered st \<noteq> Some (key, c)"
  shows "g_ok (AList.delete key table) calls st"
proof (cases "owns st")
  case None
  with assms(1) show ?thesis by (cases st) auto
next
  case (Some kc)
  with assms show ?thesis by (cases kc) (auto simp: g_ok_owner map_of_delete)
qed

subsection \<open>Preservation\<close>

definition flight_inv :: "nat option \<Rightarrow> 'r flight \<Rightarrow> bool" where
  "flight_inv cap s \<longleftrightarrow>
     gs_ok s \<and> owners_unique s \<and> table_ok s \<and> calls_ok s \<and> sem_ok cap s"

lemmas flight_parts = gs_ok_def owners_unique_def table_ok_def calls_ok_def sem_ok_def

lemmas flight_updates = set_g_def set_call_def at_g_def

text \<open>A step that changes one goroutine and no other part keeps what the change allows.\<close>

lemma update_same_owner:
  assumes "flight_inv cap s" "g < length (fl_gs s)" "owns st = owns (fl_gs s ! g)"
    and "registered st = registered (fl_gs s ! g)" "g_ok (fl_table s) (fl_calls s) st"
    and "sem_ok cap (set_g g st s')" "s' = s\<lparr>fl_sem := n\<rparr>"
  shows "flight_inv cap (set_g g st s')"
proof -
  have eq: "owns ((fl_gs s)[g := st] ! i) = owns (fl_gs s ! i)"
    "registered ((fl_gs s)[g := st] ! i) = registered (fl_gs s ! i)" for i
    using assms(2-4) by (cases "i = g"; simp)+
  have "gs_ok (set_g g st s')"
    using assms(1,2,5,7) by (auto simp: flight_inv_def gs_ok_def set_g_def nth_list_update)
  moreover have "owners_unique (set_g g st s')" "table_ok (set_g g st s')" "calls_ok (set_g g st s')"
    using assms(1,7) unfolding flight_inv_def owners_unique_def table_ok_def calls_ok_def
    by (simp_all add: set_g_def eq)
  ultimately show ?thesis using assms(6) by (simp add: flight_inv_def)
qed

lemma sem_update:
  assumes "sem_ok cap s" "g < length (fl_gs s)" "holds_sem (fl_gs s ! g) = holds_sem st"
    "fl_gs s' = (fl_gs s)[g := st]" "fl_sem s' = fl_sem s"
  shows "sem_ok cap s'"
  using assms count_update [OF assms(2), of holds_sem st]
  by (auto simp: sem_ok_def split: if_splits option.splits)

text \<open>The parts of the invariant as rules.\<close>

lemma inv_g_ok: "flight_inv cap s \<Longrightarrow> i < length (fl_gs s) \<Longrightarrow> g_ok (fl_table s) (fl_calls s) (fl_gs s ! i)"
  by (simp add: flight_inv_def gs_ok_def)

lemma inv_unique:
  "flight_inv cap s \<Longrightarrow> i < length (fl_gs s) \<Longrightarrow> j < length (fl_gs s) \<Longrightarrow>
   owns (fl_gs s ! i) = Some (k, c) \<Longrightarrow> owns (fl_gs s ! j) = Some (k', c) \<Longrightarrow> i = j"
  unfolding flight_inv_def owners_unique_def by blast

lemma inv_table:
  "flight_inv cap s \<Longrightarrow> map_of (fl_table s) key = Some c \<Longrightarrow>
   \<exists>g < length (fl_gs s). registered (fl_gs s ! g) = Some (key, c)"
  by (simp add: flight_inv_def table_ok_def)

lemma inv_owner:
  "flight_inv cap s \<Longrightarrow> c < length (fl_calls s) \<Longrightarrow> \<not> cl_closed (fl_calls s ! c) \<Longrightarrow>
   \<exists>g < length (fl_gs s). \<exists>k. owns (fl_gs s ! g) = Some (k, c)"
  by (simp add: flight_inv_def calls_ok_def)

lemma inv_settled:
  "flight_inv cap s \<Longrightarrow> c < length (fl_calls s) \<Longrightarrow> cl_closed (fl_calls s ! c) \<Longrightarrow>
   cl_result (fl_calls s ! c) \<noteq> None"
  by (simp add: flight_inv_def calls_ok_def)

lemma inv_sem: "flight_inv cap s \<Longrightarrow> sem_ok cap s"
  by (simp add: flight_inv_def)

text \<open>At most one goroutine is registered for a key.\<close>

lemma registered_unique:
  assumes inv: "flight_inv cap s" "i < length (fl_gs s)" "j < length (fl_gs s)"
    and r: "registered (fl_gs s ! i) = Some (key, c)" "registered (fl_gs s ! j) = Some (key, c')"
  shows "i = j"
proof -
  have "map_of (fl_table s) key = Some c" "map_of (fl_table s) key = Some c'"
    using inv_g_ok [OF inv(1,2)] inv_g_ok [OF inv(1,3)] r
    by (simp_all add: g_ok_owner [OF registered_owns [OF r(1)]] g_ok_owner [OF registered_owns [OF r(2)]])
  then show ?thesis using inv_unique [OF inv registered_owns [OF r(1)]] registered_owns [OF r(2)] by auto
qed

text \<open>The three ways a leader changes the shared state: it registers a new call, settles or
closes its own call, and takes its key out of the table.\<close>

lemma lead_inv:
  assumes inv: "flight_inv cap s" and g: "g < length (fl_gs s)" "fl_gs s ! g = Missed key"
    and free: "map_of (fl_table s) key = None"
  shows "flight_inv cap (set_g g (Leading key (length (fl_calls s)))
      (s\<lparr>fl_table := AList.update key (length (fl_calls s)) (fl_table s),
         fl_calls := fl_calls s @ [\<lparr>cl_key = key, cl_result = None, cl_closed = False\<rparr>]\<rparr>))"
    (is "flight_inv cap ?s")
proof -
  let ?n = "length (fl_calls s)"
  have other: "owns (fl_gs s ! i) \<noteq> Some (k, ?n)" if "i < length (fl_gs s)" for i k
    using g_ok_call [OF inv_g_ok [OF inv that]] by auto
  have "g_ok (fl_table ?s) (fl_calls ?s) (Leading key ?n)"
    by (simp add: set_g_def map_of_update)
  moreover have "g_ok (fl_table ?s) (fl_calls ?s) (fl_gs s ! i)" if "i < length (fl_gs s)" for i
    using g_ok_new_call [OF inv_g_ok [OF inv that] free] by (simp add: set_g_def)
  ultimately have "gs_ok ?s" using g(1)
    by (auto simp: gs_ok_def set_g_def nth_list_update simp del: g_ok.simps)
  moreover have "owners_unique ?s" using g inv_unique [OF inv] other
    by (auto simp: owners_unique_def set_g_def nth_list_update split: if_splits)
  moreover have "table_ok ?s"
    unfolding table_ok_def
  proof (intro allI impI)
    fix k c assume "map_of (fl_table ?s) k = Some c"
    then have "map_of (AList.update key ?n (fl_table s)) k = Some c" by (simp add: set_g_def)
    then consider "k = key" "c = ?n" | "map_of (fl_table s) k = Some c"
      by (cases "k = key") (auto simp: map_of_update)
    then show "\<exists>i < length (fl_gs ?s). registered (fl_gs ?s ! i) = Some (k, c)"
    proof cases
      case 1
      with g show ?thesis by (intro exI [of _ g]) (simp add: set_g_def)
    next
      case 2
      from inv_table [OF inv 2] obtain i where "i < length (fl_gs s)" "registered (fl_gs s ! i) = Some (k, c)"
        by blast
      with g show ?thesis by (intro exI [of _ i]) (auto simp: set_g_def nth_list_update)
    qed
  qed
  moreover have "calls_ok ?s"
    unfolding calls_ok_def
  proof (intro allI impI conjI)
    fix c assume c: "c < length (fl_calls ?s)" and "cl_closed (fl_calls ?s ! c)"
    then show "cl_result (fl_calls ?s ! c) \<noteq> None"
      using inv_settled [OF inv, of c] by (auto simp: set_g_def nth_append split: if_splits)
  next
    fix c assume c: "c < length (fl_calls ?s)" and "\<not> cl_closed (fl_calls ?s ! c)"
    then consider "c = ?n" | "c < ?n" "\<not> cl_closed (fl_calls s ! c)"
      by (auto simp: set_g_def nth_append split: if_splits)
    then show "\<exists>i < length (fl_gs ?s). \<exists>k. owns (fl_gs ?s ! i) = Some (k, c)"
    proof cases
      case 1
      with g show ?thesis by (intro exI [of _ g]) (simp add: set_g_def)
    next
      case 2
      from inv_owner [OF inv 2] obtain i k where "i < length (fl_gs s)" "owns (fl_gs s ! i) = Some (k, c)"
        by blast
      with g show ?thesis by (intro exI [of _ i]) (auto simp: set_g_def nth_list_update)
    qed
  qed
  moreover have "sem_ok cap ?s"
    by (rule sem_update [OF inv_sem [OF inv] g(1)]) (simp_all add: g(2) set_g_def)
  ultimately show ?thesis by (simp add: flight_inv_def)
qed

lemma own_call_inv:
  assumes inv: "flight_inv cap s" and g: "g < length (fl_gs s)" "owns (fl_gs s ! g) = Some (key, c)"
    and st: "owns st = Some (key, c) \<or> owns st = None \<and> cl_closed (f (fl_calls s ! c))"
      "registered st = registered (fl_gs s ! g)" "holds_sem (fl_gs s ! g) = holds_sem st"
      "g_ok (fl_table s) ((fl_calls s)[c := f (fl_calls s ! c)]) st"
    and f: "cl_key (f (fl_calls s ! c)) = cl_key (fl_calls s ! c)"
      "cl_result (fl_calls s ! c) \<noteq> None \<longrightarrow> cl_result (f (fl_calls s ! c)) = cl_result (fl_calls s ! c)"
      "cl_closed (f (fl_calls s ! c)) \<longrightarrow> cl_result (f (fl_calls s ! c)) \<noteq> None"
  shows "flight_inv cap (set_g g st (set_call c f s))" (is "flight_inv cap ?s")
proof -
  have c: "c < length (fl_calls s)" using g_ok_call [OF inv_g_ok [OF inv g(1)] g(2)] .
  have other: "owns (fl_gs s ! i) \<noteq> Some (k, c)" if "i < length (fl_gs s)" "i \<noteq> g" for i k
    using inv_unique [OF inv that(1) g(1) _ g(2)] that(2) by blast
  have "g_ok (fl_table s) ((fl_calls s)[c := f (fl_calls s ! c)]) (fl_gs s ! i)"
    if "i < length (fl_gs s)" "i \<noteq> g" for i
    using g_ok_call_update [where f = f, OF inv_g_ok [OF inv that(1)] other [OF that] c f(1,2)] .
  then have "gs_ok ?s" using g(1) st(4)
    by (auto simp: gs_ok_def set_g_def set_call_def nth_list_update simp del: g_ok.simps)
  moreover have "owners_unique ?s" using g st(1) inv_unique [OF inv]
    by (auto simp: owners_unique_def set_g_def set_call_def nth_list_update split: if_splits)
  moreover have "table_ok ?s" unfolding table_ok_def
  proof (intro allI impI)
    fix k d assume "map_of (fl_table ?s) k = Some d"
    with inv_table [OF inv] obtain i where "i < length (fl_gs s)" "registered (fl_gs s ! i) = Some (k, d)"
      by (auto simp: set_g_def set_call_def)
    with g st(2) show "\<exists>i < length (fl_gs ?s). registered (fl_gs ?s ! i) = Some (k, d)"
      by (intro exI [of _ i]) (auto simp: set_g_def set_call_def nth_list_update)
  qed
  moreover have "calls_ok ?s" unfolding calls_ok_def
  proof (intro allI impI conjI)
    fix d assume "d < length (fl_calls ?s)" "cl_closed (fl_calls ?s ! d)"
    then show "cl_result (fl_calls ?s ! d) \<noteq> None"
      using inv_settled [OF inv, of d] f(3) c by (cases "d = c") (auto simp: set_g_def set_call_def)
  next
    fix d assume d: "d < length (fl_calls ?s)" "\<not> cl_closed (fl_calls ?s ! d)"
    show "\<exists>i < length (fl_gs ?s). \<exists>k. owns (fl_gs ?s ! i) = Some (k, d)"
    proof (cases "d = c")
      case True
      with d c g st(1) show ?thesis by (intro exI [of _ g]) (auto simp: set_g_def set_call_def)
    next
      case False
      with d inv_owner [OF inv, of d] obtain i k where "i < length (fl_gs s)" "owns (fl_gs s ! i) = Some (k, d)"
        by (auto simp: set_g_def set_call_def)
      with False g show ?thesis by (intro exI [of _ i]) (auto simp: set_g_def set_call_def nth_list_update)
    qed
  qed
  moreover have "sem_ok cap ?s"
    by (rule sem_update [OF inv_sem [OF inv] g(1) st(3)]) (simp_all add: set_g_def set_call_def)
  ultimately show ?thesis by (simp add: flight_inv_def)
qed

lemma delete_inv:
  assumes inv: "flight_inv cap s" and g: "g < length (fl_gs s)" "fl_gs s ! g = Deleting key c"
  shows "flight_inv cap (set_g g (Closing key c) (s\<lparr>fl_table := AList.delete key (fl_table s)\<rparr>))"
    (is "flight_inv cap ?s")
proof -
  have other: "registered (fl_gs s ! i) \<noteq> Some (key, d)" if "i < length (fl_gs s)" "i \<noteq> g" for i d
    using registered_unique [OF inv that(1) g(1)] g(2) that(2) by force
  have eq: "owns ((fl_gs s)[g := Closing key c] ! i) = owns (fl_gs s ! i)" for i
    using g by (cases "i = g") simp_all
  have "g_ok (AList.delete key (fl_table s)) (fl_calls s) (Closing key c)"
    using inv_g_ok [OF inv g(1)] by (simp add: g(2))
  moreover have "g_ok (AList.delete key (fl_table s)) (fl_calls s) (fl_gs s ! i)"
    if "i < length (fl_gs s)" "i \<noteq> g" for i
    using g_ok_delete [OF inv_g_ok [OF inv that(1)] other [OF that]] .
  ultimately have "gs_ok ?s" using g by (auto simp: gs_ok_def set_g_def nth_list_update simp del: g_ok.simps)
  moreover have "owners_unique ?s" "calls_ok ?s" using inv
    unfolding flight_inv_def owners_unique_def calls_ok_def by (simp_all add: set_g_def eq)
  moreover have "table_ok ?s" unfolding table_ok_def
  proof (intro allI impI)
    fix k d assume "map_of (fl_table ?s) k = Some d"
    then have k: "k \<noteq> key" "map_of (fl_table s) k = Some d"
      by (auto simp: set_g_def map_of_delete split: if_splits)
    from inv_table [OF inv k(2)] obtain i where i: "i < length (fl_gs s)" "registered (fl_gs s ! i) = Some (k, d)"
      by blast
    then have "i \<noteq> g" using g(2) k(1) by auto
    with i show "\<exists>i < length (fl_gs ?s). registered (fl_gs ?s ! i) = Some (k, d)"
      by (intro exI [of _ i]) (simp add: set_g_def)
  qed
  moreover have "sem_ok cap ?s"
    by (rule sem_update [OF inv_sem [OF inv] g(1)]) (simp_all add: g(2) set_g_def)
  ultimately show ?thesis by (simp add: flight_inv_def)
qed

lemma ex_append: "\<exists>g < length xs. P (xs ! g) \<Longrightarrow> \<exists>g < length (xs @ [y]). P ((xs @ [y]) ! g)"
  by (metis length_append_singleton less_Suc_eq nth_append)

lemma flight_step_inv:
  assumes "flight_inv cap s" "flight_step cap s s'"
  shows "flight_inv cap s'"
  using assms(2)
proof cases
  case (spawn key)
  have "gs_ok s'" using assms(1) by (auto simp: spawn flight_inv_def gs_ok_def nth_append less_Suc_eq)
  moreover have "owners_unique s'" using assms(1)
    by (auto simp: spawn flight_inv_def owners_unique_def nth_append less_Suc_eq)
  moreover have "table_ok s'" using assms(1)
    unfolding spawn flight_inv_def table_ok_def by (auto intro!: ex_append simp del: length_append)
  moreover have "calls_ok s'" using assms(1)
    unfolding spawn flight_inv_def calls_ok_def by (auto intro!: ex_append simp del: length_append)
  moreover have "sem_ok cap s'" using assms(1)
    by (simp add: spawn flight_inv_def sem_ok_def split: option.splits)
  ultimately show ?thesis by (simp add: flight_inv_def)
next
  case (join g key c)
  then have g: "g < length (fl_gs s)" "fl_gs s ! g = Missed key" by (simp_all add: at_g_def)
  from assms(1) join(3) obtain g' where "g' < length (fl_gs s)" "registered (fl_gs s ! g') = Some (key, c)"
    by (auto simp: flight_inv_def table_ok_def)
  then have "c < length (fl_calls s) \<and> cl_key (fl_calls s ! c) = key"
    using assms(1) by (auto simp: flight_inv_def gs_ok_def dest!: registered_owns) (metis g_ok_owner)+
  moreover have "sem_ok cap (set_g g (Waiting key c) s)"
    by (rule sem_update [OF inv_sem [OF assms(1)] g(1)]) (simp_all add: g(2) set_g_def)
  ultimately show ?thesis unfolding join(1)
    using g by (intro update_same_owner [OF assms(1), where n = "fl_sem s"]) simp_all
next
  case (acquire g key c)
  then have g: "g < length (fl_gs s)" "fl_gs s ! g = Leading key c" by (simp_all add: at_g_def)
  then have ok: "g_ok (fl_table s) (fl_calls s) (Leading key c)" using assms(1)
    by (auto simp: flight_inv_def gs_ok_def)
  have "sem_ok cap (set_g g (Running key c) (s\<lparr>fl_sem := fl_sem s + 1\<rparr>))"
    using assms(1) acquire(3) count_update [OF g(1), of holds_sem "Running key c"]
    by (auto simp: flight_inv_def sem_ok_def set_g_def g(2) split: option.splits)
  with ok show ?thesis unfolding acquire(1)
    using g assms(1) by (intro update_same_owner [where n = "fl_sem s + 1"]) auto
next
  case (release g key c)
  then have g: "g < length (fl_gs s)" "fl_gs s ! g = Releasing key c" by (simp_all add: at_g_def)
  then have ok: "g_ok (fl_table s) (fl_calls s) (Releasing key c)" using assms(1)
    by (auto simp: flight_inv_def gs_ok_def)
  have "sem_ok cap (set_g g (Deleting key c) (s\<lparr>fl_sem := fl_sem s - 1\<rparr>))"
    using assms(1) count_update [OF g(1), of holds_sem "Deleting key c"]
    by (auto simp: flight_inv_def sem_ok_def set_g_def g(2) split: option.splits)
  with ok show ?thesis unfolding release(1)
    using g assms(1) by (intro update_same_owner [where n = "fl_sem s - 1"]) auto
next
  case (wake g key c r)
  then have g: "g < length (fl_gs s)" "fl_gs s ! g = Waiting key c" by (simp_all add: at_g_def)
  then have "c < length (fl_calls s) \<and> cl_key (fl_calls s ! c) = key" using assms(1)
    by (force simp: flight_inv_def gs_ok_def)
  with wake(4) have "list_ex (\<lambda>x. cl_key x = key \<and> cl_result x = Some r) (fl_calls s)"
    by (auto simp: list_ex_length)
  moreover have "sem_ok cap (set_g g (Returned key r) s)"
    by (rule sem_update [OF inv_sem [OF assms(1)] g(1)]) (simp_all add: g(2) set_g_def)
  ultimately show ?thesis unfolding wake(1)
    using g by (intro update_same_owner [OF assms(1), where n = "fl_sem s"]) simp_all
next
  case (lead g key)
  then show ?thesis using lead_inv [OF assms(1)] by (simp add: at_g_def)
next
  case (publish g key c r)
  then have g: "g < length (fl_gs s)" "fl_gs s ! g = Running key c" by (simp_all add: at_g_def)
  with inv_g_ok [OF assms(1) g(1)] show ?thesis unfolding publish(1)
    by (intro own_call_inv [OF assms(1), of g key c]) auto
next
  case (delete g key c)
  then show ?thesis using delete_inv [OF assms(1)] by (simp add: at_g_def)
next
  case (closes g key c r)
  then have g: "g < length (fl_gs s)" "fl_gs s ! g = Closing key c" by (simp_all add: at_g_def)
  with inv_g_ok [OF assms(1) g(1)] closes(3) show ?thesis unfolding closes(1)
    by (intro own_call_inv [OF assms(1), of g key c]) (auto simp: list_ex_length)
qed

lemma flight_reachable_inv: "flight_reachable cap s \<Longrightarrow> flight_inv cap s"
proof (induction rule: flight_reachable.induct)
  case start
  show ?case by (simp add: flight_start_def flight_inv_def flight_parts split: option.splits)
next
  case (step s s')
  then show ?case using flight_step_inv by blast
qed

subsection \<open>What the table promises\<close>

inductive_cases flight_stepE: "flight_step cap s s'"

text \<open>C10: For a name and type at most one goroutine at a time is between registering its call
and removing it, whatever the interleaving, so at most one of them resolves; no more goroutines
than the semaphore admits are resolving; and whoever returns, leader or waiter, returns the
result of a call for its own key.\<close>

theorem single_flight:
  assumes "flight_reachable cap s" "i < length (fl_gs s)" "j < length (fl_gs s)"
  shows "(registered (fl_gs s ! i) = Some (key, c) \<longrightarrow> registered (fl_gs s ! j) = Some (key, c') \<longrightarrow> i = j) \<and>
    (cap = Some n \<longrightarrow> length (filter holds_sem (fl_gs s)) \<le> n) \<and>
    (fl_gs s ! i = Returned key r \<longrightarrow>
       (\<exists>d < length (fl_calls s). cl_key (fl_calls s ! d) = key \<and> cl_result (fl_calls s ! d) = Some r))"
proof -
  note inv = flight_reachable_inv [OF assms(1)]
  have "registered (fl_gs s ! i) = Some (key, c) \<longrightarrow> registered (fl_gs s ! j) = Some (key, c') \<longrightarrow> i = j"
    using registered_unique [OF inv assms(2,3)] by blast
  moreover have "cap = Some n \<longrightarrow> length (filter holds_sem (fl_gs s)) \<le> n"
    using inv_sem [OF inv] by (auto simp: sem_ok_def)
  moreover have "fl_gs s ! i = Returned key r \<longrightarrow>
      (\<exists>d < length (fl_calls s). cl_key (fl_calls s ! d) = key \<and> cl_result (fl_calls s ! d) = Some r)"
    using inv_g_ok [OF inv assms(2)] by (auto simp: list_ex_length)
  ultimately show ?thesis by blast
qed

subsection \<open>Progress\<close>

text \<open>A step of one of the goroutines that exist, as opposed to the arrival of a new query.\<close>

definition own_step :: "nat option \<Rightarrow> 'r flight \<Rightarrow> 'r flight \<Rightarrow> bool" where
  "own_step cap s s' \<longleftrightarrow> flight_step cap s s' \<and> length (fl_gs s') = length (fl_gs s)"

fun steps_left :: "'r goroutine \<Rightarrow> nat" where
  "steps_left (Missed _) = 7"
| "steps_left (Leading _ _) = 6"
| "steps_left (Running _ _) = 5"
| "steps_left (Releasing _ _) = 4"
| "steps_left (Deleting _ _) = 3"
| "steps_left (Closing _ _) = 2"
| "steps_left (Waiting _ _) = 1"
| "steps_left (Returned _ _) = 0"

definition flight_work :: "'r flight \<Rightarrow> nat" where
  "flight_work s = sum_list (map steps_left (fl_gs s))"

lemma flight_work_le: "flight_work s \<le> 7 * length (fl_gs s)"
proof -
  have "steps_left st \<le> 7" for st :: "'a goroutine" by (cases st) simp_all
  then have "sum_list (map steps_left xs) \<le> 7 * length xs" for xs :: "'a goroutine list"
    by (induction xs) (simp_all add: add_mono)
  then show ?thesis by (simp add: flight_work_def)
qed

lemma work_update:
  "g < length xs \<Longrightarrow> steps_left y < steps_left (xs ! g) \<Longrightarrow>
   sum_list (map steps_left (xs[g := y])) < sum_list (map steps_left xs)"
proof (induction xs arbitrary: g)
  case (Cons x xs)
  then show ?case by (cases g) auto
qed simp

lemma own_step_work: "own_step cap s s' \<Longrightarrow> flight_work s' < flight_work s"
  by (auto simp: own_step_def flight_work_def flight_updates elim!: flight_stepE intro!: work_update)

lemma own_stepI: "flight_step cap s (set_g g st s') \<Longrightarrow> length (fl_gs s') = length (fl_gs s) \<Longrightarrow>
   \<exists>s'. own_step cap s s'"
  by (intro exI [of _ "set_g g st s'"]) (simp add: own_step_def set_g_def)

lemma own_step_possible:
  assumes inv: "flight_inv cap s" and g: "g < length (fl_gs s)"
    and st: "owns (fl_gs s ! g) \<noteq> None" "\<And>k c. fl_gs s ! g \<noteq> Leading k c"
  shows "\<exists>s'. own_step cap s s'"
proof (cases "fl_gs s ! g")
  case (Running key c)
  then show ?thesis
    using own_stepI [OF flight_step.publish [where r = undefined and s = s and g = g and key = key and c = c]] g
    by (simp add: at_g_def set_call_def)
next
  case (Releasing key c)
  then show ?thesis
    using own_stepI [OF flight_step.release [where s = s and g = g and key = key and c = c]] g
    by (simp add: at_g_def)
next
  case (Deleting key c)
  then show ?thesis
    using own_stepI [OF flight_step.delete [where s = s and g = g and key = key and c = c]] g
    by (simp add: at_g_def)
next
  case (Closing key c)
  then obtain r where "cl_result (fl_calls s ! c) = Some r" using inv_g_ok [OF inv g] by auto
  then show ?thesis
    using own_stepI [OF flight_step.closes [where s = s and g = g and key = key and c = c and r = r]] g Closing
    by (simp add: at_g_def set_call_def)
qed (use st in auto)

lemma leader_moves:
  assumes inv: "flight_inv cap s" and g: "g < length (fl_gs s)" "owns (fl_gs s ! g) \<noteq> None"
    and cap: "cap \<noteq> Some 0"
  shows "\<exists>s'. own_step cap s s'"
proof (cases "\<exists>k c. fl_gs s ! g = Leading k c")
  case False
  then show ?thesis using own_step_possible [OF inv g] by blast
next
  case True
  then obtain key c where l: "fl_gs s ! g = Leading key c" by blast
  show ?thesis
  proof (cases "case cap of None \<Rightarrow> True | Some n \<Rightarrow> fl_sem s < n")
    case True
    then show ?thesis
      using own_stepI [OF flight_step.acquire [where s = s and g = g and key = key and c = c]] g l
      by (simp add: at_g_def)
  next
    case False
    with cap inv_sem [OF inv] have "filter holds_sem (fl_gs s) \<noteq> []"
      by (auto simp: sem_ok_def split: option.splits)
    then obtain st where "st \<in> set (fl_gs s)" "holds_sem st" by (auto simp: filter_empty_conv)
    then obtain h where h: "h < length (fl_gs s)" "holds_sem (fl_gs s ! h)" by (auto simp: in_set_conv_nth)
    then have "owns (fl_gs s ! h) \<noteq> None \<and> (\<forall>k c. fl_gs s ! h \<noteq> Leading k c)"
      by (cases "fl_gs s ! h") auto
    then show ?thesis using own_step_possible [OF inv h(1)] by blast
  qed
qed

lemma own_step_exists:
  assumes inv: "flight_inv cap s" and g: "g < length (fl_gs s)" and cap: "cap \<noteq> Some 0"
    and st: "\<And>k r. fl_gs s ! g \<noteq> Returned k r"
  shows "\<exists>s'. own_step cap s s'"
proof (cases "owns (fl_gs s ! g)")
  case (Some kc)
  then show ?thesis using leader_moves [OF inv g _ cap] by simp
next
  case None
  show ?thesis
  proof (cases "fl_gs s ! g")
    case (Missed key)
    then have at: "at_g s g (Missed key)" using g by (simp add: at_g_def)
    show ?thesis
    proof (cases "map_of (fl_table s) key")
      case None
      show ?thesis by (rule own_stepI [OF flight_step.lead [OF at None]]) simp
    next
      case (Some c)
      show ?thesis by (rule own_stepI [OF flight_step.join [OF at Some]]) simp
    qed
  next
    case (Waiting key c)
    then have at: "at_g s g (Waiting key c)" and c: "c < length (fl_calls s)"
      using g inv_g_ok [OF inv g] by (auto simp: at_g_def)
    show ?thesis
    proof (cases "cl_closed (fl_calls s ! c)")
      case True
      then obtain r where r: "cl_result (fl_calls s ! c) = Some r" using inv_settled [OF inv c] by auto
      show ?thesis by (rule own_stepI [OF flight_step.wake [OF at True r]]) simp
    next
      case False
      from inv_owner [OF inv c False] show ?thesis using leader_moves [OF inv _ _ cap] by fastforce
    qed
  qed (use st None in auto)
qed

lemma own_steps_work:
  "(own_step cap ^^ k) s s' \<Longrightarrow> k + flight_work s' \<le> flight_work s \<and> length (fl_gs s') = length (fl_gs s)"
proof (induction k arbitrary: s')
  case (Suc k)
  then obtain t where t: "(own_step cap ^^ k) s t" "own_step cap t s'" by auto
  with Suc.IH [OF t(1)] own_step_work [OF t(2)] show ?case by (simp add: own_step_def)
qed simp

lemma own_steps_reachable: "flight_reachable cap s \<Longrightarrow> (own_step cap ^^ k) s s' \<Longrightarrow> flight_reachable cap s'"
proof (induction k arbitrary: s')
  case (Suc k)
  then obtain t where "(own_step cap ^^ k) s t" "own_step cap t s'" by auto
  with Suc show ?case by (auto simp: own_step_def intro: flight_reachable.step)
qed simp

text \<open>C11: Nobody waits for ever: however the goroutines are scheduled, n of them take at most
7 n steps together, and as long as one of them has not returned, one of them can move. Neither
the wait for a leader nor the wait for the semaphore deadlocks, no wake-up is lost.\<close>

theorem flight_progress:
  assumes "flight_reachable cap s" "cap \<noteq> Some 0" "(own_step cap ^^ k) s s'"
  shows "k \<le> 7 * length (fl_gs s) \<and>
    ((\<nexists>t. own_step cap s' t) \<longrightarrow> (\<forall>g < length (fl_gs s). \<exists>key r. fl_gs s' ! g = Returned key r))"
proof -
  have "k \<le> 7 * length (fl_gs s)" using own_steps_work [OF assms(3)] flight_work_le [of s] by linarith
  moreover have "\<exists>key r. fl_gs s' ! g = Returned key r" if "\<nexists>t. own_step cap s' t" "g < length (fl_gs s)" for g
    using own_step_exists [OF flight_reachable_inv [OF own_steps_reachable [OF assms(1,3)]], of g]
      own_steps_work [OF assms(3)] that assms(2) by auto
  ultimately show ?thesis by blast
qed

subsection \<open>Two queries for the same name, one resolution\<close>

abbreviation (input) ex_fl :: "nat goroutine list \<Rightarrow> (string \<times> nat) list \<Rightarrow> nat call list \<Rightarrow> nat \<Rightarrow> nat flight" where
  "ex_fl gs table calls n \<equiv> \<lparr>fl_gs = gs, fl_table = table, fl_calls = calls, fl_sem = n\<rparr>"

abbreviation (input) ex_call :: "nat option \<Rightarrow> bool \<Rightarrow> nat call" where
  "ex_call r closed \<equiv> \<lparr>cl_key = ''a:1'', cl_result = r, cl_closed = closed\<rparr>"

definition ex_two :: "nat flight" where
  "ex_two = ex_fl [Missed ''a:1'', Missed ''a:1''] [] [] 0"

definition ex_two_done :: "nat flight" where
  "ex_two_done = ex_fl [Returned ''a:1'' 5, Returned ''a:1'' 5] [] [ex_call (Some 5) True] 0"

lemma ex_two_reachable: "flight_reachable (Some 1) ex_two"
proof -
  have "flight_reachable (Some 1) (ex_fl [Missed ''a:1''] [] [] 0)"
    using flight_reachable.step [OF flight_reachable.start flight_step.spawn [where key = "''a:1''"]]
    by (simp add: flight_start_def)
  from flight_reachable.step [OF this flight_step.spawn [where key = "''a:1''"]]
  show ?thesis by (simp add: ex_two_def)
qed

lemma own_stepsI: "(own_step cap ^^ k) s t \<Longrightarrow> flight_step cap t u \<Longrightarrow> length (fl_gs u) = length (fl_gs t) \<Longrightarrow>
   (own_step cap ^^ Suc k) s u"
  by (auto simp: own_step_def)

lemma ex_two_steps: "(own_step (Some 1) ^^ 8) ex_two ex_two_done"
proof -
  let ?k = "''a:1''"
  note defs = flight_updates ex_two_def
  have "(own_step (Some 1) ^^ 0) ex_two ex_two" by simp
  from own_stepsI [OF this flight_step.lead [of ex_two 0 ?k]]
  have "(own_step (Some 1) ^^ 1) ex_two (ex_fl [Leading ?k 0, Missed ?k] [(?k, 0)] [ex_call None False] 0)"
    by (simp add: defs)
  from own_stepsI [OF this flight_step.join [where g = 1 and key = ?k and c = 0]]
  have "(own_step (Some 1) ^^ 2) ex_two (ex_fl [Leading ?k 0, Waiting ?k 0] [(?k, 0)] [ex_call None False] 0)"
    by (simp add: defs numeral_2_eq_2)
  from own_stepsI [OF this flight_step.acquire [where g = 0 and key = ?k and c = 0]]
  have "(own_step (Some 1) ^^ 3) ex_two (ex_fl [Running ?k 0, Waiting ?k 0] [(?k, 0)] [ex_call None False] 1)"
    by (simp add: defs numeral_3_eq_3 numeral_2_eq_2)
  from own_stepsI [OF this flight_step.publish [where g = 0 and key = ?k and c = 0 and r = 5]]
  have "(own_step (Some 1) ^^ 4) ex_two (ex_fl [Releasing ?k 0, Waiting ?k 0] [(?k, 0)] [ex_call (Some 5) False] 1)"
    by (simp add: defs eval_nat_numeral)
  from own_stepsI [OF this flight_step.release [where g = 0 and key = ?k and c = 0]]
  have "(own_step (Some 1) ^^ 5) ex_two (ex_fl [Deleting ?k 0, Waiting ?k 0] [(?k, 0)] [ex_call (Some 5) False] 0)"
    by (simp add: defs eval_nat_numeral)
  from own_stepsI [OF this flight_step.delete [where g = 0 and key = ?k and c = 0]]
  have "(own_step (Some 1) ^^ 6) ex_two (ex_fl [Closing ?k 0, Waiting ?k 0] [] [ex_call (Some 5) False] 0)"
    by (simp add: defs eval_nat_numeral)
  from own_stepsI [OF this flight_step.closes [where g = 0 and key = ?k and c = 0 and r = 5]]
  have "(own_step (Some 1) ^^ 7) ex_two (ex_fl [Returned ?k 5, Waiting ?k 0] [] [ex_call (Some 5) True] 0)"
    by (simp add: defs eval_nat_numeral)
  from own_stepsI [OF this flight_step.wake [where g = 1 and key = ?k and c = 0 and r = 5]]
  show ?thesis by (simp add: defs ex_two_done_def eval_nat_numeral)
qed

lemma ex_two_done_stuck: "\<nexists>t. own_step (Some 1) ex_two_done t"
  by (auto simp: own_step_def ex_two_done_def at_g_def less_Suc_eq elim!: flight_stepE)

lemma single_flight_witness:
  "flight_reachable (Some 1) ex_two_done \<and>
   (\<exists>d < length (fl_calls ex_two_done).
      cl_key (fl_calls ex_two_done ! d) = ''a:1'' \<and> cl_result (fl_calls ex_two_done ! d) = Some 5)"
proof -
  have r: "flight_reachable (Some 1) ex_two_done"
    using own_steps_reachable [OF ex_two_reachable ex_two_steps] .
  have "fl_gs ex_two_done ! 1 = Returned ''a:1'' 5" "1 < length (fl_gs ex_two_done)"
    by (simp_all add: ex_two_done_def)
  then show ?thesis
    using single_flight [OF r, of 1 1 "''a:1''" 0 0 1 5] r by simp
qed

lemma flight_progress_witness:
  "flight_reachable (Some 1) ex_two \<and> (own_step (Some 1) ^^ 8) ex_two ex_two_done \<and>
   8 \<le> 7 * length (fl_gs ex_two) \<and>
   (\<exists>key r. fl_gs ex_two_done ! 1 = Returned key r)"
  using flight_progress [OF ex_two_reachable _ ex_two_steps] ex_two_reachable ex_two_steps ex_two_done_stuck
  by (simp add: ex_two_def)

end
