(* ===== verification/ServerState.thy ===== *)
theory ServerState
  imports Resolve RecordStore DomainFilter AccessControl RateLimiter RingLogs
begin

text \<open>
  The server of \<open>internal/server/server.go\<close> without its query handler: the record \<open>Server\<close>, its
  construction, the statistics and their sampling, the tick of the pool janitor, and the
  operations of the dashboard and the command line on filter, records and settings. The cache, the
  pools and the validator are in the \<open>world\<close> that the resolver works on, whose other part is the
  server's record, so whatever the environment does may change the server too.
\<close>

subsection \<open>State\<close>

text \<open>\<open>sv_validator\<close> tells whether \<open>dnssecVal\<close> is set, \<open>sv_sem\<close> is the capacity of \<open>sem\<close>.\<close>

record Server =
  sv_cfg :: Config
  sv_filter :: Filter
  sv_records :: RecordStore
  sv_qlog :: QueryLog
  sv_limiter :: "rateLimiter option"
  sv_acl :: compiledACL
  sv_history :: statsHistory
  sv_validator :: bool
  sv_sem :: "nat option"
  sv_total :: u64
  sv_hits :: u64
  sv_blocked :: u64
  sv_latency :: u64
  sv_start :: int

type_synonym 's server_world = "'s Server_scheme world"

abbreviation map_server :: "('s Server_scheme \<Rightarrow> 's Server_scheme) \<Rightarrow> 's server_world \<Rightarrow> 's server_world" where
  "map_server f w \<equiv> w\<lparr>w_rest := f (w_rest w)\<rparr>"

text \<open>\<open>poolSizePerServer\<close> and \<open>tcpPoolSizePerServer\<close>.\<close>

definition new_pools :: "transport \<Rightarrow> connPool" where
  "new_pools tr =
     (case tr of UDP \<Rightarrow> newConnPool ''udp'' 16 | TCP \<Rightarrow> newConnPool ''tcp'' 4 | DoT \<Rightarrow> newConnPool ''tcp'' 4)"

text \<open>
  \<open>None\<close>: the panic on a custom record. The arguments tell whether the query log's file can be
  opened, what the filter lists hold, and the time. An unset validator is an empty one.
\<close>

definition New :: "(string \<Rightarrow> bool) \<Rightarrow> list_sources \<Rightarrow> int \<Rightarrow> Config \<Rightarrow> Server world option" where
  "New opens src now cfg =
     (let rs = cfg_Resolver cfg; rl = rs_RateLimit rs;
          val = (if rs_DNSSEC rs then NewValidator else Some \<lparr>v_anchors = [], v_keyCache = []\<rparr>)
      in case (NewRecordStore (cfg_Records cfg), val) of
           (Some records, Some val) \<Rightarrow>
             Some \<lparr>w_cache = SetPrefetchFn (SetMaxSize (cc_MaxSize (rs_Cache rs))
                      (SetMinTTL (of_int (cc_MinTTL (rs_Cache rs))) NewCache)),
                   w_pools = new_pools, w_val = val,
                   w_rest = \<lparr>sv_cfg = cfg, sv_filter = NewFilter src cfg, sv_records = records,
                     sv_qlog = newQueryLog opens 500 (srv_QueryLogFile (cfg_Server cfg)),
                     sv_limiter = (if rl_Enabled rl then Some (newRateLimiter (rl_QPS rl) (rl_Burst rl)) else None),
                     sv_acl = newCompiledACL (rs_ACL rs), sv_history = empty_history,
                     sv_validator = rs_DNSSEC rs,
                     sv_sem = (if 0 < rs_MaxConcurrent rs then Some (nat (rs_MaxConcurrent rs)) else None),
                     sv_total = 0, sv_hits = 0, sv_blocked = 0, sv_latency = 0, sv_start = now\<rparr>\<rparr>
         | _ \<Rightarrow> None)"

subsection \<open>Statistics\<close>

definition counters :: "'s Server_scheme \<Rightarrow> u64 \<times> u64 \<times> u64" where
  "counters s = (sv_total s, sv_hits s, sv_blocked s)"

text \<open>One tick of \<open>sampleHistory\<close>: \<open>prev\<close> are the counters at the tick before.\<close>

definition sample_tick :: "u64 \<times> u64 \<times> u64 \<Rightarrow> 's Server_scheme \<Rightarrow> (u64 \<times> u64 \<times> u64) \<times> 's Server_scheme" where
  "sample_tick prev s =
     (case prev of (q, h, b) \<Rightarrow>
        (counters s,
         s\<lparr>sv_history := sh_record \<lparr>hb_Queries = sv_total s - q, hb_Hits = sv_hits s - h,
              hb_Blocked = sv_blocked s - b\<rparr> (sv_history s)\<rparr>))"

definition History :: "'s Server_scheme \<Rightarrow> HistoryBucket list" where
  "History s = snapshot (sv_history s)"

text \<open>\<open>poolReapInterval\<close> apart, one tick of the janitor: the number of closed connections.\<close>

definition janitor_tick :: "int \<Rightarrow> 'n world \<Rightarrow> nat \<times> 'n world" where
  "janitor_tick now w =
     (let reap = (\<lambda>tr. reapIdle now poolIdleTimeout (w_pools w tr))
      in (length (snd (reap UDP)) + length (snd (reap TCP)) + length (snd (reap DoT)),
          w\<lparr>w_pools := \<lambda>tr. fst (reap tr)\<rparr>))"

record StatsSnapshot =
  ss_TotalQueries :: u64
  ss_CacheHits :: u64
  ss_Blocked :: u64
  ss_TotalLatencyMs :: u64
  ss_CacheSize :: nat
  ss_CacheNegative :: nat
  ss_UptimeSeconds :: int

definition Stats :: "int \<Rightarrow> 's server_world \<Rightarrow> StatsSnapshot" where
  "Stats now w =
     (let s = w_rest w
      in \<lparr>ss_TotalQueries = sv_total s, ss_CacheHits = sv_hits s, ss_Blocked = sv_blocked s,
          ss_TotalLatencyMs = sv_latency s, ss_CacheSize = Size (w_cache w),
          ss_CacheNegative = NegativeSize (w_cache w),
          ss_UptimeSeconds =
            (let d = duration_seconds (time_sub now (sv_start s)) in if 0 \<le> d then \<lfloor>d\<rfloor> else \<lceil>d\<rceil>)\<rparr>)"

definition FlushCache :: "(nat \<Rightarrow> int) \<Rightarrow> string \<Rightarrow> 'n world \<Rightarrow> 'n world" where
  "FlushCache clock mode w = w\<lparr>w_cache := Flush clock mode (w_cache w)\<rparr>"

definition RecentQueries :: "int \<Rightarrow> 's Server_scheme \<Rightarrow> QueryEntry list option" where
  "RecentQueries n s = Recent n (sv_qlog s)"

subsection \<open>The filter\<close>

definition ReloadFilters :: "list_sources \<Rightarrow> 's Server_scheme \<Rightarrow> 's Server_scheme" where
  "ReloadFilters src s = s\<lparr>sv_filter := Reload src (sv_cfg s) (sv_filter s)\<rparr>"

record FilterStatus =
  st_Mode :: string
  st_Size :: nat
  st_Inline :: "string list"

definition FilterStatus_of :: "'s Server_scheme \<Rightarrow> FilterStatus" where
  "FilterStatus_of s =
     \<lparr>st_Mode = fc_Mode (cfg_Filtering (sv_cfg s)), st_Size = filter_size (sv_filter s),
      st_Inline = InlineDomains (sv_filter s)\<rparr>"

definition map_filtering :: "(FilterConfig \<Rightarrow> FilterConfig) \<Rightarrow> 's Server_scheme \<Rightarrow> 's Server_scheme" where
  "map_filtering f s = s\<lparr>sv_cfg := (sv_cfg s)\<lparr>cfg_Filtering := f (cfg_Filtering (sv_cfg s))\<rparr>\<rparr>"

text \<open>
  The operations that change the configuration end with \<open>Save\<close>, whose write may fail: the
  result is the new state and the document to be written, and nothing is undone when writing fails.
  Each operation is one step here. In the code nothing locks the configuration and the records: of two
  requests that add records at the same time, one can overwrite what the other has stored
  between its reading and its writing.
\<close>

definition AddBlock :: "(Config \<Rightarrow> string) \<Rightarrow> string \<Rightarrow> 's Server_scheme \<Rightarrow>
    's Server_scheme \<times> (string \<times> string) option" where
  "AddBlock marshal domain s =
     (let s = map_filtering (\<lambda>fc. fc\<lparr>fc_Inline := fc_Inline fc @ [domain]\<rparr>)
                (s\<lparr>sv_filter := Add domain (sv_filter s)\<rparr>)
      in (s, Save marshal (sv_cfg s)))"

definition RemoveBlock :: "(Config \<Rightarrow> string) \<Rightarrow> string \<Rightarrow> 's Server_scheme \<Rightarrow>
    's Server_scheme \<times> (string \<times> string) option" where
  "RemoveBlock marshal domain s =
     (let s = map_filtering (\<lambda>fc. fc\<lparr>fc_Inline := filter (\<lambda>d. \<not> equal_fold d domain) (fc_Inline fc)\<rparr>)
                (s\<lparr>sv_filter := Remove domain (sv_filter s)\<rparr>)
      in (s, Save marshal (sv_cfg s)))"

definition SetFilterMode :: "(Config \<Rightarrow> string) \<Rightarrow> string \<Rightarrow> 's Server_scheme \<Rightarrow>
    's Server_scheme \<times> (string \<times> string) option" where
  "SetFilterMode marshal mode s =
     (let s = (map_filtering (\<lambda>fc. fc\<lparr>fc_Mode := mode\<rparr>) s)
      in let s = s\<lparr>sv_filter := SetMode mode (sv_filter s)\<rparr> in (s, Save marshal (sv_cfg s)))"

subsection \<open>The custom records\<close>

definition set_records :: "RecordConfig list \<Rightarrow> 's Server_scheme \<Rightarrow> 's Server_scheme option" where
  "set_records rcs s =
     map_option (\<lambda>records. s\<lparr>sv_cfg := (sv_cfg s)\<lparr>cfg_Records := rcs\<rparr>, sv_records := records\<rparr>)
       (NewRecordStore rcs)"

text \<open>\<open>None\<close>: a panic. Otherwise the error, or the state and the document.\<close>

definition AddRecord :: "(Config \<Rightarrow> string) \<Rightarrow> RecordConfig \<Rightarrow> 's Server_scheme \<Rightarrow>
    (record_error + ('s Server_scheme \<times> (string \<times> string) option)) option" where
  "AddRecord marshal r s =
     (case ValidateRecord r of
        Inl RecordPanic \<Rightarrow> None
      | Inl e \<Rightarrow> Some (Inl e)
      | Inr _ \<Rightarrow> map_option (\<lambda>s. Inr (s, Save marshal (sv_cfg s))) (set_records (cfg_Records (sv_cfg s) @ [r]) s))"

definition RemoveRecord :: "(Config \<Rightarrow> string) \<Rightarrow> string \<Rightarrow> string \<Rightarrow> 's Server_scheme \<Rightarrow>
    ('s Server_scheme \<times> (string \<times> string) option) option" where
  "RemoveRecord marshal name rtype s =
     map_option (\<lambda>s. (s, Save marshal (sv_cfg s)))
       (set_records (filter (\<lambda>r. \<not> (equal_fold (rc_Name r) name \<and> equal_fold (rc_Type r) rtype))
          (cfg_Records (sv_cfg s))) s)"

subsection \<open>Settings\<close>

record SettingsSnapshot =
  se_EDNS0 :: bool
  se_TCPFallback :: bool
  se_Prefetch :: bool
  se_UpdateCheck :: bool
  se_Listen :: string
  se_LogLevel :: string
  se_Timeout :: int
  se_MaxDepth :: int
  se_NegativeTTL :: int

definition GetSettings :: "'s Server_scheme \<Rightarrow> SettingsSnapshot" where
  "GetSettings s =
     (let c = sv_cfg s; rs = cfg_Resolver c
      in \<lparr>se_EDNS0 = rs_EDNS0 rs, se_TCPFallback = rs_TCPFallback rs, se_Prefetch = cc_Prefetch (rs_Cache rs),
          se_UpdateCheck = up_CheckEnabled (cfg_Updater c), se_Listen = Addr c,
          se_LogLevel = srv_LogLevel (cfg_Server c), se_Timeout = rs_Timeout rs,
          se_MaxDepth = rs_MaxDepth rs, se_NegativeTTL = cc_NegativeTTL (rs_Cache rs)\<rparr>)"

definition set_or_keep :: "bool option \<Rightarrow> bool \<Rightarrow> bool" where
  "set_or_keep v old = (case v of Some b \<Rightarrow> b | None \<Rightarrow> old)"

definition UpdateSettings :: "(Config \<Rightarrow> string) \<Rightarrow> bool option \<Rightarrow> bool option \<Rightarrow> bool option \<Rightarrow> bool option \<Rightarrow>
    's Server_scheme \<Rightarrow> 's Server_scheme \<times> (string \<times> string) option" where
  "UpdateSettings marshal edns0 tcpFallback prefetch updateCheck s =
     (let c = sv_cfg s; rs = cfg_Resolver c;
          rs' = rs\<lparr>rs_EDNS0 := set_or_keep edns0 (rs_EDNS0 rs),
                   rs_TCPFallback := set_or_keep tcpFallback (rs_TCPFallback rs),
                   rs_Cache := (rs_Cache rs)\<lparr>cc_Prefetch := set_or_keep prefetch (cc_Prefetch (rs_Cache rs))\<rparr>\<rparr>;
          c' = c\<lparr>cfg_Resolver := rs',
                 cfg_Updater := \<lparr>up_CheckEnabled = set_or_keep updateCheck (up_CheckEnabled (cfg_Updater c))\<rparr>\<rparr>
      in (s\<lparr>sv_cfg := c'\<rparr>, Save marshal c'))"

end
