(* ===== verification/HandleQuery.thy ===== *)
theory HandleQuery
  imports ServerState DnsPack
begin

text \<open>
  \<open>handleQuery\<close> of \<open>internal/server/server.go\<close>: what the server does with one datagram, from the
  access list over the rate limiter, the filter and the custom records to the resolver, with its
  counters and its log. The result is the list of packets written back to the sender; \<open>None\<close>
  is a panic of the process. A reply is built in the resolved message itself, which other goroutines
  may hold and write to at the same time.
\<close>

subsection \<open>Replies\<close>

definition reply_to :: "message \<Rightarrow> u16 \<Rightarrow> message" where
  "reply_to req rcode = SetRcode rcode (SetRA True (SetQR True (empty_message\<lparr>ID := ID req\<rparr>)))\<lparr>Questions := Questions req\<rparr>"

definition nxdomain :: "message \<Rightarrow> byte list" where
  "nxdomain req = Pack (reply_to req RcodeNXDomain)"

definition refused :: "message \<Rightarrow> byte list" where
  "refused req = Pack (reply_to req RcodeRefused)"

definition servfail :: "message \<Rightarrow> message" where
  "servfail req = reply_to req RcodeServFail"

definition typeName :: "u16 \<Rightarrow> string" where
  "typeName t =
     (case map_of
        [(TypeA, ''A''), (TypeNS, ''NS''), (TypeCNAME, ''CNAME''), (TypeSOA, ''SOA''), (TypePTR, ''PTR''),
         (TypeMX, ''MX''), (TypeTXT, ''TXT''), (TypeAAAA, ''AAAA''), (TypeLOC, ''LOC''), (TypeSRV, ''SRV''),
         (TypeNAPTR, ''NAPTR''), (TypeCERT, ''CERT''), (TypeDS, ''DS''), (TypeSSHFP, ''SSHFP''),
         (TypeDNSKEY, ''DNSKEY''), (TypeTLSA, ''TLSA''), (TypeSMIMEA, ''SMIMEA''),
         (TypeOPENPGPKEY, ''OPENPGPKEY''), (TypeSVCB, ''SVCB''), (TypeHTTPS, ''HTTPS''), (TypeURI, ''URI''),
         (TypeCAA, ''CAA'')] t of
        Some n \<Rightarrow> n
      | None \<Rightarrow> dec_string (unat t))"

text \<open>The answer from the custom records.\<close>

definition record_reply :: "message \<Rightarrow> RR list \<Rightarrow> message" where
  "record_reply req rrs =
     SetAA True (SetRA True (SetQR True (empty_message\<lparr>ID := ID req\<rparr>)))\<lparr>Questions := Questions req, Answers := rrs\<rparr>"

subsection \<open>A reply in a message that others hold\<close>

text \<open>
  The last lines of \<open>handleQuery\<close> write into the message that \<open>resolve\<close> returned: its ID, three
  flags and its questions, one assignment after the other, and then pack it. The goroutine that
  resolved the name and those that waited for it hold the same pointer (a message from the cache
  is a copy of one's own). Here messages are cells of a heap, and a schedule tells which
  goroutine takes its next step; an assignment is one step, and so is packing.
\<close>

record tail =
  tl_addr :: nat
  tl_req :: message
  tl_pc :: nat
  tl_sent :: "byte list option"

record reply_heap =
  rh_msgs :: "nat \<Rightarrow> message"
  rh_tails :: "tail list"

definition tail_writes :: "message \<Rightarrow> (message \<Rightarrow> message) list" where
  "tail_writes req =
     [\<lambda>resp. resp\<lparr>ID := ID req\<rparr>, SetQR True, SetRA True, SetAA False, \<lambda>resp. resp\<lparr>Questions := Questions req\<rparr>]"

text \<open>One step of goroutine \<open>i\<close>: its next assignment, or packing and sending.\<close>

definition tail_step :: "nat \<Rightarrow> reply_heap \<Rightarrow> reply_heap" where
  "tail_step i s =
     (if length (rh_tails s) \<le> i then s
      else let t = rh_tails s ! i; m = rh_msgs s (tl_addr t)
           in if tl_pc t < length (tail_writes (tl_req t)) then
                s\<lparr>rh_msgs := (rh_msgs s)(tl_addr t := (tail_writes (tl_req t) ! tl_pc t) m),
                  rh_tails := (rh_tails s)[i := t\<lparr>tl_pc := tl_pc t + 1\<rparr>]\<rparr>
              else if tl_sent t = None then s\<lparr>rh_tails := (rh_tails s)[i := t\<lparr>tl_sent := Some (Pack m)\<rparr>]\<rparr>
              else s)"

definition tail_run :: "nat list \<Rightarrow> reply_heap \<Rightarrow> reply_heap" where
  "tail_run schedule s = fold tail_step schedule s"

text \<open>
  The packets of the goroutine that answers \<open>req\<close> from \<open>resp\<close>, when the goroutines of other queries
  hold \<open>resp\<close> too: it takes its steps within the schedule or after it.
\<close>

definition new_tail :: "message \<Rightarrow> tail" where
  "new_tail req = \<lparr>tl_addr = 0, tl_req = req, tl_pc = 0, tl_sent = None\<rparr>"

definition resolved_packets :: "message \<Rightarrow> message \<Rightarrow> message list \<times> nat list \<Rightarrow> byte list list" where
  "resolved_packets req resp share =
     (case share of (others, schedule) \<Rightarrow>
        let s = tail_run (schedule @ replicate (Suc (length (tail_writes req))) 0)
              \<lparr>rh_msgs = (\<lambda>_. resp), rh_tails = map new_tail (req # others)\<rparr>
        in (case tl_sent (rh_tails s ! 0) of None \<Rightarrow> [] | Some p \<Rightarrow> [p]))"

subsection \<open>The sender, the clock and the log\<close>

text \<open>The sender's address, its text, and the host part of the text when it splits.\<close>

record peer =
  pr_addr :: net_addr
  pr_text :: string
  pr_host :: "string option"

definition client_ip :: "'n env \<Rightarrow> peer \<Rightarrow> string" where
  "client_ip env pr = sourceIP (e_render env) (\<lambda>_. pr_host pr) (pr_addr pr)"

definition millis_since :: "int \<Rightarrow> int \<Rightarrow> int" where
  "millis_since start now = time_sub now start sdiv 1000000"

definition log_query :: "string \<Rightarrow> question \<Rightarrow> peer \<Rightarrow> int \<Rightarrow> int \<Rightarrow> 's Server_scheme \<Rightarrow> 's Server_scheme" where
  "log_query status q pr t latency s =
     s\<lparr>sv_qlog := ql_Add \<lparr>qe_Time = t, qe_Domain = q_name q, qe_Type = typeName (q_type q),
         qe_Client = pr_text pr, qe_Status = status, qe_Latency = latency\<rparr> (sv_qlog s)\<rparr>"

text \<open>An entry whose latency is measured while it is built.\<close>

definition log_now :: "'s Server_scheme env \<Rightarrow> string \<Rightarrow> question \<Rightarrow> peer \<Rightarrow> int \<Rightarrow> 's server_world \<Rightarrow> 's server_world" where
  "log_now env status q pr start w =
     (case e_now env w of (t, w) \<Rightarrow>
      case e_now env w of (t', w) \<Rightarrow> map_server (log_query status q pr t (millis_since start t')) w)"

definition limited :: "'s Server_scheme env \<Rightarrow> string \<Rightarrow> 's server_world \<Rightarrow> bool \<times> 's server_world" where
  "limited env ip w =
     (case sv_limiter (w_rest w) of
        None \<Rightarrow> (False, w)
      | Some _ \<Rightarrow>
          (case e_now env w of (t, w) \<Rightarrow>
             (case sv_limiter (w_rest w) of
                None \<Rightarrow> (False, w)
              | Some l \<Rightarrow>
                  (case allow t ip l of (ok, l) \<Rightarrow> (\<not> ok, map_server (sv_limiter_update (\<lambda>_. Some l)) w)))))"

subsection \<open>The handler\<close>

definition handle_resolved ::
  "'s Server_scheme env \<Rightarrow> 's Server_scheme join \<Rightarrow> peer \<Rightarrow> int \<Rightarrow> message \<Rightarrow> question \<Rightarrow> 's server_world \<Rightarrow>
   byte list list option \<times> 's server_world" where
  "handle_resolved env join pr start msg q w =
     (case resolve env join (sv_cfg (w_rest w)) (sv_validator (w_rest w)) (q_name q) (q_type q) w of
        ((Inl Crashed, _), w) \<Rightarrow> (None, w)
      | ((r, wasCached), w) \<Rightarrow>
          (case e_now env w of (t, w) \<Rightarrow>
           let latency = millis_since start t;
               w = map_server (\<lambda>s. s\<lparr>sv_latency := sv_latency s + of_int latency\<rparr>) w
           in case r of
                Inl _ \<Rightarrow>
                  (case e_now env w of (t, w) \<Rightarrow>
                     (Some [Pack (servfail msg)], map_server (log_query ''error'' q pr t latency) w))
              | Inr resp \<Rightarrow>
                  let w = (if wasCached then map_server (\<lambda>s. s\<lparr>sv_hits := sv_hits s + 1\<rparr>) w else w)
                  in case e_now env w of (t, w) \<Rightarrow>
                       (Some (resolved_packets msg resp (if wasCached then ([], []) else e_share env w)),
                        map_server (log_query (if wasCached then ''cached'' else ''resolved'') q pr t latency) w)))"

definition handle_question ::
  "'s Server_scheme env \<Rightarrow> 's Server_scheme join \<Rightarrow> peer \<Rightarrow> int \<Rightarrow> message \<Rightarrow> question \<Rightarrow> 's server_world \<Rightarrow>
   byte list list option \<times> 's server_world" where
  "handle_question env join pr start msg q w =
     (let w = map_server (\<lambda>s. s\<lparr>sv_total := sv_total s + 1\<rparr>) w
      in if Blocked (sv_filter (w_rest w)) (q_name q)
         then (Some [nxdomain msg],
               log_now env ''blocked'' q pr start (map_server (\<lambda>s. s\<lparr>sv_blocked := sv_blocked s + 1\<rparr>) w))
         else let rrs = rs_Lookup (sv_records (w_rest w)) (q_name q) (q_type q)
              in if rrs \<noteq> [] then (Some [Pack (record_reply msg rrs)], log_now env ''resolved'' q pr start w)
                 else handle_resolved env join pr start msg q w)"

definition handleQuery ::
  "'s Server_scheme env \<Rightarrow> 's Server_scheme join \<Rightarrow> peer \<Rightarrow> byte list \<Rightarrow> 's server_world \<Rightarrow>
   byte list list option \<times> 's server_world" where
  "handleQuery env join pr raw w =
     (case e_now env w of (start, w) \<Rightarrow>
      let ip = client_ip env pr
      in if \<not> allowed (sv_acl (w_rest w)) ip
         then (Some (case ParseMessage raw of Inl _ \<Rightarrow> [] | Inr msg \<Rightarrow> [refused msg]), w)
         else case limited env ip w of
                (True, w) \<Rightarrow> (Some [], w)
              | (False, w) \<Rightarrow>
                  (case ParseMessage raw of
                     Inl _ \<Rightarrow> (Some [], w)
                   | Inr msg \<Rightarrow>
                       (case Questions msg of
                          [] \<Rightarrow> (Some [], w)
                        | q # _ \<Rightarrow> handle_question env join pr start msg q w)))"

end
