(* ===== verification/SharedReply.thy ===== *)
theory SharedReply
  imports HandleQuery MessageRoundtrip
begin

text \<open>
  What the goroutines send that write their replies into one resolved message. The states of the
  message are described field by field, for every goroutine that holds it and every schedule:
  the answers stay, the flags become those of a reply, and ID and questions are those of some
  query that the message answers. For a message of one's own this determines the packet; with
  two holders it does not, and the last theorem shows the mix-up.
\<close>

subsection \<open>The head of a packet\<close>

lemma pack_question_grows: "prefix (fst st) (fst (pack_question q st))"
proof -
  obtain out nm1 where "packCompressedName (fst st) (q_name q) (snd st) = (fst st @ out, nm1)"
    using packCompressedName_out by blast
  from pack_question_eq [OF this] show ?thesis by simp
qed

lemma pack_rr_grows: "prefix (fst st) (fst (pack_rr raw rr st))"
proof -
  obtain out nm1 where "pack_rr raw rr (fst st, snd st) = (fst st @ out, nm1)"
    using pack_rr_eq [of "fst st" rr "snd st" raw] by metis
  then show ?thesis by simp
qed

lemma fold_grows:
  assumes "\<And>x st. prefix (fst st) (fst (f x st))"
  shows "prefix (fst st) (fst (fold f xs st))"
proof (induction xs arbitrary: st)
  case (Cons x xs)
  have "prefix (fst st) (fst (f x st))" by (rule assms)
  also have "prefix (fst (f x st)) (fst (fold f xs (f x st)))" by (rule Cons.IH)
  finally show ?case by simp
qed simp

lemma Pack_head: "prefix (pack_header m) (Pack m)"
proof -
  have "prefix (pack_header m) (fst (fold pack_question (Questions m) (pack_header m, Map.empty)))"
    using fold_grows [of pack_question, OF pack_question_grows, of "(pack_header m, Map.empty)"] by simp
  also have "prefix \<dots> (Pack m)"
    unfolding Pack_def by (rule fold_grows [of "pack_rr (Raw m)", OF pack_rr_grows])
  finally show ?thesis .
qed

lemma Pack_ID: "take 2 (Pack m) = put16 (ID m)" "Pack m ! 2 = hd (put16 (Flags m))"
  using Pack_head [of m] by (auto simp: prefix_def pack_header_def put16_def)

lemma put16_be16_take: "2 \<le> length buf \<Longrightarrow> put16 (be16 buf 0) = take 2 buf"
proof (cases buf)
  case (Cons a as)
  assume "2 \<le> length buf"
  with Cons obtain b bs where buf: "buf = a # b # bs" by (cases as) auto
  have "ucast (drop_bit 8 (get16 a b)) = a" "ucast (get16 a b) = b"
    by (rule bit_word_eqI; auto simp: get16_def bit_simps dest: bit_imp_le_length)+
  then show ?thesis by (simp add: buf be16_def put16_def)
qed simp

lemma ParseMessage_ID: "ParseMessage raw = Inr msg \<Longrightarrow> put16 (ID msg) = take 2 raw"
proof -
  assume p: "ParseMessage raw = Inr msg"
  then have "12 \<le> length raw" "ID msg = be16 raw 0"
    by (auto simp: ParseMessage_unfold split: if_splits sum.splits prod.splits)
  then show ?thesis using put16_be16_take by simp
qed

lemma QR_byte: "bit (hd (put16 f)) 7 \<longleftrightarrow> bit (f :: u16) 15"
  by (simp add: put16_def bit_simps)

subsection \<open>Flags\<close>

lemma flags_frame [simp]:
  "ID (SetQR v m) = ID m" "ID (SetRA v m) = ID m" "ID (SetAA v m) = ID m" "ID (SetRcode r m) = ID m"
  "Questions (SetQR v m) = Questions m" "Questions (SetRA v m) = Questions m"
  "Questions (SetAA v m) = Questions m" "Questions (SetRcode r m) = Questions m" for m :: message
  by (simp_all add: SetQR_def SetRA_def SetAA_def SetRcode_def)

lemma QR_frame [simp]:
  "QR (m\<lparr>Questions := qs\<rparr>) = QR m" "QR (m\<lparr>Answers := rrs\<rparr>) = QR m" for m :: message
  by (simp_all add: QR_def)

subsection \<open>One message and the goroutines that hold it\<close>

text \<open>The answers of \<open>m0\<close> with the flags of a reply: QR and RA set, AA cleared, the others kept.\<close>

definition reply_built :: "message \<Rightarrow> message \<Rightarrow> bool" where
  "reply_built m0 m \<longleftrightarrow>
     Answers m = Answers m0 \<and> Authority m = Authority m0 \<and> Additional m = Additional m0 \<and> Raw m = Raw m0 \<and>
     (\<forall>n. bit (Flags m) n \<longleftrightarrow> n = 15 \<or> n = 7 \<or> n \<noteq> 10 \<and> bit (Flags m0) n)"

text \<open>
  The message \<open>m\<close> that began as \<open>m0\<close>, as a goroutine sees it after its first \<open>pc\<close> assignments, when the
  queries that are answered from the message are \<open>H\<close>.
\<close>

definition ready :: "message set \<Rightarrow> message \<Rightarrow> nat \<Rightarrow> message \<Rightarrow> bool" where
  "ready H m0 pc m \<longleftrightarrow>
     Answers m = Answers m0 \<and> Authority m = Authority m0 \<and> Additional m = Additional m0 \<and> Raw m = Raw m0 \<and>
     (\<forall>n. n \<notin> {7, 10, 15} \<longrightarrow> bit (Flags m) n = bit (Flags m0) n) \<and>
     (0 < pc \<longrightarrow> ID m \<in> ID ` H) \<and> (1 < pc \<longrightarrow> bit (Flags m) 15) \<and> (2 < pc \<longrightarrow> bit (Flags m) 7) \<and>
     (3 < pc \<longrightarrow> \<not> bit (Flags m) 10) \<and> (4 < pc \<longrightarrow> Questions m \<in> Questions ` H)"

definition sent_ok :: "message set \<Rightarrow> message \<Rightarrow> byte list \<Rightarrow> bool" where
  "sent_ok H m0 p \<longleftrightarrow> (\<exists>m. p = Pack m \<and> reply_built m0 m \<and> ID m \<in> ID ` H \<and> Questions m \<in> Questions ` H)"

definition holders_ok :: "nat \<Rightarrow> message set \<Rightarrow> message \<Rightarrow> reply_heap \<Rightarrow> bool" where
  "holders_ok a H m0 s \<longleftrightarrow>
     (\<forall>j < length (rh_tails s). let t = rh_tails s ! j in tl_addr t = a \<longrightarrow>
        tl_req t \<in> H \<and> ready H m0 (tl_pc t) (rh_msgs s a) \<and> (\<forall>p. tl_sent t = Some p \<longrightarrow> sent_ok H m0 p))"

lemma tail_writes_length [simp]: "length (tail_writes req) = 5"
  by (simp add: tail_writes_def)

lemma ready_write:
  assumes "ready H m0 pc m" "req \<in> H" "k < 5" "pc' = pc \<or> pc = k \<and> pc' = Suc k"
  shows "ready H m0 pc' ((tail_writes req ! k) m)"
proof -
  from assms(3) consider "k = 0" | "k = 1" | "k = 2" | "k = 3" | "k = 4" by linarith
  then show ?thesis
    using assms(1,2,4)
    by cases (auto simp: tail_writes_def ready_def SetQR_def SetRA_def SetAA_def bit_setBit)
qed

lemma ready_reply:
  assumes "ready H m0 pc m" "4 < pc"
  shows "reply_built m0 m" "ID m \<in> ID ` H" "Questions m \<in> Questions ` H"
proof -
  have "bit (Flags m) n \<longleftrightarrow> n = 15 \<or> n = 7 \<or> n \<noteq> 10 \<and> bit (Flags m0) n" for n
    using assms by (cases "n \<in> {7, 10, 15}") (auto simp: ready_def)
  then show "reply_built m0 m" using assms by (simp add: ready_def reply_built_def)
qed (use assms in \<open>simp_all add: ready_def\<close>)

lemma tail_step_frame:
  "length (rh_tails (tail_step i s)) = length (rh_tails s) \<and>
   (j < length (rh_tails s) \<longrightarrow>
      tl_addr (rh_tails (tail_step i s) ! j) = tl_addr (rh_tails s ! j) \<and>
      tl_req (rh_tails (tail_step i s) ! j) = tl_req (rh_tails s ! j) \<and>
      (i \<noteq> j \<longrightarrow> rh_tails (tail_step i s) ! j = rh_tails s ! j))"
  by (cases "i = j") (simp_all add: tail_step_def Let_def)

lemma tail_step_holders:
  assumes "holders_ok a H m0 s"
  shows "holders_ok a H m0 (tail_step i s)"
proof (cases "i < length (rh_tails s)")
  case False
  with assms show ?thesis by (simp add: tail_step_def)
next
  case i: True
  let ?t = "rh_tails s ! i"
  show ?thesis
  proof (cases "tl_addr ?t = a")
    case False
    with assms i show ?thesis
      by (auto simp: holders_ok_def tail_step_def Let_def nth_list_update)
  next
    case True
    with assms i have own: "tl_req ?t \<in> H" "ready H m0 (tl_pc ?t) (rh_msgs s a)"
      by (auto simp: holders_ok_def Let_def)
    show ?thesis
    proof (cases "tl_pc ?t < 5")
      case pc: True
      with i True assms ready_write [OF _ own(1) pc, of m0 _ "rh_msgs s a"]
      show ?thesis
        by (auto simp: holders_ok_def tail_step_def Let_def nth_list_update)
    next
      case pc: False
      then have "sent_ok H m0 (Pack (rh_msgs s a))"
        using ready_reply [OF own(2)] by (auto simp: sent_ok_def)
      with i True assms pc show ?thesis
        by (auto simp: holders_ok_def tail_step_def Let_def nth_list_update)
    qed
  qed
qed

lemma tail_run_holders: "holders_ok a H m0 s \<Longrightarrow> holders_ok a H m0 (tail_run schedule s)"
  by (induction schedule arbitrary: s) (simp_all add: tail_run_def tail_step_holders)

lemma tail_run_frame:
  "length (rh_tails (tail_run schedule s)) = length (rh_tails s) \<and>
   (j < length (rh_tails s) \<longrightarrow> tl_addr (rh_tails (tail_run schedule s) ! j) = tl_addr (rh_tails s ! j))"
  by (induction schedule arbitrary: s) (use tail_step_frame in \<open>simp_all add: tail_run_def\<close>)

lemma sent_by_holder:
  assumes "holders_ok a H m0 s" "j < length (rh_tails s)" "tl_addr (rh_tails s ! j) = a"
    and "tl_sent (rh_tails (tail_run schedule s) ! j) = Some p"
  shows "sent_ok H m0 p"
  using tail_run_holders [OF assms(1), of schedule] assms(2-4) tail_run_frame [of schedule s]
  by (simp add: holders_ok_def Let_def)

definition starting :: "tail \<Rightarrow> bool" where
  "starting t \<longleftrightarrow> tl_pc t = 0 \<and> tl_sent t = None"

text \<open>
  C17: a goroutine whose message no other one holds sends, under every schedule of all goroutines
  and their messages, exactly the reply that its query asks for: a packet with the ID and the
  questions of its query and with the records of the resolved message, marked as a reply with
  recursion available and not authoritative, all other flags as they were resolved.
\<close>

theorem private_reply_exact:
  assumes "i < length (rh_tails s)" "starting (rh_tails s ! i)"
    and "\<And>j. j < length (rh_tails s) \<Longrightarrow> j \<noteq> i \<Longrightarrow> tl_addr (rh_tails s ! j) \<noteq> tl_addr (rh_tails s ! i)"
    and "tl_sent (rh_tails (tail_run schedule s) ! i) = Some p"
  shows "\<exists>m. p = Pack m \<and> ID m = ID (tl_req (rh_tails s ! i)) \<and> Questions m = Questions (tl_req (rh_tails s ! i)) \<and>
    (let m0 = rh_msgs s (tl_addr (rh_tails s ! i))
     in Answers m = Answers m0 \<and> Authority m = Authority m0 \<and> Additional m = Additional m0 \<and> Raw m = Raw m0 \<and>
        (\<forall>n. bit (Flags m) n \<longleftrightarrow> n = 15 \<or> n = 7 \<or> n \<noteq> 10 \<and> bit (Flags m0) n))"
proof -
  let ?t = "rh_tails s ! i"
  have "j = i" if "j < length (rh_tails s)" "tl_addr (rh_tails s ! j) = tl_addr ?t" for j
    using that assms(3) by blast
  then have "holders_ok (tl_addr ?t) {tl_req ?t} (rh_msgs s (tl_addr ?t)) s"
    using assms(2) unfolding holders_ok_def Let_def starting_def ready_def by force
  from sent_by_holder [OF this assms(1) refl assms(4)] show ?thesis
    by (auto simp: sent_ok_def reply_built_def)
qed

subsection \<open>The packets of the handler\<close>

definition steps_left :: "tail \<Rightarrow> nat" where
  "steps_left t = (if tl_sent t \<noteq> None then 0 else 6 - tl_pc t)"

lemma tail_step_left:
  assumes "j < length (rh_tails s)" "tl_pc (rh_tails s ! j) \<le> 5"
  shows "tl_pc (rh_tails (tail_step i s) ! j) \<le> 5 \<and>
    steps_left (rh_tails (tail_step i s) ! j) = (if i = j then steps_left (rh_tails s ! j) - 1 else steps_left (rh_tails s ! j))"
proof (cases "i = j")
  case True
  with assms show ?thesis by (auto simp: tail_step_def Let_def steps_left_def)
next
  case False
  with assms tail_step_frame [of i s j] show ?thesis by simp
qed

lemma tail_run_left:
  "j < length (rh_tails s) \<Longrightarrow> tl_pc (rh_tails s ! j) \<le> 5 \<Longrightarrow>
   tl_pc (rh_tails (tail_run schedule s) ! j) \<le> 5 \<and>
   steps_left (rh_tails (tail_run schedule s) ! j) \<le> steps_left (rh_tails s ! j) - count_list schedule j"
proof (induction schedule arbitrary: s)
  case (Cons i schedule)
  note step = tail_step_left [OF Cons.prems, of i]
  have "j < length (rh_tails (tail_step i s))" using Cons.prems(1) tail_step_frame [of i s] by simp
  from Cons.IH [OF this] step show ?case by (auto simp: tail_run_def)
qed (simp add: tail_run_def)

lemma count_replicate: "count_list (replicate n x) x = n"
  by (induction n) simp_all

text \<open>Exactly one packet, whoever holds the message, with ID and questions of a holder.\<close>

lemma resolved_packets:
  "\<exists>p. resolved_packets req resp (others, schedule) = [p] \<and> sent_ok (set (req # others)) resp p"
proof -
  let ?s0 = "\<lparr>rh_msgs = (\<lambda>_. resp), rh_tails = map new_tail (req # others)\<rparr>"
  let ?run = "schedule @ replicate 6 0"
  have start: "0 < length (rh_tails ?s0)" "tl_pc (rh_tails ?s0 ! 0) \<le> 5" "tl_addr (rh_tails ?s0 ! 0) = 0"
    by (simp_all add: new_tail_def)
  have "steps_left (rh_tails ?s0 ! 0) \<le> 6" by (simp add: steps_left_def)
  with tail_run_left [OF start(1,2), of ?run] have "steps_left (rh_tails (tail_run ?run ?s0) ! 0) = 0"
    and "tl_pc (rh_tails (tail_run ?run ?s0) ! 0) \<le> 5"
    by (simp_all add: count_replicate)
  then obtain p where p: "tl_sent (rh_tails (tail_run ?run ?s0) ! 0) = Some p"
    by (auto simp: steps_left_def split: if_splits)
  have "holders_ok 0 (set (req # others)) resp ?s0"
    unfolding holders_ok_def Let_def
  proof (intro allI impI)
    fix j assume "j < length (rh_tails ?s0)"
    then have "rh_tails ?s0 ! j = new_tail ((req # others) ! j)" "(req # others) ! j \<in> set (req # others)"
      by (simp_all only: reply_heap.simps length_map nth_map nth_mem)
    then show "tl_req (rh_tails ?s0 ! j) \<in> set (req # others) \<and>
        ready (set (req # others)) resp (tl_pc (rh_tails ?s0 ! j)) (rh_msgs ?s0 0) \<and>
        (\<forall>p. tl_sent (rh_tails ?s0 ! j) = Some p \<longrightarrow> sent_ok (set (req # others)) resp p)"
      by (simp add: new_tail_def ready_def)
  qed
  from sent_by_holder [OF this start(1,3) p] p show ?thesis
    by (simp add: resolved_packets_def eval_nat_numeral)
qed

subsection \<open>Two holders\<close>

text \<open>
  C35: two goroutines that answer queries for the same name from one message can mix up their
  replies: whatever the queries and the message, there is a schedule under which the sender of
  the first query gets a packet with the ID of the second, which it will discard.
\<close>

theorem shared_reply_mixed:
  assumes "rh_tails s = [t0, t1]" "starting t0" "starting t1" "tl_addr t0 = tl_addr t1"
  shows "\<exists>schedule p. tl_sent (rh_tails (tail_run schedule s) ! 0) = Some p \<and>
    take 2 p = put16 (ID (tl_req t1)) \<and>
    (ID (tl_req t0) \<noteq> ID (tl_req t1) \<longrightarrow> take 2 p \<noteq> put16 (ID (tl_req t0)))"
proof -
  let ?m = "fold (\<lambda>f. f) (tail_writes (tl_req t0)) (rh_msgs s (tl_addr t0))\<lparr>ID := ID (tl_req t1)\<rparr>"
  have "tl_sent (rh_tails (tail_run [0, 0, 0, 0, 0, 1, 0] s) ! 0) = Some (Pack ?m)"
    using assms by (simp add: tail_run_def tail_step_def starting_def tail_writes_def Let_def)
  moreover have "take 2 (Pack ?m) = put16 (ID (tl_req t1))" by (simp add: Pack_ID)
  moreover have "put16 x = put16 y \<Longrightarrow> x = y" for x y :: u16
    using be16_at [of "[]" x "[]"] be16_at [of "[]" y "[]"] by simp
  ultimately show ?thesis by metis
qed

definition two_tails :: "nat \<Rightarrow> nat \<Rightarrow> reply_heap" where
  "two_tails a b =
     \<lparr>rh_msgs = (\<lambda>_. empty_message),
      rh_tails = [\<lparr>tl_addr = a, tl_req = empty_message\<lparr>ID := 1\<rparr>, tl_pc = 0, tl_sent = None\<rparr>,
                  \<lparr>tl_addr = b, tl_req = empty_message\<lparr>ID := 2\<rparr>, tl_pc = 0, tl_sent = None\<rparr>]\<rparr>"

lemma private_reply_exact_witness:
  "\<exists>m. tl_sent (rh_tails (tail_run [0, 1, 0, 1, 0, 0, 1, 0, 1, 0] (two_tails 0 1)) ! 0) = Some (Pack m) \<and>
     ID m = 1 \<and> bit (Flags m) 15 \<and> Answers m = []"
proof -
  obtain p where p: "tl_sent (rh_tails (tail_run [0, 1, 0, 1, 0, 0, 1, 0, 1, 0] (two_tails 0 1)) ! 0) = Some p"
    by (simp add: tail_run_def tail_step_def tail_writes_def Let_def two_tails_def)
  have "starting (rh_tails (two_tails 0 1) ! 0)" by (simp add: two_tails_def starting_def)
  from private_reply_exact [OF _ this _ p] p show ?thesis
    by (auto simp: two_tails_def less_Suc_eq empty_message_def)
qed

lemma shared_reply_mixed_witness:
  "\<exists>schedule p. tl_sent (rh_tails (tail_run schedule (two_tails 0 0)) ! 0) = Some p \<and> take 2 p = [0, 2]"
  using shared_reply_mixed [of "two_tails 0 0"] by (auto simp: two_tails_def starting_def put16_def)

end
