(* ===== verification/HandleProps.thy ===== *)
theory HandleProps
  imports SharedReply ResolveExamples
begin

text \<open>
  What the query handler guarantees, whatever the network and the other goroutines do: one
  reply at most, with the ID and questions of the query or of one that shares its resolution, and no work for clients and names that the
  configuration excludes. The last theorem shows what the handler does not look at: the bit that
  tells a reply from a query.
\<close>

subsection \<open>Replies\<close>

text \<open>
  \<open>m\<close> is marked as a reply, and its ID and its questions are each those of one of these queries: of the
  query itself, or of one of the \<open>others\<close> that goroutines answer from the same message.
\<close>

definition replies_to :: "message list \<Rightarrow> message \<Rightarrow> bool" where
  "replies_to reqs m \<longleftrightarrow> QR m \<and> ID m \<in> ID ` set reqs \<and> Questions m \<in> Questions ` set reqs"

definition sharing :: "'n env \<Rightarrow> message list \<Rightarrow> bool" where
  "sharing env others \<longleftrightarrow> others = [] \<or> (\<exists>w. others = fst (e_share env w))"

lemma replies:
  "replies_to [req] (reply_to req rcode)" "replies_to [req] (servfail req)" "replies_to [req] (record_reply req rrs)"
  by (simp_all add: replies_to_def reply_to_def servfail_def record_reply_def)

lemma packets_reply:
  "\<exists>m. nxdomain req = Pack m \<and> replies_to [req] m" "\<exists>m. refused req = Pack m \<and> replies_to [req] m"
  using replies by (auto simp: nxdomain_def refused_def)

lemma resolved_reply:
  assumes "share \<in> insert ([], []) (range (e_share env))"
  shows "\<exists>m others. resolved_packets req resp share = [Pack m] \<and> replies_to (req # others) m \<and> sharing env others"
proof -
  obtain others schedule where share: "share = (others, schedule)" by fastforce
  with assms have "sharing env others" by (auto simp: sharing_def) (metis fst_conv)
  moreover have "\<exists>m. resolved_packets req resp share = [Pack m] \<and> replies_to (req # others) m"
    using resolved_packets [of req resp others schedule]
    by (auto simp: share sent_ok_def reply_built_def replies_to_def QR_bit)
  ultimately show ?thesis by blast
qed

lemma handle_resolved_replies:
  assumes "handle_resolved env join pr start msg q w = (Some ps, w')"
  shows "\<exists>m others. ps = [Pack m] \<and> replies_to (msg # others) m \<and> sharing env others"
proof -
  have "ps = [Pack (servfail msg)] \<or>
      (\<exists>resp. \<exists>share \<in> insert ([], []) (range (e_share env)). ps = resolved_packets msg resp share)"
    using assms by (auto simp: handle_resolved_def Let_def split: prod.splits sum.splits failure.splits if_splits)
  moreover have "sharing env []" by (simp add: sharing_def)
  ultimately show ?thesis using replies(2) [of msg] resolved_reply by blast
qed

lemma handle_question_replies:
  "handle_question env join pr start msg q w = (Some ps, w') \<Longrightarrow>
   \<exists>m others. ps = [Pack m] \<and> replies_to (msg # others) m \<and> sharing env others"
  using handle_resolved_replies [of env join pr start msg q _ ps w'] replies(3) [of msg] packets_reply(1) [of msg]
  by (auto simp: handle_question_def Let_def sharing_def split: if_splits)

lemma handleQuery_replies:
  assumes "handleQuery env join pr raw w = (Some ps, w')"
  shows "ps = [] \<or> (\<exists>msg m others. ParseMessage raw = Inr msg \<and> ps = [Pack m] \<and> replies_to (msg # others) m \<and>
    sharing env others)"
proof -
  obtain start w1 where now: "e_now env w = (start, w1)" by fastforce
  note run = assms [unfolded handleQuery_def now prod.case Let_def]
  show ?thesis
  proof (cases "allowed (sv_acl (w_rest w1)) (client_ip env pr)")
    case False
    with run packets_reply(2) show ?thesis by (auto simp: sharing_def split: sum.splits)
  next
    case True
    obtain lim w2 where lim: "limited env (client_ip env pr) w1 = (lim, w2)" by fastforce
    show ?thesis
    proof (cases "ParseMessage raw")
      case (Inl e)
      with run True lim show ?thesis by (auto split: bool.splits)
    next
      case (Inr msg)
      with run True lim show ?thesis
        by (auto split: bool.splits list.splits dest: handle_question_replies)
    qed
  qed
qed

text \<open>
  C9: whatever arrives and whatever the network, the cache, the filter and the other goroutines
  do, the handler sends at most one packet per datagram. The packet is marked as a reply; it
  starts with the two bytes of the query's ID and repeats the question section of the query,
  except for one case: when goroutines of other queries wait for the same resolution
  (\<open>e_share\<close>), its ID and its questions are each those of the query or of one of these others.
\<close>

theorem reply_header:
  assumes "handleQuery env join pr raw w = (Some ps, w')"
  shows "length ps \<le> 1 \<and>
    (\<forall>p \<in> set ps. bit (p ! 2) 7 \<and>
       (\<exists>msg m. ParseMessage raw = Inr msg \<and> p = Pack m \<and>
          (take 2 p = take 2 raw \<and> Questions m = Questions msg \<or>
           (\<exists>w1 req1 req2. {req1, req2} \<subseteq> insert msg (set (fst (e_share env w1))) \<and>
              take 2 p = put16 (ID req1) \<and> Questions m = Questions req2))))"
proof (cases "ps = []")
  case False
  then obtain msg m others where p: "ParseMessage raw = Inr msg" "ps = [Pack m]" "replies_to (msg # others) m"
    and others: "sharing env others" using handleQuery_replies [OF assms] by blast
  then obtain req1 req2 where reqs: "{req1, req2} \<subseteq> insert msg (set others)" "take 2 (Pack m) = put16 (ID req1)"
      "Questions m = Questions req2"
    unfolding replies_to_def Pack_ID by fastforce
  have "bit (Pack m ! 2) 7" using p(3) by (simp add: replies_to_def Pack_ID QR_byte QR_bit)
  moreover have "take 2 (Pack m) = take 2 raw \<and> Questions m = Questions msg" if "others = []"
    using that reqs ParseMessage_ID [OF p(1)] by auto
  ultimately show ?thesis using p(1,2) reqs others unfolding sharing_def by auto
qed simp

subsection \<open>What never reaches the network\<close>

text \<open>
  C15: the handler resolves a name only when nothing in the configuration settles the query: if it
  changes the cache, a connection pool or the DNSSEC validator, or brings the process down,
  then the access list admits the client, the datagram is a message with a question, the filter
  does not block its name, and no custom record answers it.
\<close>

theorem resolves_only_when_due:
  assumes "pure_clock env clk" "handleQuery env join pr raw w = (r, w')"
    and "w_cache w' \<noteq> w_cache w \<or> w_pools w' \<noteq> w_pools w \<or> w_val w' \<noteq> w_val w \<or> r = None"
  shows "allowed (sv_acl (w_rest w)) (client_ip env pr) \<and>
    (\<exists>msg q qs. ParseMessage raw = Inr msg \<and> Questions msg = q # qs \<and>
       \<not> Blocked (sv_filter (w_rest w)) (q_name q) \<and>
       rs_Lookup (sv_records (w_rest w)) (q_name q) (q_type q) = [])"
proof -
  have now: "e_now env = (\<lambda>w. (clk w, w))" using assms(1) by (simp add: pure_clock_def)
  obtain lim w1 where lim: "limited env (client_ip env pr) w = (lim, w1)" by fastforce
  then have same: "w_cache w1 = w_cache w" "w_pools w1 = w_pools w" "w_val w1 = w_val w"
    "sv_filter (w_rest w1) = sv_filter (w_rest w)" "sv_records (w_rest w1) = sv_records (w_rest w)"
    by (auto simp: limited_def now split: option.splits prod.splits)
  show ?thesis
  proof (cases "allowed (sv_acl (w_rest w)) (client_ip env pr) \<and> \<not> lim \<and>
      (\<exists>msg q qs. ParseMessage raw = Inr msg \<and> Questions msg = q # qs)")
    case False
    with assms(2,3) lim same show ?thesis
      by (auto simp: handleQuery_def now Let_def split: if_splits bool.splits sum.splits list.splits)
  next
    case True
    then obtain msg q qs where q: "ParseMessage raw = Inr msg" "Questions msg = q # qs" by blast
    with True assms(2) lim have "handle_question env join pr (clk w) msg q w1 = (r, w')"
      by (simp add: handleQuery_def now)
    with assms(3) same have "\<not> Blocked (sv_filter (w_rest w)) (q_name q) \<and>
       rs_Lookup (sv_records (w_rest w)) (q_name q) (q_type q) = []"
      by (auto simp: handle_question_def Let_def log_now_def now split: if_splits)
    with True q show ?thesis by blast
  qed
qed

subsection \<open>Replies are answered\<close>

lemma pack_labels_fresh:
  "list_all ok_label ls \<Longrightarrow> (\<forall>s \<in> dom names. length (join_with CHR ''.'' ls) < length s) \<Longrightarrow>
   fst (pack_labels_compressed buf ls names) = buf @ concat (map pack_label ls) @ [0]"
proof (induction ls arbitrary: buf names)
  case (Cons l ls)
  define sfx where "sfx = to_lower (join_with CHR ''.'' (l # ls))"
  have l: "length sfx = length (join_with CHR ''.'' (l # ls))" "l \<noteq> []"
    using length_to_lower [OF ok_labels_join [OF Cons.prems(1)]] Cons.prems(1)
    by (simp_all add: sfx_def ok_label_def)
  then have "names sfx = None" using Cons.prems(2) by (metis domIff less_irrefl)
  moreover have "\<forall>s \<in> dom (names(sfx \<mapsto> p)). length (join_with CHR ''.'' ls) < length s" for p
    using Cons.prems(2) l(1) length_join_Cons [OF l(2), of "CHR ''.''" ls]
    by (auto simp del: join_with.simps intro: less_trans)
  moreover have "\<forall>s \<in> dom names. length (join_with CHR ''.'' ls) < length s"
    using Cons.prems(2) length_join_Cons [OF l(2), of "CHR ''.''" ls] less_trans by blast
  ultimately show ?case
    using Cons.IH [where buf = "buf @ pack_label l"] Cons.prems(1) l(2)
    by (auto simp: Let_def simp flip: sfx_def)
qed simp

lemma wire_labels:
  "list_all ok_label ls \<Longrightarrow>
   wire_name (xs @ concat (map pack_label ls) @ 0 # ys) limit (length xs) ls
     (length xs + length (concat (map pack_label ls)) + 1)"
proof (induction ls arbitrary: xs)
  case Nil
  then show ?case using wire_root [of "length xs" "xs @ 0 # ys" limit] by simp
next
  case (Cons l ls)
  have "wire_name ((xs @ pack_label l) @ concat (map pack_label ls) @ 0 # ys) limit (length (xs @ pack_label l)) ls
     (length (xs @ pack_label l) + length (concat (map pack_label ls)) + 1)"
    by (rule Cons.IH) (use Cons.prems in simp)
  moreover have "length (pack_label l) = 1 + length l" by (simp add: pack_label_def)
  ultimately show ?case
    using Cons.prems slice_at [of xs "pack_label l" "concat (map pack_label ls) @ 0 # ys"]
    by (intro wire_label) (simp_all add: algebra_simps)
qed

text \<open>The packet of a message with a single question and nothing else, and that it is read back exactly.\<close>

definition wire_name_of :: "string \<Rightarrow> byte list" where
  "wire_name_of name = concat (map pack_label (if name = [] then [] else split_on CHR ''.'' name)) @ [0]"

lemma one_question_packet:
  assumes "Questions m = [q]" "ok_name (q_name q)" "Answers m = []" "Authority m = []" "Additional m = []"
  shows "Pack m = pack_header m @ wire_name_of (q_name q) @ put16 (q_type q) @ put16 (q_class q)"
proof -
  define ls where "ls = (if q_name q = [] then [] else split_on CHR ''.'' (q_name q))"
  have ls: "list_all ok_label ls"
    using assms(2) by (auto simp: ls_def ok_name_def)
  have "fst (packCompressedName (pack_header m) (q_name q) Map.empty) = pack_header m @ wire_name_of (q_name q)"
    using pack_labels_fresh [OF ls(1), of Map.empty "pack_header m"] ok_name_trim [OF assms(2)]
    by (cases "q_name q = []") (simp_all add: packCompressedName_def Let_def ls_def wire_name_of_def)
  then obtain names where
    "packCompressedName (pack_header m) (q_name q) Map.empty = (pack_header m @ wire_name_of (q_name q), names)"
    by (metis prod.collapse)
  then show ?thesis using assms by (simp add: Pack_def pack_question_eq)
qed

lemma one_question_read:
  assumes "Questions m = [q]" "ok_name (q_name q)" "Answers m = []" "Authority m = []" "Additional m = []"
  shows "\<exists>m'. ParseMessage (Pack m) = Inr m' \<and> ID m' = ID m \<and> Questions m' = [q]"
proof -
  define ls where "ls = (if q_name q = [] then [] else split_on CHR ''.'' (q_name q))"
  define nm where "nm = concat (map pack_label ls) @ [0]"
  have ls: "list_all ok_label ls" "join_with CHR ''.'' ls = q_name q"
    using assms(2) by (auto simp: ls_def ok_name_def join_split)
  have pack: "Pack m = pack_header m @ nm @ put16 (q_type q) @ put16 (q_class q)"
    using one_question_packet [OF assms] by (simp add: nm_def ls_def wire_name_of_def)
  have hd: "length (pack_header m) = 12" by (rule pack_header_read)
  have "wire_name (pack_header m @ concat (map pack_label ls) @ 0 # put16 (q_type q) @ put16 (q_class q))
      12 12 ls (12 + length nm)"
    using wire_labels [OF ls(1), of "pack_header m" "put16 (q_type q) @ put16 (q_class q)" 12]
    by (simp add: hd nm_def)
  then have "parseName (Pack m) 12 = Inr (q_name q, 12 + length nm)"
    using parseName_wire ls(2) by (fastforce simp: pack nm_def)
  moreover have "be16 (Pack m) (12 + length nm) = q_type q"
    using be16_at [of "pack_header m @ nm" "q_type q" "put16 (q_class q)"] by (simp add: pack hd)
  moreover have "be16 (Pack m) (12 + length nm + 2) = q_class q"
    using be16_at [of "pack_header m @ nm @ put16 (q_type q)" "q_class q" "[]"]
    by (simp add: pack hd put16_def ac_simps)
  moreover have "length (Pack m) = 12 + length nm + 4" by (simp add: pack hd put16_def)
  ultimately have "parse_questions (Pack m) 12 1 = Inr ([q], 12 + length nm + 4)"
    by (simp add: parse_question_def read16_def)
  moreover have "be16 (Pack m) 0 = ID m" "be16 (Pack m) 4 = 1" "be16 (Pack m) 6 = 0" "be16 (Pack m) 8 = 0"
    "be16 (Pack m) 10 = 0"
    using assms by (simp_all add: pack pack_header_read)
  ultimately show ?thesis
    by (simp add: ParseMessage_unfold pack hd)
qed

lemma nxdomain_read:
  assumes "Questions msg = [q]" "ok_name (q_name q)"
  shows "\<exists>m'. ParseMessage (nxdomain msg) = Inr m' \<and> nxdomain m' = nxdomain msg \<and> Questions m' = [q]"
proof -
  let ?m = "reply_to msg RcodeNXDomain"
  have "Answers ?m = [] \<and> Authority ?m = [] \<and> Additional ?m = []"
    by (simp add: reply_to_def SetQR_def SetRA_def SetRcode_def empty_message_def header.defs message.defs)
  moreover have "Questions ?m = [q]" "ID ?m = ID msg" using assms(1) by (simp_all add: reply_to_def)
  ultimately obtain m' where m': "ParseMessage (nxdomain msg) = Inr m'" "ID m' = ID msg" "Questions m' = [q]"
    using one_question_read [of ?m q] assms(2) by (auto simp: nxdomain_def)
  then have "nxdomain m' = nxdomain msg" using assms(1) by (simp add: nxdomain_def reply_to_def)
  with m' show ?thesis by blast
qed

text \<open>
  C38: a reply is answered like a query, because the bit that marks replies is not looked at: sent
  to a server that blocks its name, the reply NXDOMAIN is answered by the very same packet,
  and the server is as ready as before to do so again. Two servers that are made to exchange one
  such packet (by a forged source address) send it back and forth without end.
\<close>

theorem reply_is_answered:
  assumes "pure_clock env clk" "Questions msg = [q]" "ok_name (q_name q)"
    and "allowed (sv_acl (w_rest w)) (client_ip env pr)" "sv_limiter (w_rest w) = None"
    and "Blocked (sv_filter (w_rest w)) (q_name q)"
  shows "\<exists>w'. handleQuery env join pr (nxdomain msg) w = (Some [nxdomain msg], w') \<and>
    sv_acl (w_rest w') = sv_acl (w_rest w) \<and> sv_limiter (w_rest w') = None \<and>
    sv_filter (w_rest w') = sv_filter (w_rest w)"
proof -
  obtain m' where "ParseMessage (nxdomain msg) = Inr m'" "nxdomain m' = nxdomain msg" "Questions m' = [q]"
    using nxdomain_read [OF assms(2,3)] by blast
  with assms show ?thesis
    by (simp add: handleQuery_def handle_question_def limited_def log_now_def log_query_def pure_clock_def Let_def)
qed

subsection \<open>A server that blocks one name\<close>

definition sx_env :: "Server env" where
  "sx_env =
     \<lparr>e_dial = (\<lambda>_ _ w. (Inl '''', w)), e_datagram = (\<lambda>_ _ w. (Inl '''', w)),
      e_stream = (\<lambda>_ _ _ w. (Inl '''', w)), e_http = (\<lambda>_ _ w. (HttpError '''', w)),
      e_clock = (\<lambda>w. (\<lambda>_. 7, w)), e_now = (\<lambda>w. (7, w)), e_rand = (\<lambda>w. (0, w)), e_shuffle = Pair,
      e_pick = (\<lambda>w. (True, w)), e_share = (\<lambda>_. ([], [])), e_render = (\<lambda>_. ''1.2.3.4''), e_split_ok = (\<lambda>_. True),
      e_order = (\<lambda>xs. xs),
      e_crypto = \<lparr>c_digest = (\<lambda>_ _. []), c_rsa = (\<lambda>_ _ _ _. False), c_ecdsa = (\<lambda>_ _ _ _. False),
                  c_ed25519 = (\<lambda>_ _ _. False)\<rparr>,
      e_dnssec_text = (\<lambda>_. '''')\<rparr>"

definition sx_world :: "Server world" where
  "sx_world =
     \<lparr>w_cache = NewCache, w_pools = new_pools, w_val = \<lparr>v_anchors = [], v_keyCache = []\<rparr>,
      w_rest = \<lparr>sv_cfg = defaults, sv_filter = \<lparr>f_state = \<lparr>fs_domains = [''ad''], fs_mode = ''blacklist''\<rparr>,
          f_inline = [''ad'']\<rparr>,
        sv_records = [], sv_qlog = newQueryLog (\<lambda>_. False) 2 '''', sv_limiter = None,
        sv_acl = \<lparr>ca_rules = [], ca_defaultAllow = True\<rparr>, sv_history = empty_history,
        sv_validator = False, sv_sem = None, sv_total = 0, sv_hits = 0, sv_blocked = 0, sv_latency = 0,
        sv_start = 1\<rparr>\<rparr>"

definition sx_peer :: peer where
  "sx_peer = \<lparr>pr_addr = UDPAddr [1, 2, 3, 4], pr_text = ''1.2.3.4:99'', pr_host = Some ''1.2.3.4''\<rparr>"

definition sx_query :: "string \<Rightarrow> message" where
  "sx_query name = empty_message\<lparr>ID := 77,
     Questions := [\<lparr>q_name = name, q_type = TypeA, q_class = ClassIN\<rparr>]\<rparr>"

lemma sx_clock: "pure_clock sx_env (\<lambda>_. 7)"
  by (simp add: pure_clock_def sx_env_def)

lemma sx_allowed: "allowed (sv_acl (w_rest sx_world)) ip"
  by (simp add: sx_world_def allowed_def split: option.split)

lemma sx_blocked: "Blocked (sv_filter (w_rest sx_world)) ''ad''"
  by (simp add: sx_world_def) code_simp

lemma sx_ok_names: "ok_name ''ad''" "ok_name ''b''"
  by code_simp+

lemma sx_facts:
  "sv_limiter (w_rest sx_world) = None" "sv_records (w_rest sx_world) = []" "w_cache sx_world = NewCache"
  "Questions (sx_query name) = [\<lparr>q_name = name, q_type = TypeA, q_class = ClassIN\<rparr>]"
  by (simp_all add: sx_world_def sx_query_def)

lemma sx_read:
  assumes "ok_name name"
  shows "\<exists>m. ParseMessage (Pack (sx_query name)) = Inr m \<and>
    Questions m = [\<lparr>q_name = name, q_type = TypeA, q_class = ClassIN\<rparr>]"
  using one_question_read [OF sx_facts(4), of name] assms
  by (auto simp: sx_query_def empty_message_def)

lemma reply_is_answered_witness:
  "Blocked (sv_filter (w_rest sx_world)) ''ad'' \<and>
   (\<exists>w'. handleQuery sx_env (\<lambda>_. Pair None) sx_peer (nxdomain (sx_query ''ad'')) sx_world =
     (Some [nxdomain (sx_query ''ad'')], w'))"
  using reply_is_answered [OF sx_clock sx_facts(4), of "''ad''" sx_world sx_peer "\<lambda>_. Pair None"]
    sx_blocked sx_allowed sx_ok_names(1) sx_facts(1)
  by fastforce

lemma reply_header_witness:
  "\<exists>p w'. handleQuery sx_env (\<lambda>_. Pair None) sx_peer (Pack (sx_query ''ad'')) sx_world = (Some [p], w') \<and>
     take 2 p = take 2 (Pack (sx_query ''ad'')) \<and> bit (p ! 2) 7"
proof -
  from sx_read [OF sx_ok_names(1)] obtain m where
    m: "ParseMessage (Pack (sx_query ''ad'')) = Inr m"
      "Questions m = [\<lparr>q_name = ''ad'', q_type = TypeA, q_class = ClassIN\<rparr>]" by blast
  then obtain w' where run:
    "handleQuery sx_env (\<lambda>_. Pair None) sx_peer (Pack (sx_query ''ad'')) sx_world = (Some [nxdomain m], w')"
    using sx_clock sx_allowed sx_facts(1) sx_blocked
    by (simp add: handleQuery_def handle_question_def limited_def pure_clock_def Let_def)
  have "e_share sx_env w = ([], [])" for w by (simp add: sx_env_def)
  with reply_header [OF run] run ParseMessage_ID [OF m(1)] m(1) show ?thesis
    by (intro exI [of _ "nxdomain m"] exI [of _ w']) auto
qed

text \<open>The leader that a query waits for learns that the name does not exist.\<close>

definition sx_join :: "Server join" where
  "sx_join key w = (Some (Inl (Failed ''NXDOMAIN'')), w\<lparr>w_cache := SetNegative 7 ''b'' TypeA 300 (w_cache w)\<rparr>)"

lemma resolves_only_when_due_witness:
  "w_cache (snd (handleQuery sx_env sx_join sx_peer (Pack (sx_query ''b'')) sx_world)) \<noteq> w_cache sx_world \<and>
   \<not> Blocked (sv_filter (w_rest sx_world)) ''b''"
proof -
  from sx_read [OF sx_ok_names(2)] obtain m where
    m: "ParseMessage (Pack (sx_query ''b'')) = Inr m"
      "Questions m = [\<lparr>q_name = ''b'', q_type = TypeA, q_class = ClassIN\<rparr>]" by blast
  have b: "\<not> Blocked (sv_filter (w_rest sx_world)) ''b''"
    by (simp add: sx_world_def) code_simp
  have r: "rs_Lookup [] ''b'' TypeA = []" "\<not> IsNegative 7 ''b'' TypeA NewCache"
    "Get 7 7 7 True ''b'' TypeA NewCache = (None, False, NewCache)" by code_simp+
  have pf: "cc_Prefetch (rs_Cache (cfg_Resolver (sv_cfg (w_rest sx_world)))) = True"
    by (simp add: sx_world_def defaults_def)
  obtain ps w' where run: "handleQuery sx_env sx_join sx_peer (Pack (sx_query ''b'')) sx_world = (ps, w')"
    by fastforce
  then have "w_cache w' = SetNegative 7 ''b'' TypeA 300 NewCache"
    using sx_clock sx_allowed sx_facts b r m pf
    by (auto simp: handleQuery_def handle_question_def handle_resolved_def limited_def pure_clock_def Let_def
      resolve_def cache_negative_def cache_get_def sx_join_def)
  moreover have "IsNegative 7 ''b'' TypeA (SetNegative 7 ''b'' TypeA 300 NewCache)" by code_simp
  ultimately have "w_cache w' \<noteq> w_cache sx_world" using r(2) sx_facts(3) by auto
  with resolves_only_when_due [OF sx_clock run] m run show ?thesis by auto
qed

end
