(* ===== verification/WireAnswers.thy ===== *)
theory WireAnswers
  imports HandleProps
begin

text \<open>
  What a client reads in the packet that answers it: the parser, the handler, filter, custom records
  and the writer together.
\<close>

definition settled :: "'s server_world \<Rightarrow> question \<Rightarrow> bool" where
  "settled w q \<longleftrightarrow>
     Blocked (sv_filter (w_rest w)) (q_name q) \<or> rs_Lookup (sv_records (w_rest w)) (q_name q) (q_type q) \<noteq> []"

text \<open>The message that settles a question without the resolver.\<close>

definition settling_reply :: "'s server_world \<Rightarrow> message \<Rightarrow> question \<Rightarrow> message" where
  "settling_reply w msg q =
     (if Blocked (sv_filter (w_rest w)) (q_name q) then reply_to msg RcodeNXDomain
      else record_reply msg (rs_Lookup (sv_records (w_rest w)) (q_name q) (q_type q)))"

lemma handle_settled:
  assumes "settled w q"
  shows "fst (handle_question env join pr start msg q w) = Some [Pack (settling_reply w msg q)]"
  using assms by (auto simp: handle_question_def settled_def settling_reply_def nxdomain_def Let_def)

lemma limited_frame:
  assumes "pure_clock env clk" "limited env ip w = (over, w')"
  shows "sv_filter (w_rest w') = sv_filter (w_rest w) \<and> sv_records (w_rest w') = sv_records (w_rest w)"
  using assms by (auto simp: limited_def pure_clock_def split: option.splits prod.splits)

lemma handleQuery_settled:
  assumes "pure_clock env clk" "allowed (sv_acl (w_rest w)) (client_ip env pr)"
    and "\<not> fst (limited env (client_ip env pr) w)" "ParseMessage raw = Inr msg" "Questions msg = q # qs" "settled w q"
  shows "fst (handleQuery env join pr raw w) = Some [Pack (settling_reply w msg q)]"
proof -
  obtain w' where lim: "limited env (client_ip env pr) w = (False, w')"
    using assms(3) by (cases "limited env (client_ip env pr) w") auto
  with limited_frame [OF assms(1)] have "settled w' q" "settling_reply w' msg q = settling_reply w msg q"
    using assms(6) by (auto simp: settled_def settling_reply_def)
  with handle_settled [of w' q env join pr "clk w" msg] assms(1,2,4,5) lim show ?thesis
    by (simp add: handleQuery_def pure_clock_def Let_def)
qed

lemma settling_reply_fields:
  "ID (settling_reply w msg q) = ID msg" "Questions (settling_reply w msg q) = Questions msg"
  "Authority (settling_reply w msg q) = []" "Additional (settling_reply w msg q) = []" "Raw (settling_reply w msg q) = []"
  "Answers (settling_reply w msg q) =
     (if Blocked (sv_filter (w_rest w)) (q_name q) then []
      else rs_Lookup (sv_records (w_rest w)) (q_name q) (q_type q))"
  by (simp_all add: settling_reply_def reply_to_def record_reply_def empty_message_def SetRcode_def SetRA_def SetQR_def SetAA_def)

lemma flags_of_sections [simp]:
  "Rcode (m\<lparr>Questions := qs\<rparr>) = Rcode m" "Rcode (m\<lparr>Answers := rrs\<rparr>) = Rcode m" "Rcode (m\<lparr>ID := i\<rparr>) = Rcode m"
  "QR (m\<lparr>Questions := qs\<rparr>) = QR m" "QR (m\<lparr>Answers := rrs\<rparr>) = QR m"
  by (simp_all add: Rcode_def QR_def)

lemma settling_reply_flags:
  "QR (settling_reply w msg q)"
  "Rcode (settling_reply w msg q) = (if Blocked (sv_filter (w_rest w)) (q_name q) then RcodeNXDomain else 0)"
  by (simp_all add: settling_reply_def reply_to_def record_reply_def Rcode_SetRcode)
    (simp_all add: Rcode_def empty_message_def)

lemma settling_reply_ok:
  assumes "list_all (\<lambda>q. ok_name (q_name q)) (Questions msg)" "length (Questions msg) < 65536"
    and "list_all (ok_rr []) (rs_Lookup (sv_records (w_rest w)) (q_name q) (q_type q))"
    and "length (rs_Lookup (sv_records (w_rest w)) (q_name q) (q_type q)) < 65536"
  shows "ok_message (settling_reply w msg q)"
  using assms by (simp add: ok_message_def settling_reply_fields)

text \<open>
  C16: the whole path of a query that the configuration settles, read off the packets. An admitted
  client whose datagram parses to a question with a blocked name gets one packet back, and reads in
  it a reply with its ID and its question, the code NXDOMAIN and no answer; if the name is not
  blocked but custom records answer it, it reads the code 0 and exactly these records in their order,
  with their types, classes, TTLs and rdata, names equal up to ASCII case.
\<close>

theorem settled_on_the_wire:
  assumes "pure_clock env clk" "allowed (sv_acl (w_rest w)) (client_ip env pr)"
    and "\<not> fst (limited env (client_ip env pr) w)"
    and "ParseMessage raw = Inr msg" "Questions msg = [q]" "ok_name (q_name q)"
    and "rs_Lookup (sv_records (w_rest w)) (q_name q) (q_type q) = rrs" "list_all (ok_rr []) rrs" "length rrs < 65536"
    and "Blocked (sv_filter (w_rest w)) (q_name q) \<or> rrs \<noteq> []"
  shows "\<exists>packet m. fst (handleQuery env join pr raw w) = Some [packet] \<and> ParseMessage packet = Inr m \<and>
    ID m = ID msg \<and> QR m \<and> list_all2 same_question [q] (Questions m) \<and>
    (if Blocked (sv_filter (w_rest w)) (q_name q) then Rcode m = RcodeNXDomain \<and> Answers m = []
     else Rcode m = 0 \<and> list_all2 (same_rr [] packet) rrs (Answers m))"
proof -
  let ?r = "settling_reply w msg q"
  have "settled w q" using assms(7,10) by (auto simp: settled_def)
  then have sent: "fst (handleQuery env join pr raw w) = Some [Pack ?r]"
    using handleQuery_settled assms(1-5) by blast
  have "ok_message ?r" using assms(5-9) by (intro settling_reply_ok) simp_all
  then obtain m where m: "ParseMessage (Pack ?r) = Inr m" "ID m = ID ?r" "Flags m = Flags ?r"
    "list_all2 same_question (Questions ?r) (Questions m)" "list_all2 (same_rr (Raw ?r) (Raw m)) (Answers ?r) (Answers m)"
    using message_roundtrip by blast
  have "Raw m = Pack ?r" using m(1) by (elim ParseMessage_InrE)
  moreover have "QR m = QR ?r" "Rcode m = Rcode ?r" using m(3) by (simp_all add: QR_def Rcode_def)
  ultimately show ?thesis using sent m assms(5,7)
    by (cases "Blocked (sv_filter (w_rest w)) (q_name q)"; intro exI [of _ "Pack ?r"] exI [of _ m])
      (simp_all add: settling_reply_fields settling_reply_flags)
qed

text \<open>A server that blocks one name and answers another.\<close>

definition rx_world :: "Server world" where
  "rx_world = map_server (\<lambda>s. s\<lparr>sv_records := [(''b'', [\<lparr>rr_name = ''b'', rr_type = TypeA, rr_class = ClassIN,
     rr_ttl = 60, rr_data = [10, 0, 0, 1], rr_offset = 0\<rparr>])]\<rparr>) sx_world"

lemma settled_on_the_wire_witness:
  "\<exists>packet m rr. fst (handleQuery sx_env sx_join sx_peer (Pack (sx_query ''b'')) rx_world) = Some [packet] \<and>
     ParseMessage packet = Inr m \<and> Rcode m = 0 \<and> Answers m = [rr] \<and> rr_data rr = [10, 0, 0, 1]"
proof -
  from sx_read [OF sx_ok_names(2)] obtain msg where
    msg: "ParseMessage (Pack (sx_query ''b'')) = Inr msg"
      "Questions msg = [\<lparr>q_name = ''b'', q_type = TypeA, q_class = ClassIN\<rparr>]" by blast
  define rr where "rr = \<lparr>rr_name = ''b'', rr_type = TypeA, rr_class = ClassIN, rr_ttl = 60,
    rr_data = [10, 0, 0, 1], rr_offset = 0\<rparr>"
  have f: "sv_acl (w_rest rx_world) = sv_acl (w_rest sx_world)" "sv_filter (w_rest rx_world) = sv_filter (w_rest sx_world)"
    "sv_limiter (w_rest rx_world) = None" "sv_records (w_rest rx_world) = [(''b'', [rr])]"
    by (simp_all add: rx_world_def sx_facts rr_def)
  have "\<not> Blocked (sv_filter (w_rest sx_world)) ''b''" by (simp add: sx_world_def) code_simp
  moreover have "rs_Lookup [(''b'', [rr])] ''b'' TypeA = [rr]" by (simp add: rr_def) code_simp
  moreover have "list_all (ok_rr []) [rr]"
    by (simp add: ok_rr_def name_rdata_def rr_def sx_ok_names)
  ultimately show ?thesis
    using settled_on_the_wire [OF sx_clock, of rx_world sx_peer "Pack (sx_query ''b'')" msg _ "[rr]" sx_join]
      msg sx_ok_names(2) sx_allowed
    by (auto simp: f limited_def list_all2_Cons1 same_rr_def same_rdata_def name_rdata_def rr_def)
qed

end
