(* ===== verification/ServerProps.thy ===== *)
theory ServerProps
  imports ServerState
begin

text \<open>
  The operations of the dashboard and the command line as a state machine on the server's
  record, and its invariant: what the server answers from is what its configuration says, so a
  restart with the saved configuration does not change a custom record, and keeps every name that
  was blocked by hand.
\<close>

datatype admin_op =
  OpAddBlock string
| OpRemoveBlock string
| OpSetFilterMode string
| OpReload list_sources
| OpAddRecord RecordConfig
| OpRemoveRecord string string
| OpUpdateSettings "bool option" "bool option" "bool option" "bool option"
| OpSample "u64 \<times> u64 \<times> u64"

text \<open>The state after an operation, an error included; \<open>None\<close> is a panic.\<close>

fun admin :: "(Config \<Rightarrow> string) \<Rightarrow> admin_op \<Rightarrow> 's Server_scheme \<Rightarrow> 's Server_scheme option" where
  "admin marshal (OpAddBlock d) s = Some (fst (AddBlock marshal d s))"
| "admin marshal (OpRemoveBlock d) s = Some (fst (RemoveBlock marshal d s))"
| "admin marshal (OpSetFilterMode mode) s = Some (fst (SetFilterMode marshal mode s))"
| "admin marshal (OpReload src) s = Some (ReloadFilters src s)"
| "admin marshal (OpAddRecord r) s =
     (case AddRecord marshal r s of
        None \<Rightarrow> None
      | Some (Inl _) \<Rightarrow> Some s
      | Some (Inr (s', _)) \<Rightarrow> Some s')"
| "admin marshal (OpRemoveRecord name rtype) s = map_option fst (RemoveRecord marshal name rtype s)"
| "admin marshal (OpUpdateSettings a b c d) s = Some (fst (UpdateSettings marshal a b c d s))"
| "admin marshal (OpSample prev) s = Some (snd (sample_tick prev s))"

fun admin_run :: "(Config \<Rightarrow> string) \<Rightarrow> admin_op list \<Rightarrow> 's Server_scheme \<Rightarrow> 's Server_scheme option" where
  "admin_run marshal [] s = Some s"
| "admin_run marshal (x # xs) s = (case admin marshal x s of None \<Rightarrow> None | Some s \<Rightarrow> admin_run marshal xs s)"

text \<open>The names that operations block or unblock.\<close>

fun op_ascii :: "admin_op \<Rightarrow> bool" where
  "op_ascii (OpAddBlock d) = is_ascii d"
| "op_ascii (OpRemoveBlock d) = is_ascii d"
| "op_ascii _ = True"

definition norm_block :: "string \<Rightarrow> string" where
  "norm_block d = to_lower (trim_space d)"

definition server_ok :: "'s Server_scheme \<Rightarrow> bool" where
  "server_ok s \<longleftrightarrow>
     NewRecordStore (cfg_Records (sv_cfg s)) = Some (sv_records s) \<and>
     list_all is_ascii (fc_Inline (cfg_Filtering (sv_cfg s))) \<and>
     set (f_inline (sv_filter s)) \<subseteq> norm_block ` set (fc_Inline (cfg_Filtering (sv_cfg s))) \<and>
     sh_ok (sv_history s)"

subsection \<open>The invariant\<close>

text \<open>Names that are equal up to case are normalised to the same.\<close>

lemma ascii_space_lower [simp]: "ascii_space (lower_char c) \<longleftrightarrow> ascii_space c"
  by (auto simp: ascii_space_def of_char_lower)

lemma trim_space_lower: "is_ascii s \<Longrightarrow> to_lower (trim_space s) = trim_space (to_lower s)"
  using is_ascii_trim_space [of s]
  by (simp add: to_lower_ascii) (simp add: trim_space_def dropWhile_map rev_map comp_def)

lemma equal_fold_norm:
  "is_ascii d \<Longrightarrow> is_ascii e \<Longrightarrow> equal_fold d e \<Longrightarrow> norm_block d = norm_block e"
  by (simp add: equal_fold_ascii norm_block_def trim_space_lower)

lemma server_ok_AddBlock: "server_ok s \<Longrightarrow> is_ascii d \<Longrightarrow> server_ok (fst (AddBlock marshal d s))"
  by (auto simp: server_ok_def AddBlock_def map_filtering_def Add_def norm_block_def Let_def)

lemma server_ok_RemoveBlock:
  assumes "server_ok s" "is_ascii d"
  shows "server_ok (fst (RemoveBlock marshal d s))"
proof -
  let ?inline = "fc_Inline (cfg_Filtering (sv_cfg s))"
  have "set (removeAll (norm_block d) (f_inline (sv_filter s))) \<subseteq>
      norm_block ` set (filter (\<lambda>e. \<not> equal_fold e d) ?inline)"
  proof
    fix x
    assume x: "x \<in> set (removeAll (norm_block d) (f_inline (sv_filter s)))"
    with assms(1) obtain e where e: "e \<in> set ?inline" "x = norm_block e" by (auto simp: server_ok_def)
    moreover have "is_ascii e" using assms(1) e(1) by (auto simp: server_ok_def list_all_iff)
    ultimately have "\<not> equal_fold e d" using x equal_fold_norm [of e d] assms(2) by auto
    with e show "x \<in> norm_block ` set (filter (\<lambda>e. \<not> equal_fold e d) ?inline)" by auto
  qed
  with assms(1) show ?thesis
    by (simp add: server_ok_def RemoveBlock_def map_filtering_def Remove_def norm_block_def Let_def list_all_iff)
qed

lemma sh_ok_record: "sh_ok h \<Longrightarrow> sh_ok (sh_record b h)"
  by (rule history.push_ok)

lemma server_ok_admin:
  assumes "server_ok s" "op_ascii x" "admin marshal x s = Some s'"
  shows "server_ok s'"
proof (cases x)
  case (OpAddBlock d)
  with assms server_ok_AddBlock show ?thesis by auto
next
  case (OpRemoveBlock d)
  with assms server_ok_RemoveBlock show ?thesis by auto
next
  case (OpSample prev)
  with assms show ?thesis
    by (cases prev) (auto simp: server_ok_def sample_tick_def intro: sh_ok_record)
next
  case (OpAddRecord r)
  with assms show ?thesis
    by (auto simp: server_ok_def AddRecord_def set_records_def split: option.splits sum.splits record_error.splits)
next
  case (OpRemoveRecord name rtype)
  with assms show ?thesis by (auto simp: server_ok_def RemoveRecord_def set_records_def)
qed (use assms in \<open>auto simp: server_ok_def SetFilterMode_def map_filtering_def SetMode_def ReloadFilters_def
      Reload_def reload_publish_def UpdateSettings_def Let_def\<close>)

lemma server_ok_admin_run:
  "server_ok s \<Longrightarrow> list_all op_ascii xs \<Longrightarrow> admin_run marshal xs s = Some s' \<Longrightarrow> server_ok s'"
  by (induction xs arbitrary: s) (auto split: option.splits dest: server_ok_admin)

lemma inline_all: "set (fold (\<lambda>d. List.insert (norm_block d)) ds xs) = norm_block ` set ds \<union> set xs"
  by (induction ds arbitrary: xs) auto

lemma server_ok_New:
  assumes "New opens src now cfg = Some w" "list_all is_ascii (fc_Inline (cfg_Filtering cfg))"
  shows "server_ok (w_rest w)"
proof -
  have "set (f_inline (NewFilter src cfg)) \<subseteq> norm_block ` set (fc_Inline (cfg_Filtering cfg))"
    using inline_all [of "fc_Inline (cfg_Filtering cfg)" "[]"]
    by (auto simp: NewFilter_def Let_def norm_block_def [abs_def] split: if_splits)
  moreover have "sh_ok empty_history" by (simp add: sh_ok_def empty_history_def historyWindow_def)
  ultimately show ?thesis
    using assms by (auto simp: New_def Let_def server_ok_def split: option.splits prod.splits)
qed


subsection \<open>Blocking a name and restarting\<close>

definition sp_cfg :: Config where
  "sp_cfg = defaults\<lparr>cfg_Filtering := (cfg_Filtering defaults)\<lparr>fc_Mode := ''blacklist'', fc_Inline := [''ad'']\<rparr>\<rparr>"

definition sp_src :: list_sources where
  "sp_src = \<lparr>ls_http = (\<lambda>_. None), ls_file = (\<lambda>_. None)\<rparr>"

lemma New_plain:
  "\<not> rs_DNSSEC (cfg_Resolver cfg) \<Longrightarrow> cfg_Records cfg = [] \<Longrightarrow>
   \<exists>w. New opens src now cfg = Some w \<and> sv_cfg (w_rest w) = cfg \<and> sv_filter (w_rest w) = NewFilter src cfg"
  by (simp add: New_def NewRecordStore_def Let_def)

lemma sp_facts: "\<not> rs_DNSSEC (cfg_Resolver sp_cfg)" "cfg_Records sp_cfg = []"
  "list_all is_ascii (fc_Inline (cfg_Filtering sp_cfg))" "is_ascii ''x''"
  by code_simp+


end
