(* ===== verification/Minecraft.thy ===== *)
theory Minecraft
  imports Config
begin

text \<open>
  The supervisor of the Minecraft server process, \<open>internal/server/minecraft.go\<close>: \<open>Start\<close>,
  \<open>Stop\<close> and \<open>Running\<close> under one mutex, and the goroutine that waits for each started process and
  then forgets it. Whether the executable and the jar are found and the process starts is
  decided outside; so is when a process ends.
\<close>

text \<open>
  An \<open>exec.Cmd\<close>: \<open>cm_started\<close> when its \<open>Process\<close> is set, \<open>cm_waited\<close> when its \<open>ProcessState\<close> is;
  \<open>cm_alive\<close> is the process itself, and \<open>cm_watched\<close> that its goroutine has not finished.
\<close>

record mc_cmd =
  cm_args :: "string list"
  cm_started :: bool
  cm_alive :: bool
  cm_waited :: bool
  cm_watched :: bool

text \<open>Every command that was ever made, by its address, and \<open>m.cmd\<close>.\<close>

record MinecraftServer =
  mcs_cfg :: MinecraftConfig
  mcs_apiURL :: string
  mcs_cmds :: "mc_cmd list"
  mcs_cur :: "nat option"

datatype mc_error = AlreadyRunning | NoExecutable | NoJar string | StartFailed

definition NewMinecraftServer :: "MinecraftConfig \<Rightarrow> string \<Rightarrow> MinecraftServer" where
  "NewMinecraftServer cfg apiURL = \<lparr>mcs_cfg = cfg, mcs_apiURL = apiURL, mcs_cmds = [], mcs_cur = None\<rparr>"

text \<open>The API address that \<open>New\<close> passes.\<close>

definition api_url :: "Config \<Rightarrow> string" where
  "api_url cfg =
     (let listen = db_Listen (cfg_Dashboard cfg);
          host = (if listen = ''0.0.0.0'' then ''127.0.0.1'' else listen)
      in ''http://'' @ host @ '':'' @ int_string (db_Port (cfg_Dashboard cfg)))"

definition mc_args :: "MinecraftServer \<Rightarrow> string \<Rightarrow> string list" where
  "mc_args m jar =
     [''-Xms'' @ mc_MinRAM (mcs_cfg m), ''-Xmx'' @ mc_MaxRAM (mcs_cfg m), ''-jar'', jar,
      ''--addr'', mc_Listen (mcs_cfg m), ''--port'', int_string (mc_Port (mcs_cfg m)), ''--api'', mcs_apiURL m]"

definition mc_Running :: "MinecraftServer \<Rightarrow> bool" where
  "mc_Running m = (case mcs_cur m of None \<Rightarrow> False | Some c \<Rightarrow> \<not> cm_waited (mcs_cmds m ! c))"

text \<open>\<open>jar\<close> is the path beside the executable, if that is known, and \<open>jar_ok\<close> that it exists.\<close>

definition mc_Start :: "string option \<Rightarrow> bool \<Rightarrow> bool \<Rightarrow> MinecraftServer \<Rightarrow> (mc_error + unit) \<times> MinecraftServer" where
  "mc_Start jar jar_ok starts m =
     (if mc_Running m then (Inl AlreadyRunning, m)
      else case jar of
             None \<Rightarrow> (Inl NoExecutable, m)
           | Some jar \<Rightarrow>
               if \<not> jar_ok then (Inl (NoJar jar), m)
               else (if starts then Inr () else Inl StartFailed,
                     m\<lparr>mcs_cmds := mcs_cmds m @ [\<lparr>cm_args = mc_args m jar, cm_started = starts,
                         cm_alive = starts, cm_waited = False, cm_watched = starts\<rparr>],
                       mcs_cur := Some (length (mcs_cmds m))\<rparr>))"

text \<open>The process that is sent a signal, if there is one.\<close>

definition mc_Stop :: "MinecraftServer \<Rightarrow> nat option" where
  "mc_Stop m =
     (case mcs_cur m of None \<Rightarrow> None | Some c \<Rightarrow> if cm_started (mcs_cmds m ! c) then Some c else None)"

text \<open>What else happens: a process ends, \<open>Wait\<close> returns, and the goroutine sets \<open>m.cmd\<close> to nil.\<close>

inductive mc_step :: "MinecraftServer \<Rightarrow> MinecraftServer \<Rightarrow> bool" where
  starts: "mc_step m (snd (mc_Start jar jar_ok ok m))"
| ends: "c < length (mcs_cmds m) \<Longrightarrow> cm_alive (mcs_cmds m ! c) \<Longrightarrow>
    mc_step m (m\<lparr>mcs_cmds := (mcs_cmds m)[c := (mcs_cmds m ! c)\<lparr>cm_alive := False\<rparr>]\<rparr>)"
| waited: "c < length (mcs_cmds m) \<Longrightarrow> cm_started (mcs_cmds m ! c) \<Longrightarrow> \<not> cm_alive (mcs_cmds m ! c) \<Longrightarrow>
    mc_step m (m\<lparr>mcs_cmds := (mcs_cmds m)[c := (mcs_cmds m ! c)\<lparr>cm_waited := True\<rparr>]\<rparr>)"
| forgets: "c < length (mcs_cmds m) \<Longrightarrow> cm_watched (mcs_cmds m ! c) \<Longrightarrow> cm_waited (mcs_cmds m ! c) \<Longrightarrow>
    mc_step m (m\<lparr>mcs_cmds := (mcs_cmds m)[c := (mcs_cmds m ! c)\<lparr>cm_watched := False\<rparr>], mcs_cur := None\<rparr>)"

inductive_cases mc_stepE: "mc_step m m'"

subsection \<open>A start that fails\<close>

definition stuck :: "MinecraftServer \<Rightarrow> bool" where
  "stuck m \<longleftrightarrow>
     (\<exists>c < length (mcs_cmds m). mcs_cur m = Some c \<and> \<not> cm_started (mcs_cmds m ! c) \<and> \<not> cm_waited (mcs_cmds m ! c)) \<and>
     list_all (\<lambda>x. \<not> cm_watched x) (mcs_cmds m)"

lemma stuck_running: "stuck m \<Longrightarrow> mc_Running m"
  by (auto simp: stuck_def mc_Running_def)

lemma stuck_step: "stuck m \<Longrightarrow> mc_step m m' \<Longrightarrow> stuck m'"
proof (erule mc_stepE, goal_cases)
  case (1 jar jar_ok ok)
  then show ?case by (simp add: mc_Start_def stuck_running)
next
  case (2 c)
  then show ?case by (auto simp: stuck_def list_all_length nth_list_update)
next
  case (3 c)
  then show ?case by (auto simp: stuck_def list_all_length nth_list_update)
next
  case (4 c)
  then show ?case by (auto simp: stuck_def list_all_length)
qed

text \<open>
  When the process of a server with no older process left fails to start, the server counts
  as running for ever: whatever happens afterwards, \<open>Running\<close> says yes, every further \<open>Start\<close>
  is refused as already running, and \<open>Stop\<close> signals nobody.
\<close>

theorem failed_start_sticks:
  assumes "mc_Start jar jar_ok ok m = (Inl StartFailed, m1)" "list_all (\<lambda>x. \<not> cm_watched x) (mcs_cmds m)"
    and "mc_step\<^sup>*\<^sup>* m1 m2"
  shows "mc_Running m2 \<and> mc_Start jar' jar_ok' ok' m2 = (Inl AlreadyRunning, m2) \<and> mc_Stop m2 = None"
proof -
  have "stuck m1" using assms(1,2)
    by (auto simp: mc_Start_def stuck_def split: if_splits option.splits)
  from assms(3) this have "stuck m2"
    by (induction rule: rtranclp_induct) (auto intro: stuck_step)
  then show ?thesis using stuck_running [of m2] by (auto simp: mc_Start_def mc_Stop_def stuck_def)
qed

definition mc_fresh :: MinecraftServer where
  "mc_fresh = NewMinecraftServer (cfg_Minecraft defaults) (api_url defaults)"

lemma failed_start_sticks_witness:
  "fst (mc_Start (Some ''x.jar'') True True (snd (mc_Start (Some ''x.jar'') True False mc_fresh))) = Inl AlreadyRunning"
proof -
  have "mc_Start (Some ''x.jar'') True False mc_fresh = (Inl StartFailed, snd (mc_Start (Some ''x.jar'') True False mc_fresh))"
    by (simp add: mc_Start_def mc_Running_def mc_fresh_def NewMinecraftServer_def)
  from failed_start_sticks [OF this, of _ "Some ''x.jar''" True True] show ?thesis
    by (simp add: mc_fresh_def NewMinecraftServer_def)
qed

subsection \<open>Two processes at once\<close>

text \<open>
  The goroutine of a process that has ended also forgets a process that was started in between,
  so a second start succeeds while the first process runs.
\<close>

lemma two_processes:
  "\<exists>m. mc_step\<^sup>*\<^sup>* mc_fresh m \<and> length (filter cm_alive (mcs_cmds m)) = 2"
proof -
  define go where "go = snd \<circ> mc_Start (Some ''x.jar'') True True"
  define upd where "upd c f m = m\<lparr>mcs_cmds := (mcs_cmds m)[c := f (mcs_cmds m ! c)]\<rparr>"
    for c :: nat and f and m :: MinecraftServer
  let ?m1 = "go mc_fresh"
  let ?m2 = "upd 0 (cm_alive_update (\<lambda>_. False)) ?m1"
  let ?m3 = "upd 0 (cm_waited_update (\<lambda>_. True)) ?m2"
  let ?m4 = "go ?m3"
  let ?m5 = "upd 0 (cm_watched_update (\<lambda>_. False)) ?m4\<lparr>mcs_cur := None\<rparr>"
  let ?m6 = "go ?m5"
  note defs = go_def upd_def mc_Start_def mc_Running_def mc_fresh_def NewMinecraftServer_def
  have "mc_step mc_fresh ?m1" using mc_step.starts [of mc_fresh "Some ''x.jar''" True True] by (simp add: go_def)
  moreover have "mc_step ?m1 ?m2" using mc_step.ends [of 0 ?m1] by (simp add: defs)
  moreover have "mc_step ?m2 ?m3" using mc_step.waited [of 0 ?m2] by (simp add: defs)
  moreover have "mc_step ?m3 ?m4" using mc_step.starts [of ?m3 "Some ''x.jar''" True True] by (simp add: go_def)
  moreover have "mc_step ?m4 ?m5" using mc_step.forgets [of 0 ?m4] by (simp add: defs)
  moreover have "mc_step ?m5 ?m6" using mc_step.starts [of ?m5 "Some ''x.jar''" True True] by (simp add: go_def)
  ultimately have "mc_step\<^sup>*\<^sup>* mc_fresh ?m6" by (meson converse_rtranclp_into_rtranclp rtranclp.rtrancl_refl)
  moreover have "length (filter cm_alive (mcs_cmds ?m6)) = 2" by (simp add: defs)
  ultimately show ?thesis by blast
qed

end
