(* ===== verification/Sessions.thy ===== *)
theory Sessions
  imports GoEncoding ExpiringStore
begin

text \<open>
  Login state of \<open>internal/dashboard/dashboard.go\<close>: the one-time challenges (\<open>nonceStore\<close>) and the
  session cookie. The challenges are an \<open>expiring_store\<close> whose readers also delete. HMAC-SHA256 is
  an argument, and so are the random bytes; the token and the secret are drawn once per process.
\<close>

subsection \<open>Challenges\<close>

type_synonym nonceStore = "(string \<times> int) list"

text \<open>The random bytes are those that \<open>rand.Read\<close> delivers; the result is the challenge.\<close>

definition nonce_Issue :: "int \<Rightarrow> byte list \<Rightarrow> nonceStore \<Rightarrow> string \<times> nonceStore" where
  "nonce_Issue t b n = (hex_encode b, AList.update (hex_encode b) (t + 60 * second) n)"

definition nonce_Consume :: "int \<Rightarrow> string \<Rightarrow> nonceStore \<Rightarrow> bool \<times> nonceStore" where
  "nonce_Consume t nonce n =
     (case map_of n nonce of
        None \<Rightarrow> (False, AList.delete nonce n)
      | Some e \<Rightarrow> if e < t then (False, AList.delete nonce n) else (True, AList.delete nonce n))"

definition nonce_sweep :: "int \<Rightarrow> nonceStore \<Rightarrow> nonceStore" where
  "nonce_sweep t n = filter (\<lambda>(k, e). \<not> e < t) n"

datatype nonce_op = OpIssue int "byte list" | OpConsume int string | OpSweep int

fun nonce_step :: "nonce_op \<Rightarrow> nonceStore \<Rightarrow> nonceStore" where
  "nonce_step (OpIssue t b) n = snd (nonce_Issue t b n)"
| "nonce_step (OpConsume t nonce) n = snd (nonce_Consume t nonce n)"
| "nonce_step (OpSweep t) n = nonce_sweep t n"

fun nonce_writes :: "nonceStore \<Rightarrow> nonce_op \<Rightarrow> (string \<times> int) option" where
  "nonce_writes n (OpIssue t b) = Some (hex_encode b, t + 60 * second)"
| "nonce_writes n _ = None"

definition nonce_read :: "int \<Rightarrow> nonceStore \<Rightarrow> string \<Rightarrow> int option" where
  "nonce_read t n k = (case map_of n k of Some e \<Rightarrow> if e < t then None else Some e | None \<Rightarrow> None)"

definition nonces_ok :: "nonceStore \<Rightarrow> bool" where
  "nonces_ok n \<longleftrightarrow> distinct (map fst n)"

lemma nonce_Consume_read: "fst (nonce_Consume t nonce n) \<longleftrightarrow> nonce_read t n nonce \<noteq> None"
  by (auto simp: nonce_Consume_def nonce_read_def split: option.split)

lemma nonce_Consume_deletes: "snd (nonce_Consume t nonce n) = AList.delete nonce n"
  by (auto simp: nonce_Consume_def split: option.split)

lemma map_of_sweep: "nonces_ok n \<Longrightarrow> map_of (nonce_sweep t n) k = Some e \<Longrightarrow> map_of n k = Some e"
  by (simp add: nonces_ok_def nonce_sweep_def map_of_eq_Some_iff distinct_map_filter)

interpretation nonces: expiring_store nonces_ok map_of nonce_step nonce_writes "\<lambda>t e. t \<le> e" nonce_read
proof
  show "nonces_ok (nonce_step op n)" if "nonces_ok n" for op n
    using that by (cases op) (auto simp: nonces_ok_def nonce_Issue_def nonce_Consume_deletes nonce_sweep_def
      distinct_map_filter distinct_update distinct_delete)
  show "nonce_writes n op = Some (k, e) \<or> map_of n k = Some e \<and> (\<forall>w. nonce_writes n op \<noteq> Some (k, w))"
    if "nonces_ok n" "map_of (nonce_step op n) k = Some e" for op n k e
    using that by (cases op) (auto simp: nonce_Issue_def nonce_Consume_deletes map_of_update map_of_delete
      dest: map_of_sweep split: if_splits)
qed (auto simp: nonce_read_def split: option.splits)

text \<open>
  C24: a challenge is good for one login: whatever was issued, consumed and swept before, a
  challenge is accepted only if it was issued at most a minute ago, and no login attempt has
  used it since.
\<close>

theorem challenge_single_use:
  assumes "fst (nonce_Consume t nonce (fold nonce_step ops []))"
  shows "\<exists>pre t0 b post. ops = pre @ OpIssue t0 b # post \<and> hex_encode b = nonce \<and> t \<le> t0 + 60 * second \<and>
    (\<forall>t'. OpConsume t' nonce \<notin> set post)"
proof -
  have ok: "nonces_ok []" by (simp add: nonces_ok_def)
  from assms obtain e where e: "nonce_read t (fold nonce_step ops []) nonce = Some e"
    by (auto simp: nonce_Consume_read)
  from nonces.read_provenance [OF ok _ this]
  have "last_write nonce_step nonce_writes [] ops nonce = Some e" "t \<le> e" by simp_all
  from last_write_split [OF this(1)] obtain pre op post where
    ops: "ops = pre @ op # post" "nonce_writes (fold nonce_step pre []) op = Some (nonce, e)"
      "last_write nonce_step nonce_writes (nonce_step op (fold nonce_step pre [])) post nonce = None" by blast
  obtain t0 b where op: "op = OpIssue t0 b" "hex_encode b = nonce" "e = t0 + 60 * second"
    using ops(2) by (cases op) auto
  have "OpConsume t' nonce \<notin> set post" for t'
  proof
    assume "OpConsume t' nonce \<in> set post"
    then obtain xs ys where post: "post = xs @ OpConsume t' nonce # ys" by (meson split_list)
    define n where "n = nonce_step (OpConsume t' nonce) (fold nonce_step (pre @ op # xs) [])"
    have "nonces_ok n" "map_of n nonce = None"
      using nonces.fold_inv [OF ok, of "pre @ op # xs @ [OpConsume t' nonce]"]
      by (simp_all add: n_def nonce_Consume_deletes map_of_delete)
    moreover have "map_of (fold nonce_step ys n) nonce = Some e"
      using e by (auto simp: nonce_read_def ops(1) post n_def split: option.splits if_splits)
    ultimately have "last_write nonce_step nonce_writes n ys nonce = Some e"
      by (rule nonces.find_provenance_empty)
    then show False using ops(3) by (simp add: post last_write_append n_def)
  qed
  with ops(1) op \<open>t \<le> e\<close> show ?thesis by blast
qed

lemma challenge_single_use_witness:
  "fst (nonce_Consume 9 ''07'' (fold nonce_step [OpIssue 0 [7], OpSweep 5] [])) \<and>
   \<not> fst (nonce_Consume 9 ''07'' (fold nonce_step [OpIssue 0 [7], OpConsume 5 ''07''] []))"
proof -
  have h: "hex_encode [7] = ''07''" by code_simp
  have "fst (nonce_Consume 9 ''07'' (fold nonce_step [OpIssue 0 [7], OpSweep 5] []))"
    by (simp add: nonce_Consume_def nonce_Issue_def nonce_sweep_def h second_def)
  moreover have False if "fst (nonce_Consume 9 ''07'' (fold nonce_step [OpIssue 0 [7], OpConsume 5 ''07''] []))"
    using challenge_single_use [OF that] by (auto simp: Cons_eq_append_conv)
  ultimately show ?thesis by blast
qed

subsection \<open>Session cookies\<close>

text \<open>\<open>mac key message\<close> is HMAC-SHA256.\<close>

type_synonym hmac = "byte list \<Rightarrow> byte list \<Rightarrow> byte list"

definition signToken :: "hmac \<Rightarrow> byte list \<Rightarrow> string \<Rightarrow> string" where
  "signToken mac secret token = token @ ''.'' @ hex_encode (mac secret (bytes_of token))"

definition verifyToken :: "hmac \<Rightarrow> byte list \<Rightarrow> string \<Rightarrow> string \<Rightarrow> bool" where
  "verifyToken mac secret token cookie =
     (case split_n CHR ''.'' 2 cookie of
        [p, _] \<Rightarrow> cookie = signToken mac secret p \<and> p = token
      | _ \<Rightarrow> False)"

end
