(* ===== verification/Dashboard.thy ===== *)
theory Dashboard
  imports Sessions ServerState Updater
begin

text \<open>
  The HTTP interface of \<open>internal/dashboard/dashboard.go\<close>: who may use it, login and logout, and one
  definition per handler over the operations of the server. A request carries its body as the JSON
  decoder delivers it (\<open>None\<close> when it does not decode); the two embedded pages are named, not
  copied. The configuration that the handlers read is the server's, which they also change.
\<close>

subsection \<open>Requests and responses\<close>

record body =
  bd_username :: string
  bd_response :: string
  bd_nonce :: string
  bd_domain :: string
  bd_mode :: string
  bd_name :: string
  bd_type :: string
  bd_value :: string
  bd_ttl :: u32
  bd_edns0 :: "bool option"
  bd_tcp_fallback :: "bool option"
  bd_prefetch :: "bool option"
  bd_update_check :: "bool option"

record http_request =
  rq_path :: string
  rq_method :: string
  rq_remote :: string
  rq_cookie :: "string option"
  rq_query_mode :: string
  rq_body :: "body option"

datatype json =
  JBool bool
| JInt int
| JFloat rat
| JTime int
| JString string
| JList "json list"
| JObj "(string \<times> json) list"

datatype content =
  Redirect string
| HttpFailure nat string
| Html string
| Plain string
| Json json
| Aborted      \<comment> \<open>a panic in the handler, which the HTTP server recovers\<close>

text \<open>The cookie that is set, with its age in seconds.\<close>

record response =
  rp_content :: content
  rp_cookie :: "(string \<times> int) option"

text \<open>
  What the handlers use of the outside: the HMAC with the secret and the token of this process,
  random bytes, the clock, whether writing a file succeeds, and the release that GitHub reports.
\<close>

record dash_env =
  de_mac :: hmac
  de_secret :: "byte list"
  de_token :: string
  de_random :: "byte list"
  de_now :: int
  de_later :: int
  de_clock :: "nat \<Rightarrow> int"
  de_marshal :: "Config \<Rightarrow> string"
  de_write :: "string \<Rightarrow> string \<Rightarrow> bool"
  de_release :: "(string \<times> string) option"
  de_version :: string
  de_text :: "record_error option \<Rightarrow> string"

record 's dash =
  da_nonces :: nonceStore
  da_update :: update_cache
  da_world :: "'s server_world"

abbreviation dash_server :: "'s dash \<Rightarrow> 's Server_scheme" where
  "dash_server d \<equiv> w_rest (da_world d)"

definition put_server :: "'s Server_scheme \<Rightarrow> 's dash \<Rightarrow> 's dash" where
  "put_server s d = d\<lparr>da_world := (da_world d)\<lparr>w_rest := s\<rparr>\<rparr>"

definition saved :: "dash_env \<Rightarrow> (string \<times> string) option \<Rightarrow> bool" where
  "saved env doc = (case doc of None \<Rightarrow> False | Some (path, text) \<Rightarrow> de_write env path text)"

subsection \<open>Authentication\<close>

definition isAuthenticated :: "dash_env \<Rightarrow> http_request \<Rightarrow> bool" where
  "isAuthenticated env rq =
     (case rq_cookie rq of None \<Rightarrow> False | Some c \<Rightarrow> verifyToken (de_mac env) (de_secret env) (de_token env) c)"

definition requireAuth :: "dash_env \<Rightarrow> Config \<Rightarrow> http_request \<Rightarrow> bool" where
  "requireAuth env cfg rq \<longleftrightarrow>
     \<not> AuthEnabled cfg \<or> has_prefix (rq_remote rq) ''127.0.0.1:'' \<or> has_prefix (rq_remote rq) ''[::1]:'' \<or>
     isAuthenticated env rq"

definition answer :: "content \<Rightarrow> response" where
  "answer c = \<lparr>rp_content = c, rp_cookie = None\<rparr>"

definition guarded :: "dash_env \<Rightarrow> http_request \<Rightarrow> 's dash \<Rightarrow> response \<times> 's dash \<Rightarrow> response \<times> 's dash" where
  "guarded env rq d result =
     (if requireAuth env (sv_cfg (dash_server d)) rq then result else (answer (Redirect ''/login''), d))"

definition login_page :: "dash_env \<Rightarrow> http_request \<Rightarrow> 's dash \<Rightarrow> response \<times> 's dash" where
  "login_page env rq d =
     (answer (if \<not> AuthEnabled (sv_cfg (dash_server d)) then Redirect ''/''
              else if isAuthenticated env rq then Redirect ''/''
              else if rq_method rq = ''GET'' then Html ''login.html''
              else HttpFailure 404 ''404 page not found''), d)"

definition not_post :: response where
  "not_post = answer (HttpFailure 405 ''method not allowed'')"

definition bad_request :: response where
  "bad_request = answer (HttpFailure 400 ''bad request'')"

definition json_ok :: response where
  "json_ok = answer (Json (JObj [(''ok'', JBool True)]))"

definition login_failed :: "string \<Rightarrow> response" where
  "login_failed e = answer (Json (JObj [(''ok'', JBool False), (''error'', JString e)]))"

definition login_challenge :: "dash_env \<Rightarrow> http_request \<Rightarrow> 's dash \<Rightarrow> response \<times> 's dash" where
  "login_challenge env rq d =
     (if rq_method rq \<noteq> ''POST'' then (not_post, d)
      else case nonce_Issue (de_now env) (de_random env) (da_nonces d) of
             (nonce, n) \<Rightarrow> (answer (Json (JObj [(''nonce'', JString nonce)])), d\<lparr>da_nonces := n\<rparr>))"

definition login_response :: "dash_env \<Rightarrow> Config \<Rightarrow> string \<Rightarrow> string" where
  "login_response env cfg nonce =
     hex_encode (de_mac env (bytes_of (au_Password (db_Auth (cfg_Dashboard cfg)))) (bytes_of nonce))"

definition api_login :: "dash_env \<Rightarrow> http_request \<Rightarrow> 's dash \<Rightarrow> response \<times> 's dash" where
  "api_login env rq d =
     (if rq_method rq \<noteq> ''POST'' then (not_post, d)
      else case rq_body rq of
             None \<Rightarrow> (bad_request, d)
           | Some b \<Rightarrow>
               (case nonce_Consume (de_now env) (bd_nonce b) (da_nonces d) of
                  (ok, n) \<Rightarrow>
                    let d = d\<lparr>da_nonces := n\<rparr>; cfg = sv_cfg (dash_server d)
                    in if \<not> ok then (login_failed ''invalid or expired challenge'', d)
                       else if bd_username b \<noteq> au_Username (db_Auth (cfg_Dashboard cfg)) \<or>
                               bd_response b \<noteq> login_response env cfg (bd_nonce b)
                       then (login_failed ''invalid credentials'', d)
                       else (json_ok\<lparr>rp_cookie := Some (signToken (de_mac env) (de_secret env) (de_token env),
                               604800)\<rparr>, d)))"

definition api_logout :: "dash_env \<Rightarrow> http_request \<Rightarrow> 's dash \<Rightarrow> response \<times> 's dash" where
  "api_logout env rq d = (\<lparr>rp_content = Redirect ''/login'', rp_cookie = Some ('''', -1)\<rparr>, d)"

subsection \<open>Statistics\<close>

definition float_of :: "u64 \<Rightarrow> rat" where
  "float_of x = round64 (of_int (uint x))"

definition hit_rate :: "StatsSnapshot \<Rightarrow> rat" where
  "hit_rate st =
     (if ss_TotalQueries st = 0 then 0
      else round64 (round64 (float_of (ss_CacheHits st) / float_of (ss_TotalQueries st)) * 100))"

definition avg_latency :: "StatsSnapshot \<Rightarrow> rat" where
  "avg_latency st =
     (if ss_TotalQueries st = 0 then 0 else round64 (float_of (ss_TotalLatencyMs st) / float_of (ss_TotalQueries st)))"

definition api_stats :: "dash_env \<Rightarrow> http_request \<Rightarrow> 's dash \<Rightarrow> response \<times> 's dash" where
  "api_stats env rq d =
     guarded env rq d
       (let st = Stats (de_now env) (da_world d)
        in (answer (Json (JObj
           [(''total_queries'', JInt (uint (ss_TotalQueries st))), (''cache_hits'', JInt (uint (ss_CacheHits st))),
            (''blocked'', JInt (uint (ss_Blocked st))), (''hit_rate'', JFloat (hit_rate st)),
            (''avg_latency_ms'', JFloat (avg_latency st)), (''uptime_seconds'', JInt (ss_UptimeSeconds st)),
            (''cache_size'', JInt (int (ss_CacheSize st))),
            (''cache_negative'', JInt (int (ss_CacheNegative st)))])), d))"

definition json_bucket :: "HistoryBucket \<Rightarrow> json" where
  "json_bucket b = JObj [(''queries'', JInt (uint (hb_Queries b))), (''hits'', JInt (uint (hb_Hits b))),
     (''blocked'', JInt (uint (hb_Blocked b)))]"

definition api_history :: "dash_env \<Rightarrow> http_request \<Rightarrow> 's dash \<Rightarrow> response \<times> 's dash" where
  "api_history env rq d =
     guarded env rq d (answer (Json (JList (map json_bucket (History (dash_server d))))), d)"

definition newline :: string where
  "newline = [char_of (10 :: nat)]"

definition metric :: "string \<Rightarrow> string \<Rightarrow> string \<Rightarrow> string \<Rightarrow> string" where
  "metric name help kind value =
     ''# HELP '' @ name @ '' '' @ help @ newline @ ''# TYPE '' @ name @ '' '' @ kind @ newline @
     name @ '' '' @ value @ newline"

definition metrics :: "dash_env \<Rightarrow> http_request \<Rightarrow> 's dash \<Rightarrow> response \<times> 's dash" where
  "metrics env rq d =
     (let st = Stats (de_now env) (da_world d)
      in (answer (Plain (
            metric ''kmresolv_queries_total'' ''Total DNS queries received'' ''counter'' (dec_string (unat (ss_TotalQueries st))) @ newline @
            metric ''kmresolv_cache_hits_total'' ''Queries answered from cache'' ''counter'' (dec_string (unat (ss_CacheHits st))) @ newline @
            metric ''kmresolv_blocked_total'' ''Queries blocked by filter'' ''counter'' (dec_string (unat (ss_Blocked st))) @ newline @
            metric ''kmresolv_latency_ms_total'' ''Sum of query latencies in milliseconds'' ''counter'' (dec_string (unat (ss_TotalLatencyMs st))) @ newline @
            metric ''kmresolv_cache_entries'' ''Current number of cached records'' ''gauge'' (dec_string (ss_CacheSize st)) @ newline @
            metric ''kmresolv_cache_negative_entries'' ''Current number of cached NXDOMAIN responses'' ''gauge'' (dec_string (ss_CacheNegative st)) @ newline @
            metric ''kmresolv_uptime_seconds'' ''Seconds since the server started'' ''gauge'' (int_string (ss_UptimeSeconds st)))), d))"

subsection \<open>Cache, filter and records\<close>

definition home_page :: "dash_env \<Rightarrow> http_request \<Rightarrow> 's dash \<Rightarrow> response \<times> 's dash" where
  "home_page env rq d = guarded env rq d (answer (Html ''dashboard.html''), d)"

definition post_only :: "http_request \<Rightarrow> 's dash \<Rightarrow> response \<times> 's dash \<Rightarrow> response \<times> 's dash" where
  "post_only rq d result = (if rq_method rq \<noteq> ''POST'' then (not_post, d) else result)"

definition api_cache_flush :: "dash_env \<Rightarrow> http_request \<Rightarrow> 's dash \<Rightarrow> response \<times> 's dash" where
  "api_cache_flush env rq d = guarded env rq d (post_only rq d
     (json_ok, d\<lparr>da_world := FlushCache (de_clock env) (rq_query_mode rq) (da_world d)\<rparr>))"

definition api_filter_add :: "dash_env \<Rightarrow> http_request \<Rightarrow> 's dash \<Rightarrow> response \<times> 's dash" where
  "api_filter_add env rq d = guarded env rq d (post_only rq d
     (case rq_body rq of
        None \<Rightarrow> (bad_request, d)
      | Some b \<Rightarrow>
          if bd_domain b = '''' then (bad_request, d)
          else (json_ok, put_server (fst (AddBlock (de_marshal env) (bd_domain b) (dash_server d))) d)))"

definition api_filter_remove :: "dash_env \<Rightarrow> http_request \<Rightarrow> 's dash \<Rightarrow> response \<times> 's dash" where
  "api_filter_remove env rq d = guarded env rq d (post_only rq d
     (case rq_body rq of
        None \<Rightarrow> (bad_request, d)
      | Some b \<Rightarrow>
          if bd_domain b = '''' then (bad_request, d)
          else (json_ok, put_server (fst (RemoveBlock (de_marshal env) (bd_domain b) (dash_server d))) d)))"

definition api_filter_status :: "dash_env \<Rightarrow> http_request \<Rightarrow> 's dash \<Rightarrow> response \<times> 's dash" where
  "api_filter_status env rq d = guarded env rq d
     (let fs = FilterStatus_of (dash_server d)
      in (answer (Json (JObj [(''mode'', JString (st_Mode fs)), (''size'', JInt (int (st_Size fs))),
            (''inline'', JList (map JString (st_Inline fs)))])), d))"

definition save_failed :: response where
  "save_failed = answer (HttpFailure 500 ''failed to save config'')"

definition api_filter_mode :: "dash_env \<Rightarrow> http_request \<Rightarrow> 's dash \<Rightarrow> response \<times> 's dash" where
  "api_filter_mode env rq d = guarded env rq d (post_only rq d
     (case rq_body rq of
        None \<Rightarrow> (bad_request, d)
      | Some b \<Rightarrow>
          let mode = to_lower (bd_mode b)
          in if mode \<noteq> ''off'' \<and> mode \<noteq> ''blacklist'' \<and> mode \<noteq> ''whitelist''
             then (answer (HttpFailure 400 ''invalid mode''), d)
             else case SetFilterMode (de_marshal env) mode (dash_server d) of
                    (s, doc) \<Rightarrow> (if saved env doc then json_ok else save_failed, put_server s d)))"

definition json_query :: "QueryEntry \<Rightarrow> json" where
  "json_query e =
     JObj [(''time'', JTime (qe_Time e)), (''domain'', JString (qe_Domain e)), (''type'', JString (qe_Type e)),
       (''client'', JString (qe_Client e)), (''status'', JString (qe_Status e)), (''latency_ms'', JInt (qe_Latency e))]"

definition api_querylog :: "dash_env \<Rightarrow> http_request \<Rightarrow> 's dash \<Rightarrow> response \<times> 's dash" where
  "api_querylog env rq d = guarded env rq d
     (case RecentQueries 100 (dash_server d) of
        None \<Rightarrow> (answer Aborted, d)
      | Some es \<Rightarrow> (answer (Json (JList (map json_query es))), d))"

definition json_record :: "RecordConfig \<Rightarrow> json" where
  "json_record r =
     JObj [(''name'', JString (rc_Name r)), (''type'', JString (rc_Type r)), (''value'', JString (rc_Value r)),
       (''ttl'', JInt (uint (rc_TTL r)))]"

definition api_records :: "dash_env \<Rightarrow> http_request \<Rightarrow> 's dash \<Rightarrow> response \<times> 's dash" where
  "api_records env rq d = guarded env rq d
     (answer (Json (JList (map json_record (cfg_Records (sv_cfg (dash_server d)))))), d)"

definition api_records_remove :: "dash_env \<Rightarrow> http_request \<Rightarrow> 's dash \<Rightarrow> response \<times> 's dash" where
  "api_records_remove env rq d = guarded env rq d (post_only rq d
     (case rq_body rq of
        None \<Rightarrow> (bad_request, d)
      | Some b \<Rightarrow>
          (case RemoveRecord (de_marshal env) (bd_name b) (bd_type b) (dash_server d) of
             None \<Rightarrow> (answer Aborted, d)
           | Some (s, doc) \<Rightarrow> (if saved env doc then json_ok else save_failed, put_server s d))))"

definition record_of_body :: "body \<Rightarrow> RecordConfig" where
  "record_of_body b = \<lparr>rc_Name = bd_name b, rc_Type = bd_type b, rc_TTL = bd_ttl b, rc_Value = bd_value b\<rparr>"

definition api_records_add :: "dash_env \<Rightarrow> http_request \<Rightarrow> 's dash \<Rightarrow> response \<times> 's dash" where
  "api_records_add env rq d = guarded env rq d (post_only rq d
     (case rq_body rq of
        None \<Rightarrow> (bad_request, d)
      | Some b \<Rightarrow>
          if bd_name b = '''' \<or> bd_type b = '''' \<or> bd_value b = ''''
          then (answer (HttpFailure 400 ''name, type, and value are required''), d)
          else (case AddRecord (de_marshal env) (record_of_body b) (dash_server d) of
                  None \<Rightarrow> (answer Aborted, d)
                | Some (Inl e) \<Rightarrow> (answer (HttpFailure 400 (de_text env (Some e))), d)
                | Some (Inr (s, doc)) \<Rightarrow>
                    (if saved env doc then json_ok else answer (HttpFailure 400 (de_text env None)), put_server s d))))"

subsection \<open>Updates and settings\<close>

definition json_update :: "bool \<Rightarrow> string \<Rightarrow> string \<Rightarrow> response" where
  "json_update available version url =
     answer (Json (JObj [(''available'', JBool available), (''version'', JString version), (''url'', JString url)]))"

definition api_update :: "dash_env \<Rightarrow> http_request \<Rightarrow> 's dash \<Rightarrow> response \<times> 's dash" where
  "api_update env rq d = guarded env rq d
     (if \<not> up_CheckEnabled (cfg_Updater (sv_cfg (dash_server d))) then (json_update False '''' '''', d)
      else case Check (de_now env) (de_later env) (de_release env) (de_version env) (da_update d) of
             (None, uc, _) \<Rightarrow> (json_update False '''' '''', d\<lparr>da_update := uc\<rparr>)
           | (Some r, uc, _) \<Rightarrow>
               (json_update (ur_Available r) (ur_Version r) (ur_URL r), d\<lparr>da_update := uc\<rparr>))"

definition api_settings :: "dash_env \<Rightarrow> http_request \<Rightarrow> 's dash \<Rightarrow> response \<times> 's dash" where
  "api_settings env rq d = guarded env rq d (post_only rq d
     (case rq_body rq of
        None \<Rightarrow> (bad_request, d)
      | Some b \<Rightarrow>
          (case UpdateSettings (de_marshal env) (bd_edns0 b) (bd_tcp_fallback b) (bd_prefetch b)
                  (bd_update_check b) (dash_server d) of
             (s, doc) \<Rightarrow> (if saved env doc then json_ok else save_failed, put_server s d))))"

definition api_settings_get :: "dash_env \<Rightarrow> http_request \<Rightarrow> 's dash \<Rightarrow> response \<times> 's dash" where
  "api_settings_get env rq d = guarded env rq d
     (let ss = GetSettings (dash_server d)
      in (answer (Json (JObj
           [(''edns0'', JBool (se_EDNS0 ss)), (''tcp_fallback'', JBool (se_TCPFallback ss)),
            (''prefetch'', JBool (se_Prefetch ss)), (''update_check'', JBool (se_UpdateCheck ss)),
            (''listen'', JString (se_Listen ss)), (''log_level'', JString (se_LogLevel ss)),
            (''timeout'', JInt (se_Timeout ss)), (''max_depth'', JInt (se_MaxDepth ss)),
            (''negative_ttl'', JInt (se_NegativeTTL ss))])), d))"

subsection \<open>The routes\<close>

text \<open>Every path that no other handler has is the home page's, as the pattern \<open>/\<close> matches all.\<close>

definition routes :: "(string \<times> (dash_env \<Rightarrow> http_request \<Rightarrow> 's dash \<Rightarrow> response \<times> 's dash)) list" where
  "routes =
     [(''/login'', login_page), (''/api/login/challenge'', login_challenge), (''/api/login'', api_login),
      (''/api/logout'', api_logout), (''/api/stats'', api_stats), (''/api/stats/history'', api_history),
      (''/metrics'', metrics), (''/api/cache/flush'', api_cache_flush), (''/api/filter/add'', api_filter_add),
      (''/api/filter/remove'', api_filter_remove), (''/api/filter/status'', api_filter_status),
      (''/api/filter/mode'', api_filter_mode), (''/api/querylog'', api_querylog), (''/api/records'', api_records),
      (''/api/records/remove'', api_records_remove), (''/api/records/add'', api_records_add),
      (''/api/update'', api_update), (''/api/settings'', api_settings), (''/api/settings/get'', api_settings_get)]"

definition dashboard :: "dash_env \<Rightarrow> http_request \<Rightarrow> 's dash \<Rightarrow> response \<times> 's dash" where
  "dashboard env rq d =
     (case map_of routes (rq_path rq) of Some h \<Rightarrow> h env rq d | None \<Rightarrow> home_page env rq d)"

end
