(* ===== verification/DashboardProps.thy ===== *)
theory DashboardProps
  imports Dashboard
begin

text \<open>
  What the HTTP interface guarantees: without the session cookie or the right answer to a challenge
  nobody from outside changes or reads the server, except for its metrics. And one thing it does not:
  a record that it accepts can keep the program from starting again.
\<close>

subsection \<open>The session cookie\<close>

lemma verifyToken_iff:
  assumes "CHR ''.'' \<notin> set token"
  shows "verifyToken mac secret token cookie \<longleftrightarrow> cookie = signToken mac secret token"
proof
  assume "verifyToken mac secret token cookie"
  then show "cookie = signToken mac secret token"
    by (auto simp: verifyToken_def split: list.splits)
next
  assume c: "cookie = signToken mac secret token"
  define rest where "rest = hex_encode (mac secret (bytes_of token))"
  have "split_on CHR ''.'' cookie = token # split_on CHR ''.'' rest"
    using assms by (simp add: c signToken_def rest_def split_on_append)
  moreover obtain x xs where "split_on CHR ''.'' rest = x # xs" "join_with CHR ''.'' (x # xs) = rest"
    using join_split [of "CHR ''.''" rest] by (metis neq_Nil_conv split_on_not_Nil)
  ultimately have "split_n CHR ''.'' 2 cookie = [token, rest]"
    by (cases xs) (simp_all add: split_n_def Let_def)
  with c show "verifyToken mac secret token cookie" by (simp add: verifyToken_def)
qed

subsection \<open>Who gets in\<close>

definition open_paths :: "string list" where
  "open_paths = [''/login'', ''/api/login/challenge'', ''/api/login'', ''/api/logout'', ''/metrics'']"

lemmas guarded_handlers =
  home_page_def api_stats_def api_history_def api_cache_flush_def api_filter_add_def api_filter_remove_def
  api_filter_status_def api_filter_mode_def api_querylog_def api_records_def api_records_remove_def
  api_records_add_def api_update_def api_settings_def api_settings_get_def

lemma closed_route:
  fixes d :: "'s dash"
  assumes "\<not> requireAuth env (sv_cfg (dash_server d)) rq" "rq_path rq \<notin> set open_paths"
  shows "dashboard env rq d = (answer (Redirect ''/login''), d)"
proof (cases "map_of (routes :: (string \<times> (dash_env \<Rightarrow> http_request \<Rightarrow> 's dash \<Rightarrow> response \<times> 's dash)) list) (rq_path rq)")
  case None
  with assms(1) show ?thesis by (simp add: dashboard_def home_page_def guarded_def)
next
  case (Some h)
  then have "(rq_path rq, h) \<in> set routes" by (rule map_of_SomeD)
  with assms have "h env rq d = (answer (Redirect ''/login''), d)"
    by (auto simp: routes_def open_paths_def guarded_handlers guarded_def)
  with Some show ?thesis by (simp add: dashboard_def)
qed

text \<open>What the open handlers do to the server: nothing.\<close>

lemma open_handlers:
  "rq_path rq = ''/login'' \<Longrightarrow> dashboard env rq d = login_page env rq d"
  "rq_path rq = ''/api/login/challenge'' \<Longrightarrow> dashboard env rq d = login_challenge env rq d"
  "rq_path rq = ''/api/login'' \<Longrightarrow> dashboard env rq d = api_login env rq d"
  "rq_path rq = ''/api/logout'' \<Longrightarrow> dashboard env rq d = api_logout env rq d"
  "rq_path rq = ''/metrics'' \<Longrightarrow> dashboard env rq d = metrics env rq d"
  by (simp_all add: dashboard_def routes_def)

lemma open_cases:
  assumes "rq_path rq \<in> set open_paths"
  obtains "dashboard env rq d = login_page env rq d" | "dashboard env rq d = login_challenge env rq d"
    | "rq_path rq = ''/api/login''" "dashboard env rq d = api_login env rq d"
    | "dashboard env rq d = api_logout env rq d" | "dashboard env rq d = metrics env rq d"
proof -
  from assms consider "rq_path rq = ''/login''" | "rq_path rq = ''/api/login/challenge''"
    | "rq_path rq = ''/api/login''" | "rq_path rq = ''/api/logout''" | "rq_path rq = ''/metrics''"
    unfolding open_paths_def list.set by blast
  then show thesis using that open_handlers [of rq env d] by cases simp_all
qed

lemma open_route:
  assumes "rq_path rq \<in> set open_paths"
  shows "da_world (snd (dashboard env rq d)) = da_world d \<and> da_update (snd (dashboard env rq d)) = da_update d"
  by (rule open_cases [OF assms, of env d])
    (simp_all add: login_page_def login_challenge_def api_login_def api_logout_def metrics_def Let_def
      split: option.split prod.split)

text \<open>A correct answer to a challenge that is still valid.\<close>

definition good_login :: "dash_env \<Rightarrow> http_request \<Rightarrow> 's dash \<Rightarrow> bool" where
  "good_login env rq d \<longleftrightarrow>
     rq_path rq = ''/api/login'' \<and>
     (case rq_body rq of
        None \<Rightarrow> False
      | Some b \<Rightarrow>
          fst (nonce_Consume (de_now env) (bd_nonce b) (da_nonces d)) \<and>
          bd_username b = au_Username (db_Auth (cfg_Dashboard (sv_cfg (dash_server d)))) \<and>
          bd_response b = login_response env (sv_cfg (dash_server d)) (bd_nonce b))"

lemma open_route_cookie:
  assumes "rq_path rq \<in> set open_paths" "rp_cookie (fst (dashboard env rq d)) = Some (c, age)"
  shows "c = '''' \<or> good_login env rq d"
proof (rule open_cases [OF assms(1), of env d])
qed (use assms(2) in \<open>auto simp: login_page_def login_challenge_def api_login_def api_logout_def metrics_def answer_def
      not_post_def bad_request_def login_failed_def json_ok_def good_login_def Let_def
      split: option.splits prod.splits if_splits\<close>)

text \<open>
  C18: with authentication configured, a request that neither comes from the machine itself nor
  carries the one signed cookie of this process changes nothing of the server, its cache or its
  configuration, whatever its method and body, and all but the login pages and the metrics answer
  it by the redirection to the login; and a cookie is only given for the right answer, under
  the configured password, to a challenge that is still valid.
\<close>

theorem dashboard_auth:
  assumes "AuthEnabled (sv_cfg (dash_server d))" "CHR ''.'' \<notin> set (de_token env)"
    and "\<not> has_prefix (rq_remote rq) ''127.0.0.1:''" "\<not> has_prefix (rq_remote rq) ''[::1]:''"
    and "rq_cookie rq \<noteq> Some (signToken (de_mac env) (de_secret env) (de_token env))"
  shows "da_world (snd (dashboard env rq d)) = da_world d \<and>
    da_update (snd (dashboard env rq d)) = da_update d \<and>
    (rq_path rq \<notin> set open_paths \<longrightarrow> dashboard env rq d = (answer (Redirect ''/login''), d)) \<and>
    (\<forall>c age. rp_cookie (fst (dashboard env rq d)) = Some (c, age) \<longrightarrow> c = '''' \<or> good_login env rq d)"
proof -
  have no: "\<not> requireAuth env (sv_cfg (dash_server d)) rq"
    using assms by (auto simp: requireAuth_def isAuthenticated_def verifyToken_iff split: option.splits)
  show ?thesis
  proof (cases "rq_path rq \<in> set open_paths")
    case True
    with open_route [OF True] open_route_cookie [OF True] show ?thesis by blast
  next
    case False
    with closed_route [OF no False] show ?thesis by (simp add: answer_def)
  qed
qed

subsection \<open>A record that stops the next start\<close>

lemma first_error_append:
  "first_error f i (xs @ ys) =
     (case first_error f i xs of Some e \<Rightarrow> Some e | None \<Rightarrow> first_error f (i + length xs) ys)"
  by (induction xs arbitrary: i) (simp_all split: option.split)

lemma validate_split:
  "validate c =
     (case validate (c\<lparr>cfg_Records := []\<rparr>) of
        Some e \<Rightarrow> Some e
      | None \<Rightarrow> first_error check_record 0 (cfg_Records c))"
proof -
  have if_case: "(case if P then Some e else x of Some e \<Rightarrow> Some e | None \<Rightarrow> y) =
      (if P then Some e else case x of Some e \<Rightarrow> Some e | None \<Rightarrow> y)" for P x y and e :: config_error
    by simp
  have case_case: "(case case a of Some e \<Rightarrow> Some e | None \<Rightarrow> x of Some e \<Rightarrow> Some e | None \<Rightarrow> y) =
      (case a of Some e \<Rightarrow> Some e | None \<Rightarrow> case x of Some e \<Rightarrow> Some e | None \<Rightarrow> y)"
    for a x y :: "config_error option"
    by (simp split: option.split)
  have fields: "cfg_Server (c\<lparr>cfg_Records := []\<rparr>) = cfg_Server c"
    "cfg_Resolver (c\<lparr>cfg_Records := []\<rparr>) = cfg_Resolver c"
    "cfg_Filtering (c\<lparr>cfg_Records := []\<rparr>) = cfg_Filtering c"
    "cfg_Dashboard (c\<lparr>cfg_Records := []\<rparr>) = cfg_Dashboard c" "cfg_Records (c\<lparr>cfg_Records := []\<rparr>) = []"
    by simp_all
  show ?thesis
    by (simp only: validate_def Let_def fields if_case case_case first_error.simps option.case)
qed

lemma validate_records:
  assumes "validate c = None"
  shows "validate (c\<lparr>cfg_Records := rcs\<rparr>) = first_error check_record 0 rcs"
proof -
  have "validate (c\<lparr>cfg_Records := []\<rparr>) = None"
    using assms validate_split [of c] by (simp split: option.splits)
  then show ?thesis using validate_split [of "c\<lparr>cfg_Records := rcs\<rparr>"] by simp
qed

lemma validate_path: "validate (c\<lparr>cfg_path := p\<rparr>) = validate c"
proof -
  have "cfg_Server (c\<lparr>cfg_path := p\<rparr>) = cfg_Server c" "cfg_Resolver (c\<lparr>cfg_path := p\<rparr>) = cfg_Resolver c"
    "cfg_Filtering (c\<lparr>cfg_path := p\<rparr>) = cfg_Filtering c" "cfg_Dashboard (c\<lparr>cfg_path := p\<rparr>) = cfg_Dashboard c"
    "cfg_Records (c\<lparr>cfg_path := p\<rparr>) = cfg_Records c"
    by simp_all
  then show ?thesis by (simp only: validate_def Let_def)
qed

text \<open>
  C39: \<open>AddRecord\<close> checks the value of a record and not its name. A record whose name has a star that
  is not the first label is accepted and saved, and from then on the program does not start:
  loading the saved configuration fails in \<open>validate\<close>. (\<open>unmarshal\<close> reads back what \<open>marshal\<close> wrote, which
  is all but the path of the file.)
\<close>

theorem added_record_blocks_start:
  assumes "validate (sv_cfg s) = None" "AddRecord marshal r s = Some (Inr (s', Some (path, text)))"
    and "rc_Name r \<noteq> []" "rc_Value r \<noteq> []" "CHR ''*'' \<in> set (rc_Name r)" "\<not> has_prefix (rc_Name r) ''*.''"
    and "unmarshal (marshal (sv_cfg s')) defaults = Some ((sv_cfg s')\<lparr>cfg_path := ''''\<rparr>)"
  shows "LoadConfig unmarshal (\<lambda>_. FileData text) path = Inl (InvalidConfig (WildcardNotLeftmost (rc_Name r)))"
proof -
  have s': "sv_cfg s' = (sv_cfg s)\<lparr>cfg_Records := cfg_Records (sv_cfg s) @ [r]\<rparr>" "text = marshal (sv_cfg s')"
    using assms(2) by (auto simp: AddRecord_def set_records_def Save_def split: sum.splits record_error.splits if_splits)
  have "first_error check_record 0 (cfg_Records (sv_cfg s)) = None"
    using validate_records [OF assms(1), of "cfg_Records (sv_cfg s)"] assms(1) by simp
  then have "validate (sv_cfg s') = Some (WildcardNotLeftmost (rc_Name r))"
    unfolding s'(1) validate_records [OF assms(1)]
    using assms(3-6) by (simp add: first_error_append check_record_def)
  then show ?thesis using assms(7) by (simp add: LoadConfig_def s'(2) validate_path)
qed

subsection \<open>The hit rate\<close>

lemma float_of_mono: "a \<le> b \<Longrightarrow> float_of a \<le> float_of b"
  unfolding float_of_def
  by (intro round64_mono iffD2 [OF of_int_le_iff]) (simp only: word_le_def)

lemma float_of_nonneg: "0 \<le> float_of a"
  unfolding float_of_def
  by (intro round64_nonneg iffD2 [OF of_int_0_le_iff]) simp

lemma hit_rate_bounds:
  assumes "ss_CacheHits st \<le> ss_TotalQueries st"
  shows "0 \<le> hit_rate st" "hit_rate st \<le> 100"
proof -
  have h: "0 \<le> float_of (ss_CacheHits st)" "float_of (ss_CacheHits st) \<le> float_of (ss_TotalQueries st)"
    using assms by (simp_all add: float_of_mono float_of_nonneg)
  then have q: "0 \<le> float_of (ss_CacheHits st) / float_of (ss_TotalQueries st)"
    "float_of (ss_CacheHits st) / float_of (ss_TotalQueries st) \<le> 1"
    by (simp_all add: divide_le_eq)
  have "round64 (1 :: rat) = 1" "round64 (100 :: rat) = 100"
    using round64_of_int [of 1] round64_of_int [of 100] by simp_all
  with round64_mono [OF q(2)] round64_nonneg [OF q(1)] show "0 \<le> hit_rate st" "hit_rate st \<le> 100"
    using round64_mono [of "round64 (float_of (ss_CacheHits st) / float_of (ss_TotalQueries st)) * 100" 100]
      round64_nonneg [of "round64 (float_of (ss_CacheHits st) / float_of (ss_TotalQueries st)) * 100"]
    by (simp_all add: hit_rate_def)
qed

subsection \<open>Examples\<close>

definition dx_cfg :: Config where
  "dx_cfg = defaults\<lparr>cfg_path := ''c.yml'', cfg_Dashboard := (cfg_Dashboard defaults)\<lparr>db_Auth :=
     \<lparr>au_Username = ''u'', au_Password = ''p''\<rparr>\<rparr>\<rparr>"

definition dx_server :: Server where
  "dx_server =
     \<lparr>sv_cfg = dx_cfg, sv_filter = \<lparr>f_state = \<lparr>fs_domains = [], fs_mode = ''off''\<rparr>, f_inline = []\<rparr>,
      sv_records = [], sv_qlog = newQueryLog (\<lambda>_. False) 2 '''', sv_limiter = None,
      sv_acl = \<lparr>ca_rules = [], ca_defaultAllow = True\<rparr>, sv_history = empty_history,
      sv_validator = False, sv_sem = None, sv_total = 0, sv_hits = 0, sv_blocked = 0, sv_latency = 0,
      sv_start = 1\<rparr>"

definition dx_dash :: "unit dash" where
  "dx_dash = \<lparr>da_nonces = [], da_update = \<lparr>uc_cached = None, uc_cachedAt = 0\<rparr>,
     da_world = \<lparr>w_cache = NewCache, w_pools = new_pools, w_val = \<lparr>v_anchors = [], v_keyCache = []\<rparr>,
       w_rest = dx_server\<rparr>\<rparr>"

definition dx_env :: dash_env where
  "dx_env = \<lparr>de_mac = (\<lambda>k m. k @ m), de_secret = [1], de_token = ''ab'', de_random = [2], de_now = 5,
     de_later = 6, de_clock = (\<lambda>_. 5), de_marshal = (\<lambda>_. ''''), de_write = (\<lambda>_ _. True),
     de_release = None, de_version = ''1.0'', de_text = (\<lambda>_. '''')\<rparr>"

definition dx_body :: body where
  "dx_body = \<lparr>bd_username = '''', bd_response = '''', bd_nonce = '''', bd_domain = ''x.org'', bd_mode = '''',
     bd_name = '''', bd_type = '''', bd_value = '''', bd_ttl = 0, bd_edns0 = None, bd_tcp_fallback = None,
     bd_prefetch = None, bd_update_check = None\<rparr>"

definition dx_request :: http_request where
  "dx_request = \<lparr>rq_path = ''/api/filter/add'', rq_method = ''POST'', rq_remote = ''10.0.0.9:999'',
     rq_cookie = Some ''ab.00'', rq_query_mode = '''', rq_body = Some dx_body\<rparr>"

lemma dashboard_auth_witness:
  "dashboard dx_env dx_request dx_dash = (answer (Redirect ''/login''), dx_dash)"
proof -
  have "AuthEnabled (sv_cfg (dash_server dx_dash))"
    by (simp add: dx_dash_def dx_server_def dx_cfg_def AuthEnabled_def)
  moreover have "CHR ''.'' \<notin> set (de_token dx_env)" "\<not> has_prefix (rq_remote dx_request) ''127.0.0.1:''"
    "\<not> has_prefix (rq_remote dx_request) ''[::1]:''" "rq_path dx_request \<notin> set open_paths"
    "rq_cookie dx_request \<noteq> Some (signToken (de_mac dx_env) (de_secret dx_env) (de_token dx_env))"
    by code_simp+
  ultimately show ?thesis using dashboard_auth [of dx_dash dx_env dx_request] by blast
qed

definition dx_record :: RecordConfig where
  "dx_record = \<lparr>rc_Name = ''a*.lan'', rc_Type = ''A'', rc_TTL = 60, rc_Value = ''10.0.0.1''\<rparr>"

text \<open>A codec for the configurations of the example: a document lists the names of the records.\<close>

definition dx_marshal :: "Config \<Rightarrow> string" where
  "dx_marshal c = concat (map (\<lambda>r. rc_Name r @ '';'') (cfg_Records c))"

definition dx_unmarshal :: "string \<Rightarrow> Config \<Rightarrow> Config option" where
  "dx_unmarshal text c = Some (c\<lparr>cfg_Dashboard := cfg_Dashboard dx_cfg,
     cfg_Records := map (\<lambda>n. dx_record\<lparr>rc_Name := n\<rparr>) (butlast (split_on CHR '';'' text))\<rparr>)"

lemma added_record_blocks_start_witness:
  "case AddRecord dx_marshal dx_record dx_server of
     Some (Inr (_, Some (path, text))) \<Rightarrow>
       LoadConfig dx_unmarshal (\<lambda>_. FileData text) path = Inl (InvalidConfig (WildcardNotLeftmost ''a*.lan''))
   | _ \<Rightarrow> False"
proof -
  have cfg: "sv_cfg dx_server = dx_cfg" by (simp add: dx_server_def)
  have path: "cfg_Records dx_cfg = []" "cfg_path dx_cfg = ''c.yml''" by (simp_all add: dx_cfg_def defaults_def)
  have "ValidateRecord dx_record = Inr ()" "NewRecordStore [dx_record] \<noteq> None" by code_simp+
  then obtain s' where s': "AddRecord dx_marshal dx_record dx_server = Some (Inr (s', Some (''c.yml'', dx_marshal (sv_cfg s'))))"
    "sv_cfg s' = dx_cfg\<lparr>cfg_Records := [dx_record]\<rparr>"
    using path by (auto simp: AddRecord_def set_records_def Save_def cfg)
  have "validate (sv_cfg dx_server) = None" unfolding cfg by code_simp
  moreover have "rc_Name dx_record \<noteq> []" "rc_Value dx_record \<noteq> []" "CHR ''*'' \<in> set (rc_Name dx_record)"
    "\<not> has_prefix (rc_Name dx_record) ''*.''" by code_simp+
  moreover have "dx_unmarshal (dx_marshal (sv_cfg s')) defaults = Some ((sv_cfg s')\<lparr>cfg_path := ''''\<rparr>)"
    by (simp add: s'(2) dx_marshal_def dx_unmarshal_def dx_record_def dx_cfg_def defaults_def)
  ultimately have "LoadConfig dx_unmarshal (\<lambda>_. FileData (dx_marshal (sv_cfg s'))) ''c.yml'' =
      Inl (InvalidConfig (WildcardNotLeftmost (rc_Name dx_record)))"
    by (intro added_record_blocks_start [OF _ s'(1)])
  moreover have "rc_Name dx_record = ''a*.lan''" by (simp add: dx_record_def)
  ultimately show ?thesis by (simp add: s'(1))
qed

end
