(* ===== verification/GoFlags.thy ===== *)
theory GoFlags
  imports NetIP
begin

text \<open>
  What the command line uses of Go's package \<open>flag\<close>: \<open>FlagSet.Parse\<close> for string, integer and Boolean
  flags, with \<open>strconv.ParseInt\<close> in base 0 and \<open>strconv.ParseBool\<close>. Parsing stops at the first argument
  that is not a flag and behind \<open>--\<close>; what it stopped before is \<open>fs.Args()\<close>.
\<close>

subsection \<open>Integers in any base\<close>

text \<open>The last character that \<open>underscoreOK\<close> saw: none, a digit or prefix, an underscore, another.\<close>

datatype saw = SawStart | SawDigit | SawUnderscore | SawOther

definition dec_digit :: "char \<Rightarrow> bool" where
  "dec_digit c \<longleftrightarrow> 48 \<le> (of_char c :: nat) \<and> (of_char c :: nat) \<le> 57"

definition hex_letter :: "char \<Rightarrow> bool" where
  "hex_letter c \<longleftrightarrow> 97 \<le> (of_char (lower_char c) :: nat) \<and> (of_char (lower_char c) :: nat) \<le> 102"

fun underscores_ok :: "bool \<Rightarrow> saw \<Rightarrow> string \<Rightarrow> bool" where
  "underscores_ok hex saw [] = (saw \<noteq> SawUnderscore)"
| "underscores_ok hex saw (c # s) =
     (if dec_digit c \<or> hex \<and> hex_letter c then underscores_ok hex SawDigit s
      else if c = CHR ''_'' then (if saw \<noteq> SawDigit then False else underscores_ok hex SawUnderscore s)
      else if saw = SawUnderscore then False
      else underscores_ok hex SawOther s)"

definition base_prefix :: "string \<Rightarrow> char option" where
  "base_prefix s =
     (case s of
        CHR ''0'' # c # _ \<Rightarrow> if lower_char c \<in> {CHR ''b'', CHR ''o'', CHR ''x''} then Some (lower_char c) else None
      | _ \<Rightarrow> None)"

definition underscoreOK :: "string \<Rightarrow> bool" where
  "underscoreOK s =
     (case base_prefix s of
        Some p \<Rightarrow> underscores_ok (p = CHR ''x'') SawDigit (drop 2 s)
      | None \<Rightarrow> underscores_ok False SawStart s)"

definition base_digit :: "char \<Rightarrow> int option" where
  "base_digit c =
     (if dec_digit c then Some (of_char c - 48)
      else if 97 \<le> (of_char (lower_char c) :: nat) \<and> (of_char (lower_char c) :: nat) \<le> 122
           then Some (of_char (lower_char c) - 87)
      else None)"

text \<open>
  The digit loop of \<open>ParseUint\<close>. It stops at the first number that exceeds 64 bits, so what follows
  is not looked at; both errors are errors of the flag.
\<close>

fun base_digits :: "int \<Rightarrow> int \<Rightarrow> string \<Rightarrow> int option" where
  "base_digits base n [] = Some n"
| "base_digits base n (c # s) =
     (if c = CHR ''_'' then base_digits base n s
      else case base_digit c of
             None \<Rightarrow> None
           | Some d \<Rightarrow>
               if base \<le> d \<or> 2 ^ 64 \<le> n * base + d then None else base_digits base (n * base + d) s)"

definition parse_uint0 :: "string \<Rightarrow> int option" where
  "parse_uint0 s =
     (let (base, ds) =
        (if s \<noteq> [] \<and> hd s = CHR ''0''
         then (if 3 \<le> length s \<and> base_prefix s = Some CHR ''b'' then (2, drop 2 s)
               else if 3 \<le> length s \<and> base_prefix s = Some CHR ''o'' then (8, drop 2 s)
               else if 3 \<le> length s \<and> base_prefix s = Some CHR ''x'' then (16, drop 2 s)
               else (8, tl s))
         else (10, s))
      in if s = [] then None
         else if CHR ''_'' \<in> set ds \<and> \<not> underscoreOK s then None
         else base_digits base 0 ds)"

definition parse_int0 :: "string \<Rightarrow> int option" where
  "parse_int0 s =
     (let neg = (s \<noteq> [] \<and> hd s = CHR ''-'');
          ds = (if s \<noteq> [] \<and> (hd s = CHR ''-'' \<or> hd s = CHR ''+'') then tl s else s)
      in case parse_uint0 ds of
           None \<Rightarrow> None
         | Some n \<Rightarrow>
             if \<not> neg \<and> 2 ^ 63 \<le> n then None
             else if neg \<and> 2 ^ 63 < n then None
             else Some (if neg then - n else n))"

definition parse_bool :: "string \<Rightarrow> bool option" where
  "parse_bool s =
     (if s \<in> {''1'', ''t'', ''T'', ''true'', ''TRUE'', ''True''} then Some True
      else if s \<in> {''0'', ''f'', ''F'', ''false'', ''FALSE'', ''False''} then Some False
      else None)"

subsection \<open>Flag sets\<close>

text \<open>The defined flags with their current values, at first the defaults.\<close>

datatype flag_value = StringFlag string | IntFlag int | BoolFlag bool

type_synonym flag_set = "(string \<times> flag_value) list"

datatype flag_error =
  HelpRequested
| BadSyntax string
| NotDefined string
| BadBoolean string string
| NeedsArgument string
| InvalidValue string string

text \<open>With \<open>ExitOnError\<close> a request for help ends the program with code 0, an error with code 2.\<close>

definition flag_exit :: "flag_error \<Rightarrow> nat" where
  "flag_exit e = (if e = HelpRequested then 0 else 2)"

definition set_flag :: "flag_value \<Rightarrow> string \<Rightarrow> flag_value option" where
  "set_flag old v =
     (case old of
        StringFlag _ \<Rightarrow> Some (StringFlag v)
      | IntFlag _ \<Rightarrow> map_option IntFlag (parse_int0 v)
      | BoolFlag _ \<Rightarrow> map_option BoolFlag (parse_bool v))"

text \<open>The name and, behind the first \<open>=\<close> that is not its first character, the value.\<close>

definition flag_parts :: "string \<Rightarrow> string \<times> string option" where
  "flag_parts name =
     (case index_of CHR ''='' (tl name) of
        None \<Rightarrow> (name, None)
      | Some i \<Rightarrow> (take (i + 1) name, Some (drop (i + 2) name)))"

text \<open>One argument \<open>s\<close> that begins a flag, with the arguments behind it.\<close>

definition set_named :: "flag_set \<Rightarrow> string \<Rightarrow> string option \<Rightarrow> string list \<Rightarrow> flag_error + flag_set \<times> string list" where
  "set_named fs name value args =
     (case map_of fs name of
        None \<Rightarrow> Inl (if name = ''help'' \<or> name = ''h'' then HelpRequested else NotDefined name)
      | Some (BoolFlag b) \<Rightarrow>
          (let v = (case value of None \<Rightarrow> ''true'' | Some v \<Rightarrow> v)
           in case set_flag (BoolFlag b) v of
                None \<Rightarrow> Inl (BadBoolean v name)
              | Some fv \<Rightarrow> Inr (AList.update name fv fs, args))
      | Some old \<Rightarrow>
          (case (value, args) of
             (None, []) \<Rightarrow> Inl (NeedsArgument name)
           | (None, v # rest) \<Rightarrow>
               (case set_flag old v of
                  None \<Rightarrow> Inl (InvalidValue v name)
                | Some fv \<Rightarrow> Inr (AList.update name fv fs, rest))
           | (Some v, _) \<Rightarrow>
               (case set_flag old v of
                  None \<Rightarrow> Inl (InvalidValue v name)
                | Some fv \<Rightarrow> Inr (AList.update name fv fs, args))))"

datatype flag_step = Stop "string list" | Failed flag_error | Next flag_set "string list"

definition parse_one :: "flag_set \<Rightarrow> string list \<Rightarrow> flag_step" where
  "parse_one fs args =
     (case args of
        [] \<Rightarrow> Stop []
      | s # rest \<Rightarrow>
          if length s < 2 \<or> hd s \<noteq> CHR ''-'' then Stop args
          else if s = ''--'' then Stop rest
          else
            (let name = (if s ! 1 = CHR ''-'' then drop 2 s else drop 1 s)
             in if hd name = CHR ''-'' \<or> hd name = CHR ''='' then Failed (BadSyntax s)
                else case flag_parts name of
                       (name, value) \<Rightarrow>
                         (case set_named fs name value rest of
                            Inl e \<Rightarrow> Failed e
                          | Inr (fs, rest) \<Rightarrow> Next fs rest)))"

lemma set_named_shorter: "set_named fs name value args = Inr (fs', rest) \<Longrightarrow> length rest \<le> length args"
  by (auto simp: set_named_def Let_def split: option.splits flag_value.splits list.splits prod.splits)

lemma parse_one_shorter: "parse_one fs args = Next fs' rest \<Longrightarrow> length rest < length args"
  by (auto simp: parse_one_def Let_def split: list.splits if_splits sum.splits prod.splits dest!: set_named_shorter)

text \<open>\<open>fs.Parse(args)\<close>: the flags, and what \<open>fs.Args()\<close> returns.\<close>

function Parse :: "flag_set \<Rightarrow> string list \<Rightarrow> flag_error + flag_set \<times> string list" where
  "Parse fs args =
     (case parse_one fs args of
        Stop rest \<Rightarrow> Inr (fs, rest)
      | Failed e \<Rightarrow> Inl e
      | Next fs' rest \<Rightarrow> Parse fs' rest)"
  by auto
termination
  by (relation "measure (length \<circ> snd)") (auto dest: parse_one_shorter)


declare Parse.simps [simp del]

definition string_flag :: "flag_set \<Rightarrow> string \<Rightarrow> string" where
  "string_flag fs name = (case map_of fs name of Some (StringFlag v) \<Rightarrow> v | _ \<Rightarrow> [])"

definition int_flag :: "flag_set \<Rightarrow> string \<Rightarrow> int" where
  "int_flag fs name = (case map_of fs name of Some (IntFlag i) \<Rightarrow> i | _ \<Rightarrow> 0)"

definition bool_flag :: "flag_set \<Rightarrow> string \<Rightarrow> bool" where
  "bool_flag fs name = (case map_of fs name of Some (BoolFlag b) \<Rightarrow> b | _ \<Rightarrow> False)"

subsection \<open>What parsing keeps\<close>

text \<open>Flags are never added or removed, and keep their kind.\<close>

fun same_kind :: "flag_value \<Rightarrow> flag_value \<Rightarrow> bool" where
  "same_kind (StringFlag _) (StringFlag _) = True"
| "same_kind (IntFlag _) (IntFlag _) = True"
| "same_kind (BoolFlag _) (BoolFlag _) = True"
| "same_kind _ _ = False"

lemma same_kind_refl [simp]: "same_kind v v"
  by (cases v) simp_all

lemma same_kind_trans: "same_kind a b \<Longrightarrow> same_kind b c \<Longrightarrow> same_kind a c"
  by (cases a; cases b; cases c) simp_all

lemma set_flag_kind: "set_flag old v = Some new \<Longrightarrow> same_kind old new"
  by (cases old) (auto simp: set_flag_def)

text \<open>One flag is set at a time, to a value of its kind, and arguments are taken from the front.\<close>

lemma set_named_effect:
  assumes "set_named fs name value args = Inr (fs', rest)"
  shows "\<exists>old new. map_of fs name = Some old \<and> same_kind old new \<and> fs' = AList.update name new fs \<and>
    suffix rest args"
  using assms
  by (auto simp: set_named_def Let_def suffix_def split: option.splits flag_value.splits list.splits prod.splits
      dest!: set_flag_kind)

lemma parse_one_Next:
  assumes "parse_one fs args = Next fs' rest"
  shows "\<exists>name old new. map_of fs name = Some old \<and> same_kind old new \<and> fs' = AList.update name new fs \<and>
    suffix rest args"
proof -
  from assms obtain s args' name v where "args = s # args'" "set_named fs name v args' = Inr (fs', rest)"
    by (auto simp: parse_one_def Let_def split: list.splits if_splits sum.splits prod.splits)
  with set_named_effect [OF this(2)] show ?thesis by (metis suffix_ConsI)
qed

definition kind_of :: "flag_set \<Rightarrow> string \<Rightarrow> flag_value option \<Rightarrow> bool" where
  "kind_of fs name v =
     (case map_of fs name of
        None \<Rightarrow> v = None
      | Some old \<Rightarrow> (case v of None \<Rightarrow> False | Some new \<Rightarrow> same_kind old new))"

lemma kind_of_update:
  assumes "map_of fs name = Some old" "same_kind old new" "kind_of (AList.update name new fs) n v"
  shows "kind_of fs n v"
proof (cases "n = name")
  case True
  with assms show ?thesis by (cases v) (auto simp: kind_of_def alist dest: same_kind_trans)
next
  case False
  with assms(3) show ?thesis by (simp add: kind_of_def alist)
qed

lemma Parse_keeps:
  "Parse fs args = Inr (fs', rest) \<Longrightarrow> suffix rest args \<and> (\<forall>n. kind_of fs n (map_of fs' n))"
proof (induction fs args rule: Parse.induct)
  case (1 fs args)
  show ?case
  proof (cases "parse_one fs args")
    case (Stop xs)
    with 1(2) have "fs' = fs" "rest = xs" by (simp_all add: Parse.simps)
    moreover have "suffix xs args"
      using Stop by (auto simp: parse_one_def Let_def suffix_def split: list.splits if_splits sum.splits prod.splits)
    ultimately show ?thesis by (simp add: kind_of_def split: option.split)
  next
    case (Failed e)
    with 1(2) show ?thesis by (simp add: Parse.simps)
  next
    case (Next fs1 xs)
    with 1(2) have "Parse fs1 xs = Inr (fs', rest)" by (simp add: Parse.simps [of fs])
    with 1(1) [OF Next] have ih: "suffix rest xs" "\<forall>n. kind_of fs1 n (map_of fs' n)" by simp_all
    from parse_one_Next [OF Next] show ?thesis
      using ih kind_of_update by (meson suffix_order.trans)
  qed
qed

text \<open>Behind the flags comes an argument that is not one, unless \<open>--\<close> ended them.\<close>

definition no_flag :: "string \<Rightarrow> bool" where
  "no_flag s \<longleftrightarrow> length s < 2 \<or> hd s \<noteq> CHR ''-''"

lemma Parse_stops_at: "args = [] \<or> no_flag (hd args) \<Longrightarrow> Parse fs args = Inr (fs, args)"
  by (cases args) (auto simp: Parse.simps [of fs] parse_one_def no_flag_def)

lemma Parse_dashes: "Parse fs (''--'' # args) = Inr (fs, args)"
  by (simp add: Parse.simps [of fs] parse_one_def)

end
