(* ===== verification/GoFormat.thy ===== *)
theory GoFormat
  imports Float64 NetIP
begin

text \<open>
  What the program's printing uses of package \<open>fmt\<close>: numbers with a fixed number of decimals,
  zero-padded numbers, and padding to a width, which \<open>fmt\<close> counts in runes.
\<close>

subsection \<open>Runes\<close>

definition byte_in :: "nat \<Rightarrow> nat \<Rightarrow> char \<Rightarrow> bool" where
  "byte_in lo hi c \<longleftrightarrow> lo \<le> (of_char c :: nat) \<and> (of_char c :: nat) \<le> hi"

text \<open>The number of bytes behind the first that belong to the first rune; 0 also for an invalid one.\<close>

definition rune_tail :: "char \<Rightarrow> string \<Rightarrow> nat" where
  "rune_tail c s =
     (let two = (if byte_in 224 224 c then byte_in 160 191
                 else if byte_in 237 237 c then byte_in 128 159
                 else if byte_in 240 240 c then byte_in 144 191
                 else if byte_in 244 244 c then byte_in 128 143
                 else byte_in 128 191);
          more = (if byte_in 194 223 c then 1 else if byte_in 224 239 c then 2
                  else if byte_in 240 244 c then 3 else 0)
      in if more \<le> length s \<and> 0 < more \<and> two (hd s) \<and> list_all (byte_in 128 191) (take (more - 1) (tl s))
         then more else 0)"

text \<open>\<open>utf8.RuneCountInString\<close>.\<close>

function rune_count :: "string \<Rightarrow> nat" where
  "rune_count [] = 0"
| "rune_count (c # s) = Suc (rune_count (drop (rune_tail c s) s))"
  by pat_completeness auto
termination
  by (relation "measure length") auto

text \<open>The UTF-8 encoding of a code point below \<open>2 ^ 16\<close>.\<close>

definition uni :: "nat \<Rightarrow> string" where
  "uni n =
     map char_of
       (if n < 128 then [n]
        else if n < 2048 then [192 + n div 64, 128 + n mod 64]
        else [224 + n div 4096, 128 + n div 64 mod 64, 128 + n mod 64])"

subsection \<open>Padding\<close>

definition spaces :: "nat \<Rightarrow> string" where
  "spaces n = replicate n CHR '' ''"

text \<open>\<open>%*s\<close> and \<open>%-*s\<close>.\<close>

definition pad_left :: "nat \<Rightarrow> string \<Rightarrow> string" where
  "pad_left w s = spaces (w - rune_count s) @ s"

definition pad_right :: "nat \<Rightarrow> string \<Rightarrow> string" where
  "pad_right w s = s @ spaces (w - rune_count s)"

subsection \<open>Numbers\<close>

text \<open>\<open>%d\<close> and \<open>%02d\<close>; the sign counts as a digit of the width.\<close>

definition pad_zero2 :: "int \<Rightarrow> string" where
  "pad_zero2 i =
     (if i < 0 then ''-'' @ dec_string (nat (- i))
      else (if i < 10 then ''0'' else []) @ dec_string (nat i))"

text \<open>\<open>%.1f\<close> and \<open>%.0f\<close> round the exact value of the float to nearest, ties to even.\<close>

definition fixed1 :: "rat \<Rightarrow> string" where
  "fixed1 x =
     (let n = nat (round_even (\<bar>x\<bar> * 10))
      in (if x < 0 then ''-'' else []) @ dec_string (n div 10) @ ''.'' @ dec_string (n mod 10))"

definition fixed0 :: "rat \<Rightarrow> string" where
  "fixed0 x = (if x < 0 then ''-'' else []) @ dec_string (nat (round_even \<bar>x\<bar>))"

subsection \<open>Widths\<close>

lemma rune_tail_ascii [simp]: "ascii_char c \<Longrightarrow> rune_tail c s = 0"
  by (simp add: rune_tail_def byte_in_def ascii_char_def Let_def)

lemma rune_count_ascii: "is_ascii s \<Longrightarrow> rune_count s = length s"
  by (induction s) (simp_all add: is_ascii_def)

lemma rune_count_ascii_append: "is_ascii s \<Longrightarrow> rune_count (s @ t) = length s + rune_count t"
  by (induction s) (simp_all add: is_ascii_def)

lemma is_ascii_spaces [simp]: "is_ascii (spaces n)"
  by (simp add: spaces_def is_ascii_def ascii_char_def list_all_iff)

lemma length_spaces [simp]: "length (spaces n) = n"
  by (simp add: spaces_def)

lemma rune_count_pad_left: "rune_count (pad_left w s) = max w (rune_count s)"
  by (simp add: pad_left_def rune_count_ascii_append)

lemma rune_tail_le: "rune_tail c s \<le> length s"
  by (simp add: rune_tail_def Let_def)

lemma list_all_take_append:
  assumes "list_all (\<lambda>x. \<not> P x) t" "n \<le> length s + length t"
  shows "list_all P (take n (s @ t)) \<longleftrightarrow> n \<le> length s \<and> list_all P (take n s)"
proof (cases "n \<le> length s")
  case False
  then obtain m where "n - length s = Suc m" by (metis diff_is_0_eq not0_implies_Suc)
  moreover obtain x t' where "t = x # t'" using False assms(2) by (cases t) auto
  ultimately show ?thesis using False assms(1) by simp
qed simp

lemma rune_tail_append_ascii:
  assumes "is_ascii t"
  shows "rune_tail c (s @ t) = rune_tail c s"
proof -
  have no: "list_all (\<lambda>x. \<not> byte_in lo hi x) t" if "128 \<le> lo" for lo hi
    using assms that by (auto simp: is_ascii_def byte_in_def ascii_char_def list_all_iff)
  show ?thesis
  proof (cases s)
    case Nil
    with no [of 160 191] no [of 128 159] no [of 144 191] no [of 128 143] no [of 128 191] show ?thesis
      by (cases t) (simp_all add: rune_tail_def Let_def)
  next
    case (Cons x xs)
    with list_all_take_append [OF no, of 128 _ xs 191] show ?thesis
      by (auto simp: rune_tail_def Let_def)
  qed
qed

lemma rune_count_append_ascii: "is_ascii t \<Longrightarrow> rune_count (s @ t) = rune_count s + length t"
proof (induction s rule: rune_count.induct)
  case 1
  then show ?case by (simp add: rune_count_ascii)
next
  case (2 c s)
  then show ?case by (simp add: rune_tail_append_ascii rune_tail_le)
qed

lemma rune_count_pad_right: "rune_count (pad_right w s) = max w (rune_count s)"
  by (simp add: pad_right_def rune_count_append_ascii)

end
