(* ===== verification/CommandLine.thy ===== *)
theory CommandLine
  imports Dashboard GoFlags GoFormat
begin

text \<open>
  The commands of \<open>cmd/kmresolv/cmd_cli.go\<close>, which talk to the dashboard of a running server. What the
  dashboard does is an argument, a function on a state of its own; the theory \<open>CommandProps\<close> puts the
  modelled dashboard there. A command ends the process with what it wrote and an exit code, or
  panics.
\<close>

subsection \<open>The outside\<close>

datatype http_call = HttpGet string | HttpPost string "string option"

text \<open>An error of the client, a body that does not start with a JSON value, or that value.\<close>

datatype api_reply = Unreachable | NotJson string | JsonReply json

type_synonym 'w http = "string \<Rightarrow> http_call \<Rightarrow> 'w \<Rightarrow> api_reply \<times> 'w"

text \<open>
  The configuration file and its decoder, the texts of the flag package and of JSON errors, and
  times: their JSON text, the reading of such a text, and the clock of the zone they carry.
\<close>

record cli_env =
  cl_unmarshal :: "string \<Rightarrow> Config \<Rightarrow> Config option"
  cl_read :: "string \<Rightarrow> file_read"
  cl_flag_text :: "flag_error \<Rightarrow> string"
  cl_json_error :: "api_reply \<Rightarrow> string"
  cl_time_json :: "int \<Rightarrow> string"
  cl_parse_time :: "string \<Rightarrow> int option"
  cl_clock_text :: "int \<Rightarrow> string"

text \<open>Standard output, standard error and the exit code.\<close>

datatype cli_end = Exit string string nat | Panics

definition flag_end :: "cli_env \<Rightarrow> flag_error \<Rightarrow> cli_end" where
  "flag_end env e = Exit [] (cl_flag_text env e) (flag_exit e)"

definition complain :: "string \<Rightarrow> cli_end" where
  "complain msg = Exit [] (msg @ newline) 1"

subsection \<open>Where the dashboard is\<close>

record cliConfig =
  cc_host :: string
  cc_port :: int

definition baseURL :: "cliConfig \<Rightarrow> string" where
  "baseURL c = ''http://'' @ cc_host c @ '':'' @ int_string (cc_port c)"

definition cli_flags :: flag_set where
  "cli_flags = [(''config'', StringFlag ''config.yml''), (''host'', StringFlag ''''), (''port'', IntFlag 0)]"

definition resolveCLIConfig :: "cli_env \<Rightarrow> string list \<Rightarrow> flag_error + cliConfig \<times> string list" where
  "resolveCLIConfig env args =
     (case Parse cli_flags args of
        Inl e \<Rightarrow> Inl e
      | Inr (fs, rest) \<Rightarrow>
          (let cc = \<lparr>cc_host = ''127.0.0.1'', cc_port = 8080\<rparr>;
               cc = (case LoadConfig (cl_unmarshal env) (cl_read env) (string_flag fs ''config'') of
                       Inl _ \<Rightarrow> cc
                     | Inr cfg \<Rightarrow>
                         (let listen = db_Listen (cfg_Dashboard cfg)
                          in \<lparr>cc_host = (if listen = ''0.0.0.0'' then ''127.0.0.1'' else listen),
                              cc_port = db_Port (cfg_Dashboard cfg)\<rparr>));
               cc = (if string_flag fs ''host'' \<noteq> '''' then cc\<lparr>cc_host := string_flag fs ''host''\<rparr> else cc);
               cc = (if int_flag fs ''port'' \<noteq> 0 then cc\<lparr>cc_port := int_flag fs ''port''\<rparr> else cc)
           in Inr (cc, rest)))"

subsection \<open>JSON as the client decodes it\<close>

text \<open>What the encoder makes of a string: each byte that is not UTF-8 is replaced by U+FFFD.\<close>

function valid_utf8 :: "string \<Rightarrow> string" where
  "valid_utf8 [] = []"
| "valid_utf8 (c # s) =
     (if \<not> ascii_char c \<and> rune_tail c s = 0 then uni 0xFFFD
      else c # take (rune_tail c s) s) @ valid_utf8 (drop (rune_tail c s) s)"
  by pat_completeness auto
termination
  by (relation "measure length") auto

text \<open>
  Decoding into a struct: every member of the object is assigned to the field whose name is equal
  up to case, and a member that does not fit its field is an error.
\<close>

fun decode_members :: "(string \<times> (json \<Rightarrow> 'r \<Rightarrow> 'r option)) list \<Rightarrow> (string \<times> json) list \<Rightarrow> 'r \<Rightarrow> 'r option" where
  "decode_members flds [] r = Some r"
| "decode_members flds ((k, v) # kvs) r =
     (case find (\<lambda>(name, _). equal_fold k name) flds of
        None \<Rightarrow> decode_members flds kvs r
      | Some (_, put) \<Rightarrow>
          (case put v r of None \<Rightarrow> None | Some r \<Rightarrow> decode_members flds kvs r))"

definition decode_struct :: "(string \<times> (json \<Rightarrow> 'r \<Rightarrow> 'r option)) list \<Rightarrow> 'r \<Rightarrow> json \<Rightarrow> 'r option" where
  "decode_struct flds zero j = (case j of JObj kvs \<Rightarrow> decode_members flds kvs zero | _ \<Rightarrow> None)"

text \<open>A number is written with an integer literal when it is a whole number below \<open>10 ^ 21\<close>.\<close>

definition json_integer :: "json \<Rightarrow> int option" where
  "json_integer j =
     (case j of
        JInt i \<Rightarrow> Some i
      | JFloat x \<Rightarrow> if x = of_int \<lfloor>x\<rfloor> \<and> \<bar>x\<bar> < 10 ^ 21 then Some \<lfloor>x\<rfloor> else None
      | _ \<Rightarrow> None)"

definition json_int64 :: "json \<Rightarrow> int option" where
  "json_int64 j =
     (case json_integer j of None \<Rightarrow> None | Some i \<Rightarrow> if - (2 ^ 63) \<le> i \<and> i < 2 ^ 63 then Some i else None)"

definition json_uint64 :: "json \<Rightarrow> u64 option" where
  "json_uint64 j =
     (case json_integer j of None \<Rightarrow> None | Some i \<Rightarrow> if 0 \<le> i \<and> i < 2 ^ 64 then Some (of_int i) else None)"

definition json_float64 :: "json \<Rightarrow> rat option" where
  "json_float64 j = (case j of JInt i \<Rightarrow> Some (round64 (of_int i)) | JFloat x \<Rightarrow> Some x | _ \<Rightarrow> None)"

definition json_text :: "cli_env \<Rightarrow> json \<Rightarrow> string option" where
  "json_text env j =
     (case j of JString s \<Rightarrow> Some s | JTime t \<Rightarrow> Some (cl_time_json env t) | _ \<Rightarrow> None)"

definition json_time :: "cli_env \<Rightarrow> json \<Rightarrow> int option" where
  "json_time env j = (case j of JTime t \<Rightarrow> Some t | JString s \<Rightarrow> cl_parse_time env s | _ \<Rightarrow> None)"

subsection \<open>Requests\<close>

datatype 'r api_result = ApiError string | ApiOk 'r

text \<open>The message is UTF-8; its dash is U+2014.\<close>

definition cannot_reach :: "cliConfig \<Rightarrow> string" where
  "cannot_reach cc =
     ''could not reach kmresolv dashboard at '' @ baseURL cc @ '' '' @ uni 0x2014 @
     '' is the server running?''"

definition decoded :: "cli_env \<Rightarrow> cliConfig \<Rightarrow> (json \<Rightarrow> 'r option) \<Rightarrow> api_reply \<Rightarrow> 'r api_result" where
  "decoded env cc decode reply =
     (case reply of
        Unreachable \<Rightarrow> ApiError (cannot_reach cc)
      | NotJson _ \<Rightarrow> ApiError (cl_json_error env reply)
      | JsonReply j \<Rightarrow> (case decode j of None \<Rightarrow> ApiError (cl_json_error env reply) | Some r \<Rightarrow> ApiOk r))"

definition apiGet :: "cli_env \<Rightarrow> 'w http \<Rightarrow> cliConfig \<Rightarrow> string \<Rightarrow> (json \<Rightarrow> 'r option) \<Rightarrow> 'w \<Rightarrow> 'r api_result \<times> 'w" where
  "apiGet env http cc path decode w =
     (case http (baseURL cc) (HttpGet path) w of (reply, w) \<Rightarrow> (decoded env cc decode reply, w))"

text \<open>The body is \<open>null\<close> or an object with the one member \<open>domain\<close>; the answer has to be an object.\<close>

definition any_object :: "json \<Rightarrow> (string \<times> json) list option" where
  "any_object j = (case j of JObj kvs \<Rightarrow> Some kvs | _ \<Rightarrow> None)"

definition apiPost :: "cli_env \<Rightarrow> 'w http \<Rightarrow> cliConfig \<Rightarrow> string \<Rightarrow> string option \<Rightarrow> 'w \<Rightarrow>
    (string \<times> json) list api_result \<times> 'w" where
  "apiPost env http cc path body w =
     (case http (baseURL cc) (HttpPost path (map_option valid_utf8 body)) w of
        (reply, w) \<Rightarrow> (decoded env cc any_object reply, w))"

subsection \<open>status\<close>

record cli_stats =
  ct_total :: u64
  ct_hits :: u64
  ct_blocked :: u64
  ct_hit_rate :: rat
  ct_latency :: rat
  ct_uptime :: int
  ct_size :: int
  ct_negative :: int

definition no_stats :: cli_stats where
  "no_stats = \<lparr>ct_total = 0, ct_hits = 0, ct_blocked = 0, ct_hit_rate = 0, ct_latency = 0, ct_uptime = 0,
     ct_size = 0, ct_negative = 0\<rparr>"

definition stats_fields :: "(string \<times> (json \<Rightarrow> cli_stats \<Rightarrow> cli_stats option)) list" where
  "stats_fields =
     [(''total_queries'', \<lambda>j r. map_option (\<lambda>x. r\<lparr>ct_total := x\<rparr>) (json_uint64 j)),
      (''cache_hits'', \<lambda>j r. map_option (\<lambda>x. r\<lparr>ct_hits := x\<rparr>) (json_uint64 j)),
      (''blocked'', \<lambda>j r. map_option (\<lambda>x. r\<lparr>ct_blocked := x\<rparr>) (json_uint64 j)),
      (''hit_rate'', \<lambda>j r. map_option (\<lambda>x. r\<lparr>ct_hit_rate := x\<rparr>) (json_float64 j)),
      (''avg_latency_ms'', \<lambda>j r. map_option (\<lambda>x. r\<lparr>ct_latency := x\<rparr>) (json_float64 j)),
      (''uptime_seconds'', \<lambda>j r. map_option (\<lambda>x. r\<lparr>ct_uptime := x\<rparr>) (json_int64 j)),
      (''cache_size'', \<lambda>j r. map_option (\<lambda>x. r\<lparr>ct_size := x\<rparr>) (json_int64 j)),
      (''cache_negative'', \<lambda>j r. map_option (\<lambda>x. r\<lparr>ct_negative := x\<rparr>) (json_int64 j))]"

text \<open>
  \<open>d.Hours()\<close>, \<open>d.Minutes()\<close> and \<open>d.Seconds()\<close>: whole units and the rest as a fraction of one, each
  converted to a float; then \<open>int\<close> truncates.
\<close>

definition whole_units :: "int \<Rightarrow> int \<Rightarrow> int" where
  "whole_units unit d =
     (let f = round64 (round64 (of_int (d sdiv unit)) + round64 (round64 (of_int (d smod unit)) / of_int unit))
      in if 0 \<le> f then \<lfloor>f\<rfloor> else \<lceil>f\<rceil>)"

definition uptime_text :: "int \<Rightarrow> string" where
  "uptime_text seconds =
     (let uptime = wrap64 (seconds * second);
          h = whole_units (3600 * second) uptime;
          m = whole_units (60 * second) uptime smod 60;
          s = whole_units second uptime smod 60
      in pad_zero2 h @ '':'' @ pad_zero2 m @ '':'' @ pad_zero2 s)"

definition status_line :: "string \<Rightarrow> string \<Rightarrow> string" where
  "status_line label v = ''  '' @ pad_right 20 label @ '' '' @ v @ newline"

definition status_text :: "cli_stats \<Rightarrow> string" where
  "status_text st =
     newline @ ''  kmresolv status'' @ newline @ newline @
     status_line ''uptime'' (uptime_text (ct_uptime st)) @
     status_line ''total queries'' (dec_string (unat (ct_total st))) @
     status_line ''cache hit rate'' (fixed1 (ct_hit_rate st) @ ''%'') @
     status_line ''cached entries''
       (int_string (ct_size st) @ '' (pos) + '' @ int_string (ct_negative st) @ '' (neg)'') @
     status_line ''blocked'' (dec_string (unat (ct_blocked st))) @
     status_line ''avg latency'' (fixed1 (ct_latency st) @ ''ms'') @
     newline"

definition cmdStatus :: "cli_env \<Rightarrow> 'w http \<Rightarrow> string list \<Rightarrow> 'w \<Rightarrow> cli_end \<times> 'w" where
  "cmdStatus env http args w =
     (case resolveCLIConfig env args of
        Inl e \<Rightarrow> (flag_end env e, w)
      | Inr (cc, _) \<Rightarrow>
          (case apiGet env http cc ''/api/stats'' (decode_struct stats_fields no_stats) w of
             (ApiError msg, w) \<Rightarrow> (complain msg, w)
           | (ApiOk st, w) \<Rightarrow> (Exit (status_text st) [] 0, w)))"

subsection \<open>flush, block and unblock\<close>

definition flush_flags :: flag_set where
  "flush_flags = [(''expired'', BoolFlag False), (''negative'', BoolFlag False)]"

definition flush_mode :: "flag_set \<Rightarrow> string" where
  "flush_mode fs =
     (let mode = ''all'';
          mode = (if bool_flag fs ''expired'' then ''expired'' else mode);
          mode = (if bool_flag fs ''negative'' then ''negative'' else mode)
      in mode)"

definition cmdFlush :: "cli_env \<Rightarrow> 'w http \<Rightarrow> string list \<Rightarrow> 'w \<Rightarrow> cli_end \<times> 'w" where
  "cmdFlush env http args w =
     (case Parse flush_flags args of
        Inl e \<Rightarrow> (flag_end env e, w)
      | Inr (fs, rest) \<Rightarrow>
          (case resolveCLIConfig env rest of
             Inl e \<Rightarrow> (flag_end env e, w)
           | Inr (cc, _) \<Rightarrow>
               (case apiPost env http cc (''/api/cache/flush?mode='' @ flush_mode fs) None w of
                  (ApiError msg, w) \<Rightarrow> (complain msg, w)
                | (ApiOk _, w) \<Rightarrow> (Exit (''cache flushed ('' @ flush_mode fs @ '')'' @ newline) [] 0, w))))"

definition cmdBlock :: "cli_env \<Rightarrow> 'w http \<Rightarrow> string list \<Rightarrow> 'w \<Rightarrow> cli_end \<times> 'w" where
  "cmdBlock env http args w =
     (case resolveCLIConfig env args of
        Inl e \<Rightarrow> (flag_end env e, w)
      | Inr (cc, []) \<Rightarrow> (complain ''usage: kmresolv block <domain>'', w)
      | Inr (cc, domain # _) \<Rightarrow>
          (case apiPost env http cc ''/api/filter/add'' (Some domain) w of
             (ApiError msg, w) \<Rightarrow> (complain msg, w)
           | (ApiOk _, w) \<Rightarrow> (Exit (''blocked: '' @ domain @ newline) [] 0, w)))"

definition cmdUnblock :: "cli_env \<Rightarrow> 'w http \<Rightarrow> string list \<Rightarrow> 'w \<Rightarrow> cli_end \<times> 'w" where
  "cmdUnblock env http args w =
     (case resolveCLIConfig env args of
        Inl e \<Rightarrow> (flag_end env e, w)
      | Inr (cc, []) \<Rightarrow> (complain ''usage: kmresolv unblock <domain>'', w)
      | Inr (cc, domain # _) \<Rightarrow>
          (case apiPost env http cc ''/api/filter/remove'' (Some domain) w of
             (ApiError msg, w) \<Rightarrow> (complain msg, w)
           | (ApiOk _, w) \<Rightarrow> (Exit (''unblocked: '' @ domain @ newline) [] 0, w)))"

subsection \<open>log\<close>

definition entry_fields :: "cli_env \<Rightarrow> (string \<times> (json \<Rightarrow> QueryEntry \<Rightarrow> QueryEntry option)) list" where
  "entry_fields env =
     [(''time'', \<lambda>j r. map_option (\<lambda>x. r\<lparr>qe_Time := x\<rparr>) (json_time env j)),
      (''domain'', \<lambda>j r. map_option (\<lambda>x. r\<lparr>qe_Domain := x\<rparr>) (json_text env j)),
      (''type'', \<lambda>j r. map_option (\<lambda>x. r\<lparr>qe_Type := x\<rparr>) (json_text env j)),
      (''client'', \<lambda>j r. map_option (\<lambda>x. r\<lparr>qe_Client := x\<rparr>) (json_text env j)),
      (''status'', \<lambda>j r. map_option (\<lambda>x. r\<lparr>qe_Status := x\<rparr>) (json_text env j)),
      (''latency_ms'', \<lambda>j r. map_option (\<lambda>x. r\<lparr>qe_Latency := x\<rparr>) (json_int64 j))]"

definition decode_entries :: "cli_env \<Rightarrow> json \<Rightarrow> QueryEntry list option" where
  "decode_entries env j =
     (case j of JList js \<Rightarrow> those (map (decode_struct (entry_fields env) zero_entry) js) | _ \<Rightarrow> None)"

definition escape :: "string \<Rightarrow> string" where
  "escape code = char_of (27 :: nat) # ''['' @ code @ ''m''"

definition status_color :: "string \<Rightarrow> string" where
  "status_color status =
     (case map_of [(''resolved'', escape ''32''), (''cached'', escape ''34''), (''blocked'', escape ''31''),
                   (''error'', escape ''33'')] status of
        None \<Rightarrow> []
      | Some c \<Rightarrow> c)"

definition log_line :: "cli_env \<Rightarrow> QueryEntry \<Rightarrow> string" where
  "log_line env e =
     ''  '' @ cl_clock_text env (qe_Time e) @ ''  '' @ pad_right 40 (qe_Domain e) @ ''  '' @
     pad_right 6 (qe_Type e) @ ''  '' @ status_color (qe_Status e) @ pad_right 9 (qe_Status e) @
     escape ''0'' @ ''  '' @ int_string (qe_Latency e) @ ''ms'' @ newline"

text \<open>
  \<open>entries[start:]\<close> with \<open>start := len(entries) - n\<close>, at least 0; it panics when \<open>start\<close> is behind the end.
\<close>

definition last_entries :: "int \<Rightarrow> 'a list \<Rightarrow> 'a list option" where
  "last_entries n es =
     (let start = wrap64 (int (length es) - n);
          start = (if start < 0 then 0 else start)
      in if int (length es) < start then None else Some (drop (nat start) es))"

text \<open>The loop that exchanges the entries from both ends.\<close>

function swap_ends :: "nat \<Rightarrow> nat \<Rightarrow> 'a list \<Rightarrow> 'a list" where
  "swap_ends i j xs =
     (if i < j then swap_ends (i + 1) (j - 1) (xs[i := xs ! j, j := xs ! i]) else xs)"
  by auto
termination
  by (relation "measure (\<lambda>(i, j, _). j - i)") auto

declare swap_ends.simps [simp del]

definition cmdLog :: "cli_env \<Rightarrow> 'w http \<Rightarrow> string list \<Rightarrow> 'w \<Rightarrow> cli_end \<times> 'w" where
  "cmdLog env http args w =
     (case Parse [(''n'', IntFlag 20)] args of
        Inl e \<Rightarrow> (flag_end env e, w)
      | Inr (fs, rest) \<Rightarrow>
          (case resolveCLIConfig env rest of
             Inl e \<Rightarrow> (flag_end env e, w)
           | Inr (cc, _) \<Rightarrow>
               (case apiGet env http cc ''/api/querylog'' (decode_entries env) w of
                  (ApiError msg, w) \<Rightarrow> (complain msg, w)
                | (ApiOk es, w) \<Rightarrow>
                    (case last_entries (int_flag fs ''n'') es of
                       None \<Rightarrow> (Panics, w)
                     | Some es \<Rightarrow>
                         (Exit (newline @ concat (map (log_line env) (swap_ends 0 (length es - 1) es)) @ newline)
                            [] 0, w)))))"

end
