(* ===== verification/CommandProps.thy ===== *)
theory CommandProps
  imports CommandLine DashboardProps HandleProps
begin

text \<open>
  The commands against the modelled dashboard: \<open>dash_http\<close> is what the HTTP client and the server of
  package net/http put between them. What \<open>block\<close> does to the queries of clients, what \<open>log\<close> prints of
  the query log, and that from another machine no command gets past the login.
\<close>

subsection \<open>The connection\<close>

definition empty_body :: body where
  "empty_body = \<lparr>bd_username = '''', bd_response = '''', bd_nonce = '''', bd_domain = '''', bd_mode = '''',
     bd_name = '''', bd_type = '''', bd_value = '''', bd_ttl = 0, bd_edns0 = None, bd_tcp_fallback = None,
     bd_prefetch = None, bd_update_check = None\<rparr>"

text \<open>The path of a URL, and the value of the one parameter \<open>mode\<close> of its query.\<close>

definition url_path :: "string \<Rightarrow> string" where
  "url_path u = (case index_of CHR ''?'' u of None \<Rightarrow> u | Some i \<Rightarrow> take i u)"

definition url_mode :: "string \<Rightarrow> string" where
  "url_mode u = (case index_of CHR ''?'' u of None \<Rightarrow> [] | Some i \<Rightarrow> trim_prefix (drop (i + 1) u) ''mode='')"

text \<open>The client keeps no cookies. The body \<open>null\<close> decodes to a structure without values.\<close>

definition dash_request :: "string \<Rightarrow> http_call \<Rightarrow> http_request" where
  "dash_request remote call =
     (case call of
        HttpGet u \<Rightarrow>
          \<lparr>rq_path = url_path u, rq_method = ''GET'', rq_remote = remote, rq_cookie = None,
           rq_query_mode = url_mode u, rq_body = None\<rparr>
      | HttpPost u body \<Rightarrow>
          \<lparr>rq_path = url_path u, rq_method = ''POST'', rq_remote = remote, rq_cookie = None,
           rq_query_mode = url_mode u,
           rq_body = Some (case body of None \<Rightarrow> empty_body | Some d \<Rightarrow> empty_body\<lparr>bd_domain := d\<rparr>)\<rparr>)"

text \<open>
  A JSON value after encoding and decoding: in the texts, and in the names of members, bytes that are
  not UTF-8 have been replaced. A time comes back as it was (years have four digits).
\<close>

primrec on_wire :: "json \<Rightarrow> json" where
  "on_wire (JBool b) = JBool b"
| "on_wire (JInt i) = JInt i"
| "on_wire (JFloat x) = JFloat x"
| "on_wire (JTime t) = JTime t"
| "on_wire (JString s) = JString (valid_utf8 s)"
| "on_wire (JList js) = JList (map on_wire js)"
| "on_wire (JObj kvs) = JObj (map (\<lambda>kv. (valid_utf8 (fst kv), snd kv)) (map (map_prod id on_wire) kvs))"

text \<open>The client follows up to ten redirections, with GET.\<close>

fun dash_follow :: "nat \<Rightarrow> dash_env \<Rightarrow> string \<Rightarrow> http_call \<Rightarrow> 's dash \<Rightarrow> api_reply \<times> 's dash" where
  "dash_follow n env remote call d =
     (case dashboard env (dash_request remote call) d of
        (rp, d) \<Rightarrow>
          (case rp_content rp of
             Redirect p \<Rightarrow> (case n of 0 \<Rightarrow> (Unreachable, d) | Suc n \<Rightarrow> dash_follow n env remote (HttpGet p) d)
           | HttpFailure _ text \<Rightarrow> (NotJson text, d)
           | Html text \<Rightarrow> (NotJson text, d)
           | Plain text \<Rightarrow> (NotJson text, d)
           | Json j \<Rightarrow> (JsonReply (on_wire j), d)
           | Aborted \<Rightarrow> (Unreachable, d)))"

declare dash_follow.simps [simp del]

text \<open>
  The base URL is not looked at: the dashboard that answers is taken to be the one that listens there,
  without TLS (with TLS, or at another address, the command only reports that it cannot reach it).
\<close>

definition dash_http :: "dash_env \<Rightarrow> string \<Rightarrow> 's dash http" where
  "dash_http env remote base call d = dash_follow 10 env remote call d"

text \<open>The paths that the commands use.\<close>

definition cli_paths :: "string list" where
  "cli_paths = [''/api/stats'', ''/api/querylog'', ''/api/filter/add'', ''/api/filter/remove'',
     ''/api/cache/flush?mode=all'', ''/api/cache/flush?mode=expired'', ''/api/cache/flush?mode=negative'']"

lemma dash_request_simps [simp]:
  "rq_remote (dash_request remote call) = remote" "rq_cookie (dash_request remote call) = None"
  by (simp_all add: dash_request_def split: http_call.split)

lemma flush_path: "''/api/cache/flush?mode='' @ flush_mode fs \<in> set cli_paths"
  by (simp add: flush_mode_def cli_paths_def Let_def)

subsection \<open>From another machine\<close>

text \<open>Without the session cookie, which the client does not have, all it gets is the login page.\<close>

lemma remote_gets_login:
  assumes "AuthEnabled (sv_cfg (dash_server d))"
    and "\<not> has_prefix remote ''127.0.0.1:''" "\<not> has_prefix remote ''[::1]:''"
    and "u \<in> set cli_paths" "call = HttpGet u \<or> call = HttpPost u body"
  shows "dash_http env remote base call d = (NotJson ''login.html'', d)"
proof -
  have no: "\<not> requireAuth env (sv_cfg (dash_server d)) (dash_request remote c)" for c
    using assms(1-3) by (simp add: requireAuth_def isAuthenticated_def)
  have "url_path u \<notin> set open_paths"
    using assms(4) unfolding cli_paths_def list.set by (elim insertE) (hypsubst, code_simp, fastforce?)+
  then have "rq_path (dash_request remote call) \<notin> set open_paths"
    using assms(5) by (auto simp: dash_request_def)
  from closed_route [OF no this]
  have 1: "dashboard env (dash_request remote call) d = (answer (Redirect ''/login''), d)" .
  have path: "rq_path (dash_request remote (HttpGet ''/login'')) = ''/login''"
    "rq_method (dash_request remote (HttpGet ''/login'')) = ''GET''"
    by (simp_all add: dash_request_def url_path_def)
  have 2: "dashboard env (dash_request remote (HttpGet ''/login'')) d = (answer (Html ''login.html''), d)"
    using assms(1) unfolding open_handlers(1) [OF path(1)] login_page_def isAuthenticated_def
    by (simp add: path(2))
  show ?thesis
    by (simp add: dash_http_def dash_follow.simps [of 10] dash_follow.simps [of 9] 1 2 answer_def)
qed

text \<open>A command that failed, or only explained its flags: it printed nothing as a result.\<close>

fun no_result :: "cli_end \<Rightarrow> bool" where
  "no_result (Exit out err code) = (out = [])"
| "no_result Panics = False"

definition cli_commands :: "cli_env \<Rightarrow> 'w http \<Rightarrow> (string list \<Rightarrow> 'w \<Rightarrow> cli_end \<times> 'w) list" where
  "cli_commands env http =
     [cmdStatus env http, cmdFlush env http, cmdBlock env http, cmdUnblock env http, cmdLog env http]"

lemma no_result_simps [simp]: "no_result (flag_end env e)" "no_result (complain msg)"
  by (simp_all add: flag_end_def complain_def)

lemma remote_api:
  assumes "AuthEnabled (sv_cfg (dash_server d))"
    and "\<not> has_prefix remote ''127.0.0.1:''" "\<not> has_prefix remote ''[::1]:''" "u \<in> set cli_paths"
  shows "apiGet env (dash_http denv remote) cc u decode d = (r, d') \<Longrightarrow> d' = d \<and> (\<exists>msg. r = ApiError msg)"
    "apiPost env (dash_http denv remote) cc u body d = (r', d') \<Longrightarrow> d' = d \<and> (\<exists>msg. r' = ApiError msg)"
  using remote_gets_login [OF assms] by (auto simp: apiGet_def apiPost_def decoded_def)

text \<open>
  C21: when the dashboard has a password, no command works from another machine, as none can log in:
  whatever its arguments, a command changes nothing on the server and prints no result.
\<close>

theorem remote_commands_fail:
  assumes "AuthEnabled (sv_cfg (dash_server d))"
    and "\<not> has_prefix remote ''127.0.0.1:''" "\<not> has_prefix remote ''[::1]:''"
    and "cmd \<in> set (cli_commands env (dash_http denv remote))" "cmd args d = (e, d')"
  shows "d' = d \<and> no_result e"
proof -
  have paths: "''/api/stats'' \<in> set cli_paths" "''/api/querylog'' \<in> set cli_paths"
    "''/api/filter/add'' \<in> set cli_paths" "''/api/filter/remove'' \<in> set cli_paths"
    by (simp_all add: cli_paths_def)
  note api = remote_api [OF assms(1-3)]
  consider "cmd = cmdStatus env (dash_http denv remote)" | "cmd = cmdFlush env (dash_http denv remote)"
    | "cmd = cmdBlock env (dash_http denv remote)" | "cmd = cmdUnblock env (dash_http denv remote)"
    | "cmd = cmdLog env (dash_http denv remote)"
    using assms(4) by (auto simp: cli_commands_def)
  then show ?thesis
  proof cases
    case 1
    with assms(5) show ?thesis
      by (auto simp: cmdStatus_def split: sum.splits prod.splits dest!: api(1) [OF paths(1)])
  next
    case 2
    with assms(5) show ?thesis
      by (auto simp: cmdFlush_def split: sum.splits prod.splits dest!: api(2) [OF flush_path, unfolded append.simps])
  next
    case 3
    with assms(5) show ?thesis
      by (auto simp: cmdBlock_def split: sum.splits prod.splits list.splits dest!: api(2) [OF paths(3)])
  next
    case 4
    with assms(5) show ?thesis
      by (auto simp: cmdUnblock_def split: sum.splits prod.splits list.splits dest!: api(2) [OF paths(4)])
  next
    case 5
    with assms(5) show ?thesis
      by (auto simp: cmdLog_def split: sum.splits prod.splits dest!: api(1) [OF paths(2)])
  qed
qed

subsection \<open>From the same machine\<close>

lemma local_auth: "has_prefix remote ''127.0.0.1:'' \<Longrightarrow> requireAuth env cfg (dash_request remote call)"
  by (simp add: requireAuth_def)

lemma local_get:
  assumes "rp_content (fst (dashboard env (dash_request remote call) d)) = Json j"
  shows "dash_http env remote base call d = (JsonReply (on_wire j), snd (dashboard env (dash_request remote call) d))"
  using assms by (cases "dashboard env (dash_request remote call) d") (simp add: dash_http_def dash_follow.simps [of 10])

lemma valid_utf8_ascii: "is_ascii s \<Longrightarrow> valid_utf8 s = s"
  by (induction s) (simp_all add: is_ascii_def)

declare valid_utf8.simps [simp del]

lemma url_plain: "CHR ''?'' \<notin> set u \<Longrightarrow> url_path u = u"
  using index_of_None [of "CHR ''?''" u] by (simp add: url_path_def)

lemma local_add:
  assumes "has_prefix remote ''127.0.0.1:''" "zone \<noteq> ''''"
  shows "dash_http env remote base (HttpPost ''/api/filter/add'' (Some zone)) d =
    (JsonReply (JObj [(''ok'', JBool True)]), put_server (fst (AddBlock (de_marshal env) zone (dash_server d))) d)"
proof -
  define rq where "rq = dash_request remote (HttpPost ''/api/filter/add'' (Some zone))"
  have rq: "rq_path rq = ''/api/filter/add''" "rq_method rq = ''POST''"
    "rq_body rq = Some (empty_body\<lparr>bd_domain := zone\<rparr>)" "requireAuth env cfg rq" for cfg
    using local_auth [OF assms(1)] by (simp_all add: rq_def) (simp_all add: dash_request_def url_plain)
  have "dashboard env rq d = api_filter_add env rq d" by (simp add: dashboard_def routes_def rq(1))
  then have "dashboard env rq d = (json_ok, put_server (fst (AddBlock (de_marshal env) zone (dash_server d))) d)"
    using assms(2) by (simp add: api_filter_add_def guarded_def post_only_def rq)
  then show ?thesis
    using local_get [of env remote "HttpPost ''/api/filter/add'' (Some zone)" d "JObj [(''ok'', JBool True)]" base]
    by (simp add: rq_def json_ok_def answer_def valid_utf8_ascii ascii_char_def)
qed

lemma local_querylog:
  assumes "has_prefix remote ''127.0.0.1:''" "RecentQueries 100 (dash_server d) = Some es"
  shows "dash_http env remote base (HttpGet ''/api/querylog'') d = (JsonReply (JList (map (on_wire \<circ> json_query) es)), d)"
proof -
  define rq where "rq = dash_request remote (HttpGet ''/api/querylog'')"
  have rq: "rq_path rq = ''/api/querylog''" "requireAuth env cfg rq" for cfg
    using local_auth [OF assms(1)] by (simp_all add: rq_def) (simp add: dash_request_def url_plain)
  have "dashboard env rq d = api_querylog env rq d" by (simp add: dashboard_def routes_def rq(1))
  then have "dashboard env rq d = (answer (Json (JList (map json_query es))), d)"
    by (simp add: api_querylog_def guarded_def rq(2) assms(2))
  then show ?thesis
    using local_get [of env remote "HttpGet ''/api/querylog''" d "JList (map json_query es)" base]
    by (simp add: rq_def answer_def)
qed

subsection \<open>block\<close>

text \<open>A name is \<open>zone\<close> or below it, up to case and a final dot.\<close>

definition under :: "string \<Rightarrow> string \<Rightarrow> bool" where
  "under zone name \<longleftrightarrow> to_lower zone \<in> set (name_and_parents (to_lower (trim_suffix name ''.'')))"

lemma Add_listed:
  assumes "is_ascii zone" "list_all (\<lambda>c. \<not> ascii_space c) zone" "under zone name"
    and "fs_mode (f_state f) \<noteq> ''off''"
  shows "Blocked (Add zone f) name \<longleftrightarrow> fs_mode (f_state f) = ''blacklist''"
proof -
  have "trim_space zone = zone" using assms(1,2) by (simp add: trim_space_id list_all_iff)
  then have "to_lower zone \<in> set (fs_domains (f_state (Add zone f)))" "fs_mode (f_state (Add zone f)) = fs_mode (f_state f)"
    by (simp_all add: Add_def Let_def)
  with assms(3,4) show ?thesis unfolding under_def Blocked_spec Let_def by auto
qed

lemma AddBlock_filter: "sv_filter (fst (AddBlock marshal zone s)) = Add zone (sv_filter s)"
  by (simp add: AddBlock_def map_filtering_def Let_def)

text \<open>
  C19: \<open>kmresolv block\<close> on the machine of the server takes effect with the next query: if the filter
  is a blacklist, the handler answers every query for the domain or a name below it with NXDOMAIN,
  whatever the rest of the world is. If the filter is a whitelist the same command, with the
  same message, lets the domain through. Nothing but filter and configuration is changed.
\<close>

theorem block_command:
  assumes "resolveCLIConfig cenv args = Inr (cc, zone # rest)" "has_prefix remote ''127.0.0.1:''"
    and "is_ascii zone" "zone \<noteq> ''''" "list_all (\<lambda>c. \<not> ascii_space c) zone"
    and "fs_mode (f_state (sv_filter (dash_server d))) \<noteq> ''off''" "under zone (q_name q)"
    and "cmdBlock cenv (dash_http denv remote) args d = (e, d')"
  shows "e = Exit (''blocked: '' @ zone @ newline) [] 0 \<and>
    (if fs_mode (f_state (sv_filter (dash_server d))) = ''blacklist''
     then fst (handle_question env join pr start msg q (da_world d')) = Some [nxdomain msg]
     else \<not> Blocked (sv_filter (dash_server d')) (q_name q)) \<and>
    w_cache (da_world d') = w_cache (da_world d) \<and> sv_records (dash_server d') = sv_records (dash_server d)"
proof -
  note add = local_add [OF assms(2,4), of denv "baseURL cc" d]
  have run: "e = Exit (''blocked: '' @ zone @ newline) [] 0"
    "d' = put_server (fst (AddBlock (de_marshal denv) zone (dash_server d))) d"
    using assms(1,8) add by (simp_all add: cmdBlock_def apiPost_def valid_utf8_ascii [OF assms(3)] decoded_def any_object_def)
  have "sv_filter (dash_server d') = Add zone (sv_filter (dash_server d))"
    by (simp add: run(2) put_server_def AddBlock_filter)
  with Add_listed [OF assms(3,5,7,6)]
  have "Blocked (sv_filter (dash_server d')) (q_name q) \<longleftrightarrow>
      fs_mode (f_state (sv_filter (dash_server d))) = ''blacklist''" by simp
  then show ?thesis
    by (simp add: run(1)) (simp add: handle_question_def Let_def run(2) put_server_def AddBlock_def map_filtering_def)
qed

subsection \<open>log\<close>

lemma swap_ends_nth:
  assumes "j < length xs" "k < length xs"
  shows "swap_ends i j xs ! k = (if i \<le> k \<and> k \<le> j then xs ! (i + j - k) else xs ! k)"
  using assms
proof (induction i j xs rule: swap_ends.induct)
  case (1 i j xs)
  show ?case
  proof (cases "i < j")
    case False
    then have "i + j - k = k" if "i \<le> k" "k \<le> j" using that by simp
    with False show ?thesis by (subst swap_ends.simps) auto
  next
    case True
    from 1(1) [OF True] 1(2,3)
    have "swap_ends (i + 1) (j - 1) (xs[i := xs ! j, j := xs ! i]) ! k =
        (if i + 1 \<le> k \<and> k \<le> j - 1 then xs[i := xs ! j, j := xs ! i] ! (i + j - k)
         else xs[i := xs ! j, j := xs ! i] ! k)"
      using True by simp
    moreover have "i + j - k \<noteq> i" "i + j - k \<noteq> j" if "i + 1 \<le> k" "k \<le> j - 1" using that by auto
    ultimately show ?thesis
      using True 1(2,3) by (subst swap_ends.simps) (auto simp: nth_list_update)
  qed
qed

lemma length_swap_ends [simp]: "length (swap_ends i j xs) = length xs"
  by (induction i j xs rule: swap_ends.induct) (subst swap_ends.simps, simp)

text \<open>The loop reverses.\<close>

lemma swap_ends_rev: "swap_ends 0 (length xs - Suc 0) xs = rev xs"
proof (cases "length xs")
  case 0
  then show ?thesis by (simp add: swap_ends.simps)
next
  case (Suc n)
  then show ?thesis
    by (intro nth_equalityI) (auto simp: swap_ends_nth rev_nth)
qed

lemma those_map: "list_all (\<lambda>x. f x = Some (g x)) xs \<Longrightarrow> those (map f xs) = Some (map g xs)"
  by (induction xs) simp_all

definition int64_range :: "int \<Rightarrow> bool" where
  "int64_range i \<longleftrightarrow> - (2 ^ 63) \<le> i \<and> i < 2 ^ 63"

text \<open>An entry of the log as the client receives it.\<close>

definition received :: "QueryEntry \<Rightarrow> QueryEntry" where
  "received e = e\<lparr>qe_Domain := valid_utf8 (qe_Domain e), qe_Type := valid_utf8 (qe_Type e),
     qe_Client := valid_utf8 (qe_Client e), qe_Status := valid_utf8 (qe_Status e)\<rparr>"

lemma decode_query:
  assumes "int64_range (qe_Latency e)"
  shows "decode_struct (entry_fields env) zero_entry (on_wire (json_query e)) = Some (received e)"
proof -
  let ?names = "{''time'', ''domain'', ''type'', ''client'', ''status'', ''latency_ms''}"
  have ascii: "is_ascii a \<and> to_lower a = a" if "a \<in> ?names" for a
    using that by (elim insertE emptyE) (hypsubst, code_simp)+
  then have eq: "equal_fold a b \<longleftrightarrow> a = b" if "a \<in> ?names" "b \<in> ?names" for a b
    using that by (metis equal_fold_ascii)
  have names: "valid_utf8 a = a" if "a \<in> ?names" for a
    using ascii [OF that] valid_utf8_ascii by blast
  have "on_wire (json_query e) =
      JObj [(''time'', JTime (qe_Time e)), (''domain'', JString (valid_utf8 (qe_Domain e))),
        (''type'', JString (valid_utf8 (qe_Type e))), (''client'', JString (valid_utf8 (qe_Client e))),
        (''status'', JString (valid_utf8 (qe_Status e))), (''latency_ms'', JInt (qe_Latency e))]"
    by (simp add: json_query_def names)
  then show ?thesis
    using assms
    by (simp add: decode_struct_def entry_fields_def eq json_time_def json_text_def json_int64_def
        json_integer_def int64_range_def received_def)
qed

lemma decode_entries_query:
  assumes "list_all (\<lambda>e. int64_range (qe_Latency e)) es"
  shows "decode_entries env (JList (map (on_wire \<circ> json_query) es)) = Some (map received es)"
  using those_map [of "\<lambda>e. decode_struct (entry_fields env) zero_entry (on_wire (json_query e))" received es]
    decode_query assms
  by (simp add: decode_entries_def comp_def list_all_iff)

lemma last_entries_newest:
  assumes "0 \<le> n" "n < 2 ^ 63" "int (length es) < 2 ^ 63"
  shows "last_entries n es = Some (newest (nat n) es)"
proof -
  from assms have w: "wrap64 (int (length es) - n) = int (length es) - n"
    by (intro wrap64_id) linarith+
  show ?thesis
  proof (cases "int (length es) < n")
    case True
    then have "length es - nat n = 0" by simp
    with True show ?thesis unfolding last_entries_def newest_def w Let_def by simp
  next
    case False
    with assms(1) have "nat (int (length es) - n) = length es - nat n" by (simp add: nat_diff_distrib')
    with False assms(1) show ?thesis unfolding last_entries_def newest_def w Let_def by simp
  qed
qed

text \<open>
  C20: \<open>kmresolv log --n k\<close> prints the newest \<open>k\<close> of all queries that the server ever logged, but no more
  than 100, one line each and the newest first, however often its ring of 500 entries has wrapped;
  the server is not changed. What is printed of an entry is what JSON keeps of it: bytes of a name
  that are not UTF-8 have become U+FFFD.
\<close>

theorem log_command:
  assumes "Parse [(''n'', IntFlag 20)] args = Inr (fs, rest)" "resolveCLIConfig cenv rest = Inr (cc, rest')"
    and "has_prefix remote ''127.0.0.1:''" "sv_qlog (dash_server d) = fold ql_Add es (newQueryLog opens 500 path)"
    and "list_all (\<lambda>e. int64_range (qe_Latency e)) es" "0 \<le> int_flag fs ''n''" "int_flag fs ''n'' < 2 ^ 63"
  shows "cmdLog cenv (dash_http denv remote) args d =
    (Exit (newline @ concat (map (log_line cenv \<circ> received) (rev (newest (min 100 (nat (int_flag fs ''n''))) es))) @ newline) [] 0, d)"
proof -
  define shown where "shown = newest 100 es"
  have "RecentQueries 100 (dash_server d) = Some shown"
    using query_log_recent [of 500 100 es opens path] by (simp add: RecentQueries_def assms(4) shown_def)
  note get = local_querylog [OF assms(3) this, of denv "baseURL cc"]
  have "list_all (\<lambda>e. int64_range (qe_Latency e)) shown"
    using assms(5) by (auto simp: shown_def newest_def list_all_iff dest: in_set_dropD)
  note dec = decode_entries_query [OF this, of cenv]
  have "length shown \<le> 100" by (simp add: shown_def)
  moreover define out where "out = map received (newest (nat (int_flag fs ''n'')) shown)"
  ultimately have "last_entries (int_flag fs ''n'') (map received shown) = Some out"
    using last_entries_newest [OF assms(6,7), of "map received shown"] by (simp add: newest_def drop_map)
  then have "cmdLog cenv (dash_http denv remote) args d =
      (Exit (newline @ concat (map (log_line cenv) (rev out)) @ newline) [] 0, d)"
    using assms(1,2) get dec by (simp add: cmdLog_def apiGet_def decoded_def swap_ends_rev)
  moreover have "map (log_line cenv) (rev out) =
      map (log_line cenv \<circ> received) (rev (newest (min 100 (nat (int_flag fs ''n''))) es))"
    by (simp add: out_def shown_def newest_newest rev_map)
  ultimately show ?thesis by simp
qed

text \<open>A negative number of entries ends in a slice expression out of range.\<close>

lemma log_negative_panics:
  assumes "n < 0" "- (2 ^ 62) \<le> n" "int (length es) < 2 ^ 62"
  shows "last_entries n es = None"
proof -
  from assms have w: "wrap64 (int (length es) - n) = int (length es) - n"
    by (intro wrap64_id) auto
  from assms(1) show ?thesis unfolding last_entries_def w Let_def by simp
qed

subsection \<open>status\<close>

lemma int_div_mult_cancel: "(s * second) div (u * second) = s div u" "(s * second) mod (u * second) = (s mod u) * second"
  by (simp_all add: second_def mult_mod_left)

lemma whole_units_floor:
  assumes "0 \<le> s" "s < 2 ^ 22" "0 < u" "u \<le> 3600"
  shows "whole_units (u * second) (s * second) = s div u"
proof -
  define q where "q = s div u"
  define r where "r = s mod u"
  have qr: "0 \<le> q" "q < 2 ^ 22" "0 \<le> r" "r \<le> u - 1"
    using assms pos_mod_bound [of u s]
    by (auto simp: q_def r_def pos_imp_zdiv_nonneg_iff intro: le_less_trans [OF zdiv_mono2 [of s 1 u]])
  have dm: "(s * second) sdiv (u * second) = q" "(s * second) smod (u * second) = r * second"
    using assms int_div_mult_cancel [of s u]
    by (simp_all add: q_def r_def signed_divide_int_def signed_modulo_int_def sgn_if second_def)
  have "r * second < 2 ^ 53" using qr assms by (simp add: second_def)
  then have r: "round64 (of_int (r * second)) = of_int (r * second)"
    using qr by (intro round64_of_int) (simp add: second_def)
  have frac: "of_int (r * second) / (of_int (u * second) :: rat) = of_int r / of_int u"
    by (simp add: second_def)
  have "(of_int r :: rat) \<le> of_int u - 1" using qr(4) by linarith
  moreover have "(of_int u :: rat) \<le> 3600" "0 < (of_int u :: rat)" using assms(3,4) by simp_all
  ultimately have "of_int r / (of_int u :: rat) \<le> below_one" "0 \<le> of_int r / (of_int u :: rat)"
    using qr(3) by (simp_all add: below_one_def pos_divide_le_eq)
  from round64_add_fraction [OF qr(1,2) this(2,1)] qr(1,2)
  have "of_int q \<le> round64 (of_int q + round64 (of_int r / of_int u))"
    "round64 (of_int q + round64 (of_int r / of_int u)) < of_int q + 1" by simp_all
  moreover have "(0 :: rat) \<le> of_int q" using qr(1) by simp
  ultimately show ?thesis
    using qr(1,2) unfolding whole_units_def dm r frac Let_def by (simp add: q_def floor_eq_iff)
qed

text \<open>For the first 48 days the clock that \<open>status\<close> prints is the uptime in hours, minutes and seconds.\<close>

lemma uptime_text_clock:
  assumes "0 \<le> s" "s < 2 ^ 22"
  shows "uptime_text s =
    pad_zero2 (s div 3600) @ '':'' @ pad_zero2 (s div 60 mod 60) @ '':'' @ pad_zero2 (s mod 60)"
proof -
  have "wrap64 (s * second) = s * second" using assms by (intro wrap64_id) (simp_all add: second_def)
  then show ?thesis
    using whole_units_floor [OF assms, of 3600] whole_units_floor [OF assms, of 60] whole_units_floor [OF assms, of 1] assms
    by (simp add: uptime_text_def Let_def signed_modulo_int_def sgn_if)
qed

subsection \<open>Flags\<close>

text \<open>Where a command connects to: the flags, else the configuration, else the fixed address.\<close>

lemma cli_precedence:
  assumes "resolveCLIConfig env args = Inr (cc, rest)" "Parse cli_flags args = Inr (fs, rest')"
  shows "rest' = rest \<and>
    (string_flag fs ''host'' \<noteq> [] \<longrightarrow> cc_host cc = string_flag fs ''host'') \<and>
    (int_flag fs ''port'' \<noteq> 0 \<longrightarrow> cc_port cc = int_flag fs ''port'') \<and>
    (string_flag fs ''host'' = [] \<longrightarrow> int_flag fs ''port'' = 0 \<longrightarrow>
      baseURL cc = (case LoadConfig (cl_unmarshal env) (cl_read env) (string_flag fs ''config'') of
                      Inl _ \<Rightarrow> ''http://127.0.0.1:8080''
                    | Inr cfg \<Rightarrow> ''http://'' @ (if db_Listen (cfg_Dashboard cfg) = ''0.0.0.0'' then ''127.0.0.1''
                        else db_Listen (cfg_Dashboard cfg)) @ '':'' @ int_string (db_Port (cfg_Dashboard cfg))))"
proof -
  define loaded where "loaded = LoadConfig (cl_unmarshal env) (cl_read env) (string_flag fs ''config'')"
  have n: "int_string 8080 = ''8080''" by (simp add: int_string_def dec_string.simps char_of_def bit_Suc_0_iff)
  note run = assms(1) [unfolded resolveCLIConfig_def assms(2) sum.case prod.case Let_def, folded loaded_def]
  show ?thesis unfolding loaded_def [symmetric] baseURL_def using run n
    by (cases loaded; cases "string_flag fs ''host'' = []"; cases "int_flag fs ''port'' = 0") auto
qed

text \<open>
  The usage text offers \<open>--host\<close>, \<open>--port\<close> and \<open>--config\<close> for all commands. \<open>flush\<close> and \<open>log\<close> refuse them before
  or among their own flags; they are only read behind a \<open>--\<close>.
\<close>

lemma flush_refuses_host:
  assumes "map_of fs name = None" "name \<notin> {''help'', ''h''}" "CHR ''='' \<notin> set name"
    and "name \<noteq> []" "hd name \<noteq> CHR ''-''"
  shows "Parse fs ((''--'' @ name) # args) = Inl (NotDefined name)"
proof -
  have "flag_parts name = (name, None)"
    using assms(3) index_of_None [of "CHR ''=''" "tl name"] by (cases name) (auto simp: flag_parts_def)
  moreover have "hd name \<noteq> CHR ''=''" using assms(3,4) by (cases name) auto
  ultimately show ?thesis
    using assms(1,2,4,5) by (simp add: Parse.simps [of fs] parse_one_def set_named_def)
qed

lemma cli_flags_refused:
  "cmdFlush env http (''--host'' # args) w = (Exit [] (cl_flag_text env (NotDefined ''host'')) 2, w)"
  "cmdLog env http (''--port'' # args) w = (Exit [] (cl_flag_text env (NotDefined ''port'')) 2, w)"
  using flush_refuses_host [of flush_flags "''host''" args] flush_refuses_host [of "[(''n'', IntFlag 20)]" "''port''" args]
  by (simp_all add: cmdFlush_def cmdLog_def flush_flags_def flag_end_def flag_exit_def)

subsection \<open>Examples\<close>

definition cx_env :: cli_env where
  "cx_env = \<lparr>cl_unmarshal = (\<lambda>_ _. None), cl_read = (\<lambda>_. FileMissing), cl_flag_text = (\<lambda>_. ''flag''),
     cl_json_error = (\<lambda>_. ''json''), cl_time_json = (\<lambda>_. ''''), cl_parse_time = (\<lambda>_. None),
     cl_clock_text = (\<lambda>_. ''15:04:05'')\<rparr>"

text \<open>The dashboard of the example with another server.\<close>

definition cx_dash :: "(Server \<Rightarrow> Server) \<Rightarrow> unit dash" where
  "cx_dash f = put_server (f dx_server) dx_dash"

lemma remote_commands_fail_witness:
  "snd (cmdBlock cx_env (dash_http dx_env ''10.0.0.9:999'') [''x.org''] dx_dash) = dx_dash \<and>
   no_result (fst (cmdBlock cx_env (dash_http dx_env ''10.0.0.9:999'') [''x.org''] dx_dash))"
proof -
  have "AuthEnabled (sv_cfg (dash_server dx_dash))"
    by (simp add: dx_dash_def dx_server_def dx_cfg_def AuthEnabled_def)
  moreover have "\<not> has_prefix ''10.0.0.9:999'' ''127.0.0.1:''" "\<not> has_prefix ''10.0.0.9:999'' ''[::1]:''"
    by (simp_all add: has_prefix_def)
  moreover have "cmdBlock cx_env (dash_http dx_env ''10.0.0.9:999'') \<in>
      set (cli_commands cx_env (dash_http dx_env ''10.0.0.9:999''))" by (simp add: cli_commands_def)
  ultimately show ?thesis
    using remote_commands_fail [of dx_dash "''10.0.0.9:999''" _ cx_env dx_env "[''x.org'']"]
    by (metis prod.collapse)
qed

lemma cx_config:
  "no_flag a \<Longrightarrow> \<exists>cc. resolveCLIConfig cx_env [a] = Inr (cc, [a])" "\<exists>cc. resolveCLIConfig cx_env [] = Inr (cc, [])"
  by (simp_all add: resolveCLIConfig_def Parse_stops_at Let_def)

lemma block_command_witness:
  "fst (handle_question sx_env sx_join sx_peer 0 (sx_query ''a.Ads.org'') \<lparr>q_name = ''a.Ads.org'', q_type = TypeA, q_class = 1\<rparr>
      (da_world (snd (cmdBlock cx_env (dash_http dx_env ''127.0.0.1:999'') [''ads.org'']
        (cx_dash (sv_filter_update (\<lambda>_. empty_filter ''blacklist''))))))) = Some [nxdomain (sx_query ''a.Ads.org'')]"
proof -
  let ?d = "cx_dash (sv_filter_update (\<lambda>_. empty_filter ''blacklist''))"
  let ?q = "\<lparr>q_name = ''a.Ads.org'', q_type = TypeA, q_class = 1\<rparr>"
  obtain cc where cc: "resolveCLIConfig cx_env [''ads.org''] = Inr (cc, [''ads.org''])"
    using cx_config(1) [of "''ads.org''"] by (auto simp: no_flag_def)
  have mode: "fs_mode (f_state (sv_filter (dash_server ?d))) = ''blacklist''"
    by (simp add: cx_dash_def put_server_def empty_filter_def)
  have "has_prefix ''127.0.0.1:999'' ''127.0.0.1:''" "is_ascii ''ads.org''" "''ads.org'' \<noteq> ''''"
    "list_all (\<lambda>c. \<not> ascii_space c) ''ads.org''" "under ''ads.org'' (q_name ?q)" by code_simp+
  from block_command [OF cc this(1-4) _ this(5) surjective_pairing, of ?d dx_env sx_env sx_join sx_peer 0 "sx_query ''a.Ads.org''"]
  show ?thesis by (simp add: mode)
qed

lemma log_command_witness:
  "cmdLog cx_env (dash_http dx_env ''127.0.0.1:999'') [''-n=2'']
     (cx_dash (sv_qlog_update (\<lambda>_. fold ql_Add (map (\<lambda>d. zero_entry\<lparr>qe_Domain := d\<rparr>) [''a'', ''b'', ''c'']) (newQueryLog (\<lambda>_. False) 500 '''')))) =
   (Exit (newline @ concat (map (log_line cx_env) [zero_entry\<lparr>qe_Domain := ''c''\<rparr>, zero_entry\<lparr>qe_Domain := ''b''\<rparr>]) @ newline) [] 0,
    cx_dash (sv_qlog_update (\<lambda>_. fold ql_Add (map (\<lambda>d. zero_entry\<lparr>qe_Domain := d\<rparr>) [''a'', ''b'', ''c'']) (newQueryLog (\<lambda>_. False) 500 ''''))))"
proof -
  let ?es = "map (\<lambda>d. zero_entry\<lparr>qe_Domain := d\<rparr>) [''a'', ''b'', ''c'']"
  let ?d = "cx_dash (sv_qlog_update (\<lambda>_. fold ql_Add ?es (newQueryLog (\<lambda>_. False) 500 '''')))"
  obtain cc where cc: "resolveCLIConfig cx_env [] = Inr (cc, [])" using cx_config(2) by blast
  have p: "Parse [(''n'', IntFlag 20)] [''-n=2''] = Inr ([(''n'', IntFlag 2)], [])" by code_simp
  have n: "int_flag [(''n'', IntFlag 2)] ''n'' = 2" by (simp add: int_flag_def)
  have "has_prefix ''127.0.0.1:999'' ''127.0.0.1:''" by (simp add: has_prefix_def)
  moreover have "sv_qlog (dash_server ?d) = fold ql_Add ?es (newQueryLog (\<lambda>_. False) 500 '''')"
    by (simp add: cx_dash_def put_server_def)
  moreover have "list_all (\<lambda>e. int64_range (qe_Latency e)) ?es"
    by (simp add: int64_range_def zero_entry_def)
  ultimately have "cmdLog cx_env (dash_http dx_env ''127.0.0.1:999'') [''-n=2''] ?d =
      (Exit (newline @ concat (map (log_line cx_env \<circ> received) (rev (newest (min 100 (nat 2)) ?es))) @ newline) [] 0, ?d)"
    using log_command [OF p cc, of "''127.0.0.1:999''" ?d ?es "\<lambda>_. False" "''''" dx_env] unfolding n by simp
  moreover have "received (zero_entry\<lparr>qe_Domain := s\<rparr>) = zero_entry\<lparr>qe_Domain := s\<rparr>" if "is_ascii s" for s
    using that by (simp add: received_def zero_entry_def valid_utf8_ascii)
  ultimately show ?thesis by (simp add: newest_def ascii_char_def)
qed

end
