(* ===== verification/Program.thy ===== *)
theory Program
  imports CommandLine Minecraft
begin

text \<open>
  \<open>main\<close> and \<open>serve\<close>: \<open>cmd/kmresolv/main.go\<close>, \<open>cmd_serve.go\<close>, \<open>Start\<close> of the server with the goroutines
  it leaves running, the listener of the dashboard, and the server's handle on the Minecraft process.
\<close>

subsection \<open>The Minecraft process of a server\<close>

datatype mc_start_error = NotConfigured | McError mc_error

text \<open>\<open>s.minecraft\<close> is set by \<open>New\<close> when the configuration enables it.\<close>

definition new_minecraft :: "Config \<Rightarrow> MinecraftServer option" where
  "new_minecraft cfg =
     (if mc_Enabled (cfg_Minecraft cfg) then Some (NewMinecraftServer (cfg_Minecraft cfg) (api_url cfg)) else None)"

definition StartMinecraft :: "string option \<Rightarrow> bool \<Rightarrow> bool \<Rightarrow> MinecraftServer option \<Rightarrow>
    (mc_start_error + unit) \<times> MinecraftServer option" where
  "StartMinecraft jar jar_ok starts m =
     (case m of
        None \<Rightarrow> (Inl NotConfigured, None)
      | Some m \<Rightarrow>
          (case mc_Start jar jar_ok starts m of
             (Inl e, m) \<Rightarrow> (Inl (McError e), Some m)
           | (Inr u, m) \<Rightarrow> (Inr u, Some m)))"

text \<open>The process that is sent a signal.\<close>

definition StopMinecraft :: "MinecraftServer option \<Rightarrow> nat option" where
  "StopMinecraft m = (case m of None \<Rightarrow> None | Some m \<Rightarrow> mc_Stop m)"

definition MinecraftRunning :: "MinecraftServer option \<Rightarrow> bool" where
  "MinecraftRunning m = (case m of None \<Rightarrow> False | Some m \<Rightarrow> mc_Running m)"

subsection \<open>Goroutines\<close>

text \<open>
  What runs besides the handlers: the loops of the server with the periods of their tickers, one
  reader per processor, the removal of expired login challenges, and the listener of the dashboard.
\<close>

datatype goroutine =
  HistorySampler int
| PoolJanitor int
| FilterReloader int
| Reader
| NonceSweeper int
| ServeHTTP string
| ServeHTTPS string string string
| SighupReloader

definition hour :: int where
  "hour = 3600 * second"

definition filterReloadLoop :: "Config \<Rightarrow> goroutine" where
  "filterReloadLoop cfg = FilterReloader (wrap64 (fc_ReloadIntervalHours (cfg_Filtering cfg) * hour))"

text \<open>\<open>time.NewTicker\<close> panics unless its period is positive.\<close>

fun ticker_ok :: "goroutine \<Rightarrow> bool" where
  "ticker_ok (HistorySampler d) = (0 < d)"
| "ticker_ok (PoolJanitor d) = (0 < d)"
| "ticker_ok (FilterReloader d) = (0 < d)"
| "ticker_ok (NonceSweeper d) = (0 < d)"
| "ticker_ok _ = True"

text \<open>\<open>s.Start()\<close> until its readers run, or until listening has failed: then it returns an error.\<close>

definition Start :: "bool \<Rightarrow> nat \<Rightarrow> Config \<Rightarrow> bool \<times> goroutine list" where
  "Start listens numCPU cfg =
     (listens,
      [HistorySampler second, PoolJanitor (30 * second)] @
      (if 0 < fc_ReloadIntervalHours (cfg_Filtering cfg) then [filterReloadLoop cfg] else []) @
      (if listens then replicate numCPU Reader else []))"

definition dashboard_listener :: "Config \<Rightarrow> goroutine" where
  "dashboard_listener cfg =
     (let db = cfg_Dashboard cfg
      in if db_TLSCertFile db \<noteq> '''' then ServeHTTPS (DashboardAddr cfg) (db_TLSCertFile db) (db_TLSKeyFile db)
         else ServeHTTP (DashboardAddr cfg))"

definition dashboard_Start :: "Config \<Rightarrow> goroutine list" where
  "dashboard_Start cfg =
     (if \<not> db_Enabled (cfg_Dashboard cfg) then [] else [NonceSweeper (300 * second), dashboard_listener cfg])"

subsection \<open>serve\<close>

text \<open>
  The outside of a start: the lists, the query log's file and the clock as in \<open>New\<close>, whether the
  address can be bound, the number of processors, and what the Minecraft process finds.
\<close>

record serve_env =
  bo_opens :: "string \<Rightarrow> bool"
  bo_lists :: list_sources
  bo_time :: int
  bo_listens :: bool
  bo_cpus :: nat
  bo_jar :: "string option"
  bo_jar_ok :: bool
  bo_java_ok :: bool
  bo_fatal :: "load_error option \<Rightarrow> string"

record running =
  rn_level :: LogLevel
  rn_world :: "Server world"
  rn_minecraft :: "MinecraftServer option"
  rn_goroutines :: "goroutine list"

datatype serve_result = ServeEnds cli_end | Runs running

text \<open>\<open>log.Fatal\<close> writes its message with date and time to standard error and exits with 1.\<close>

definition cmdServe :: "cli_env \<Rightarrow> serve_env \<Rightarrow> string list \<Rightarrow> serve_result" where
  "cmdServe env bo args =
     (case Parse [(''config'', StringFlag ''config.yml'')] args of
        Inl e \<Rightarrow> ServeEnds (flag_end env e)
      | Inr (fs, _) \<Rightarrow>
          (case LoadConfig (cl_unmarshal env) (cl_read env) (string_flag fs ''config'') of
             Inl e \<Rightarrow> ServeEnds (Exit [] (bo_fatal bo (Some e)) 1)
           | Inr cfg \<Rightarrow>
               (case New (bo_opens bo) (bo_lists bo) (bo_time bo) cfg of
                  None \<Rightarrow> ServeEnds Panics
                | Some w \<Rightarrow>
                    let mc = new_minecraft cfg;
                        mc = (if mc_Enabled (cfg_Minecraft cfg)
                              then snd (StartMinecraft (bo_jar bo) (bo_jar_ok bo) (bo_java_ok bo) mc) else mc);
                        (ok, gs) = Start (bo_listens bo) (bo_cpus bo) cfg;
                        gs = dashboard_Start cfg @ SighupReloader # gs
                    in if \<not> list_all ticker_ok gs then ServeEnds Panics
                       else if \<not> ok then ServeEnds (Exit [] (bo_fatal bo None) 1)
                       else Runs \<lparr>rn_level = InitLogger (srv_LogLevel (cfg_Server cfg)), rn_world = w,
                              rn_minecraft = mc, rn_goroutines = gs\<rparr>)))"

subsection \<open>main\<close>

text \<open>Lines of the usage text; its dash is U+2014.\<close>

definition usage_text :: string where
  "usage_text =
     concat (map (\<lambda>l. l @ newline)
       [''kmresolv '' @ uni 0x2014 @ '' a recursive DNS resolver'',
        '''',
        ''Usage:'',
        ''  kmresolv serve [--config path]     start the DNS server'',
        ''  kmresolv status [flags]            show resolver stats'',
        ''  kmresolv flush [--expired|--negative]  flush the cache'',
        ''  kmresolv block <domain>            add domain to blocklist'',
        ''  kmresolv unblock <domain>          remove domain from blocklist'',
        ''  kmresolv log [--n 50]              show recent query log'',
        ''  kmresolv version                   print version'',
        '''',
        ''Flags (all CLI commands):'',
        ''  --host string    dashboard host (default: from config or 127.0.0.1)'',
        ''  --port int       dashboard port (default: from config or 8080)'',
        ''  --config string  path to config file (default: config.yml)''])"

text \<open>\<open>os.Args\<close> without the program itself.\<close>

definition main :: "cli_env \<Rightarrow> serve_env \<Rightarrow> string \<Rightarrow> 'w http \<Rightarrow> string list \<Rightarrow> 'w \<Rightarrow> serve_result \<times> 'w" where
  "main env bo version http args w =
     (let cli = (\<lambda>(e, w). (ServeEnds e, w))
      in case args of
           [] \<Rightarrow> (ServeEnds (Exit usage_text [] 1), w)
         | c # rest \<Rightarrow>
             if c = ''serve'' then (cmdServe env bo rest, w)
             else if c = ''status'' then cli (cmdStatus env http rest w)
             else if c = ''flush'' then cli (cmdFlush env http rest w)
             else if c = ''block'' then cli (cmdBlock env http rest w)
             else if c = ''unblock'' then cli (cmdUnblock env http rest w)
             else if c = ''log'' then cli (cmdLog env http rest w)
             else if c = ''version'' then (ServeEnds (Exit (''kmresolv v'' @ version @ newline) [] 0), w)
             else if c = ''help'' \<or> c = ''--help'' \<or> c = ''-h'' then (ServeEnds (Exit usage_text [] 0), w)
             else (ServeEnds (Exit usage_text (''unknown command: '' @ c @ newline @ newline) 1), w))"

subsection \<open>Start-up\<close>

text \<open>
  The reload interval is multiplied into nanoseconds without a check: from 2562048 hours on the product
  wraps round to a negative period, and the ticker's panic ends the server.
\<close>

lemma wrapped_hours:
  assumes "0 \<le> h" "h \<le> 5124095"
  shows "0 < wrap64 (h * hour) \<longleftrightarrow> 0 < h \<and> h < 2562048"
proof (cases "h < 2562048")
  case True
  with assms have "wrap64 (h * hour) = h * hour"
    by (intro wrap64_id) (simp_all add: hour_def second_def)
  with True assms show ?thesis by (simp add: hour_def second_def)
next
  case False
  with assms have "2 ^ 63 \<le> h * hour" "h * hour < 2 ^ 64" by (simp_all add: hour_def second_def)
  then have "(h * hour + 2 ^ 63) mod 2 ^ 64 = h * hour - 2 ^ 63"
    using mod_add_self2 [of "h * hour - 2 ^ 63" "2 ^ 64"] by (simp add: add.commute)
  then have "wrap64 (h * hour) = h * hour - 2 ^ 64" by (simp add: wrap64_def)
  with False \<open>h * hour < 2 ^ 64\<close> show ?thesis by simp
qed

lemma serve_panics_iff:
  assumes "Parse [(''config'', StringFlag ''config.yml'')] args = Inr (fs, rest)"
    "LoadConfig (cl_unmarshal env) (cl_read env) (string_flag fs ''config'') = Inr cfg"
    "fc_ReloadIntervalHours (cfg_Filtering cfg) \<le> 5124095"
  shows "cmdServe env bo args = ServeEnds Panics \<longleftrightarrow>
    New (bo_opens bo) (bo_lists bo) (bo_time bo) cfg = None \<or> 2562048 \<le> fc_ReloadIntervalHours (cfg_Filtering cfg)"
proof -
  let ?h = "fc_ReloadIntervalHours (cfg_Filtering cfg)"
  let ?gs = "dashboard_Start cfg @ SighupReloader # snd (Start (bo_listens bo) (bo_cpus bo) cfg)"
  have "list_all ticker_ok (dashboard_Start cfg)"
    by (simp add: dashboard_Start_def dashboard_listener_def Let_def second_def)
  moreover have "list_all ticker_ok (replicate n Reader)" for n by (simp add: list_all_iff)
  moreover have "ticker_ok (filterReloadLoop cfg) \<longleftrightarrow> ?h < 2562048" if "0 < ?h"
    using wrapped_hours [of ?h] that assms(3) by (simp add: filterReloadLoop_def)
  ultimately have "list_all ticker_ok ?gs \<longleftrightarrow> ?h < 2562048"
    by (cases "0 < ?h") (auto simp: Start_def second_def)
  then show ?thesis
    using assms(1,2) by (cases "New (bo_opens bo) (bo_lists bo) (bo_time bo) cfg")
      (auto simp: cmdServe_def Let_def Start_def split: prod.splits if_splits)
qed

text \<open>
  A dashboard that is served over TLS is out of reach of the command line, which asks for
  \<open>http://\<close> whatever the configuration says.
\<close>

lemma baseURL_plain: "has_prefix (baseURL cc) ''http://''"
  by (simp add: baseURL_def has_prefix_def)

end
