(* ===== verification/Interference.thy ===== *)
theory Interference
  imports Resolve CacheCapacity
begin

text \<open>
  Invariants of the shared world under interference. A resolution runs between calls of the outside,
  during which other goroutines change the world. The locale \<open>shared_world\<close> is the contract of an
  invariant: every single access to the cache, the pools and the validator keeps it. Inside it,
  every function of the resolver is shown to keep the invariant when the others keep it (\<open>rely\<close>), so
  the invariant holds whenever a goroutine hands over to another.
\<close>

named_theorems kept "functions that keep an invariant of the world"

subsection \<open>The others\<close>

text \<open>Whatever happens during a call of the outside keeps the invariant.\<close>

definition rely :: "('n world \<Rightarrow> bool) \<Rightarrow> 'n env \<Rightarrow> bool" where
  "rely I env \<longleftrightarrow>
     permutes (e_order env) \<and>
     (\<forall>w. I w \<longrightarrow>
        (\<forall>tr server. I (snd (e_dial env tr server w))) \<and> (\<forall>c bs. I (snd (e_datagram env c bs w))) \<and>
        (\<forall>tr c bs. I (snd (e_stream env tr c bs w))) \<and> (\<forall>url bs. I (snd (e_http env url bs w))) \<and>
        I (snd (e_clock env w)) \<and> I (snd (e_now env w)) \<and> I (snd (e_rand env w)) \<and>
        (\<forall>xs. I (snd (e_shuffle env xs w))) \<and> I (snd (e_pick env w)))"

definition rely_join :: "('n world \<Rightarrow> bool) \<Rightarrow> 'n join \<Rightarrow> bool" where
  "rely_join I join \<longleftrightarrow> (\<forall>w. I w \<longrightarrow> (\<forall>key. I (snd (join key w))))"

subsection \<open>The contract\<close>

locale shared_world =
  fixes I :: "'n world \<Rightarrow> bool"
  assumes get_keeps: "I w \<Longrightarrow> pool_get (\<lambda>_. None) 0 server (w_pools w tr) = (r, p) \<Longrightarrow>
      I (w\<lparr>w_pools := (w_pools w)(tr := p)\<rparr>)"
    and put_keeps: "I w \<Longrightarrow> I (w\<lparr>w_pools := (w_pools w)(tr := fst (pool_put t server pc failed (w_pools w tr)))\<rparr>)"
    and Get_keeps: "I w \<Longrightarrow> Get t1 t2 t3 prefetch name qtype (w_cache w) = (m, started, c) \<Longrightarrow> I (w\<lparr>w_cache := c\<rparr>)"
    and Set_keeps: "I w \<Longrightarrow> permutes ord \<Longrightarrow> I (w\<lparr>w_cache := Set ord t name qtype msg (w_cache w)\<rparr>)"
    and SetNegative_keeps: "I w \<Longrightarrow> I (w\<lparr>w_cache := SetNegative t name qtype ttl (w_cache w)\<rparr>)"
    and Lookup_keeps: "I w \<Longrightarrow> LookupZoneKeys t zone (w_val w) = (ks, v) \<Longrightarrow> I (w\<lparr>w_val := v\<rparr>)"
    and CacheKeys_keeps: "I w \<Longrightarrow> I (w\<lparr>w_val := CacheZoneKeys t zone keys ttl32 (w_val w)\<rparr>)"
begin

text \<open>One call after another.\<close>

lemma bind:
  "I (snd r) \<Longrightarrow> (\<And>x w. I w \<Longrightarrow> I (snd (f x w))) \<Longrightarrow> I (snd (case r of (x, w) \<Rightarrow> f x w))"
  by (cases r) simp

lemma bind_world: "I (snd r) \<Longrightarrow> (\<And>x w. I w \<Longrightarrow> I (f x w)) \<Longrightarrow> I (case r of (x, w) \<Rightarrow> f x w)"
  by (cases r) simp

text \<open>A result with its validation status.\<close>

lemma bind_status:
  fixes p :: "'a \<times> ValidationStatus"
  shows "(\<And>a st. I (snd (f a st))) \<Longrightarrow> I (snd (case p of (a, st) \<Rightarrow> f a st))"
  by (cases p) simp

lemma calls [kept]:
  assumes "rely I env" "I w"
  shows "I (snd (e_dial env tr server w))" "I (snd (e_datagram env c bs w))"
    "I (snd (e_stream env tr c bs w))" "I (snd (e_http env url bs w))" "I (snd (e_clock env w))"
    "I (snd (e_now env w))" "I (snd (e_rand env w))" "I (snd (e_shuffle env xs w))" "I (snd (e_pick env w))"
  using assms by (simp_all add: rely_def)

subsection \<open>Queries\<close>

lemma get_conn_keeps [kept]: "rely I env \<Longrightarrow> I w \<Longrightarrow> I (snd (get_conn env tr server w))"
  using get_keeps [of w server tr] calls(1) [of env w tr server]
  by (cases "e_dial env tr server w") (auto simp: get_conn_def split: prod.split option.split sum.split)

lemma put_conn_keeps [kept]: "rely I env \<Longrightarrow> I w \<Longrightarrow> I (put_conn env tr server pc failed w)"
  unfolding put_conn_def by (rule bind_world [OF calls(6)]) (auto intro: put_keeps)

lemma queryTCPPool_keeps [kept]: "rely I env \<Longrightarrow> I w \<Longrightarrow> I (snd (queryTCPPool env cfg tr server name qtype w))"
  by (auto simp: queryTCPPool_def Let_def intro!: bind kept split: sum.split verdict.split)

lemma query_udp_keeps [kept]: "rely I env \<Longrightarrow> I w \<Longrightarrow> I (snd (query_udp check rd env cfg server name qtype w))"
  by (auto simp: query_udp_def queryTCP_def intro!: bind kept split: sum.split verdict.split)

lemma query_keeps [kept]: "rely I env \<Longrightarrow> I w \<Longrightarrow> I (snd (query env cfg server name qtype w))"
  by (simp add: query_def kept)

lemma query_upstream_keeps [kept]: "rely I env \<Longrightarrow> I w \<Longrightarrow> I (snd (query_upstream env cfg upstream name qtype w))"
  by (auto simp: query_upstream_def queryDoH_def queryDoT_def queryForwarder_def intro!: bind kept)

lemma resolveViaServers_keeps [kept]:
  "rely I env \<Longrightarrow> I w \<Longrightarrow> I (snd (resolveViaServers env cfg name qtype servers w))"
proof (induction servers arbitrary: w)
  case (Cons sv svs)
  with query_upstream_keeps [of env w cfg sv name qtype] show ?case
    by (cases "query_upstream env cfg sv name qtype w") (auto split: sum.split)
qed simp

lemma resolveViaForwarder_keeps [kept]:
  "rely I env \<Longrightarrow> I w \<Longrightarrow> I (snd (resolveViaForwarder env cfg name qtype w))"
  by (simp add: resolveViaForwarder_def kept)

subsection \<open>Iteration\<close>

lemma cache_negative_keeps [kept]: "rely I env \<Longrightarrow> I w \<Longrightarrow> I (snd (cache_negative env name qtype w))"
  by (auto simp: cache_negative_def intro!: bind kept)

lemma cache_get_keeps [kept]: "rely I env \<Longrightarrow> I w \<Longrightarrow> I (snd (cache_get env cfg name qtype w))"
  unfolding cache_get_def
  by (intro bind calls; assumption?) (auto intro: Get_keeps split: prod.split)

text \<open>What the recursive call has to do.\<close>

definition keeping :: "'n resolution \<Rightarrow> bool" where
  "keeping rec \<longleftrightarrow> (\<forall>name qtype servers w. I w \<longrightarrow> I (snd (rec name qtype servers w)))"

lemma keepingD: "keeping rec \<Longrightarrow> I w \<Longrightarrow> I (snd (rec name qtype servers w))"
  by (simp add: keeping_def)

lemma resolveNSAddr_keeps [kept]:
  "rely I env \<Longrightarrow> keeping rec \<Longrightarrow> I w \<Longrightarrow> I (snd (resolveNSAddr rec env cfg ns qtype w))"
  by (auto simp: resolveNSAddr_def intro!: bind kept keepingD [of rec] split: bool.split option.split)

lemma resolve_ns_keeps [kept]:
  "rely I env \<Longrightarrow> keeping rec \<Longrightarrow> I w \<Longrightarrow> I (snd (resolve_ns rec env cfg ns w))"
  by (auto simp: resolve_ns_def Let_def intro!: bind kept keepingD [of rec])

lemma collect_ns_keeps [kept]:
  "rely I env \<Longrightarrow> keeping rec \<Longrightarrow> I w \<Longrightarrow> I (snd (collect_ns rec env cfg ips e nss w))"
  by (induction nss arbitrary: ips e w) (auto intro!: bind kept keepingD [of rec])

lemma resolveNSParallel_keeps [kept]:
  "rely I env \<Longrightarrow> keeping rec \<Longrightarrow> I w \<Longrightarrow> I (snd (resolveNSParallel rec env cfg nss w))"
  unfolding resolveNSParallel_def
  by (intro bind calls collect_ns_keeps; assumption?) (auto split: prod.split)

lemma follow_cname_keeps [kept]:
  "rely I env \<Longrightarrow> keeping rec \<Longrightarrow> I w \<Longrightarrow> I (snd (follow_cname rec env cfg qtype resp rr w))"
  by (auto simp: follow_cname_def intro!: bind kept keepingD [of rec] split: sum.split bool.split option.split)

lemma try_servers_keeps [kept]:
  "rely I env \<Longrightarrow> keeping rec \<Longrightarrow> I w \<Longrightarrow> I (snd (try_servers rec env cfg name qtype e servers w))"
  by (induction servers arbitrary: e w)
    (auto simp: Let_def intro!: bind kept keepingD [of rec] split: sum.split option.split)

lemma resolveAt_keeps [kept]:
  "rely I env \<Longrightarrow> I w \<Longrightarrow> I (snd (resolveAt env cfg depth name qtype servers w))"
proof (induction env cfg depth name qtype servers w rule: resolveAt.induct)
  case (1 env cfg depth name qtype servers w)
  show ?case
  proof (cases "rs_MaxDepth (cfg_Resolver cfg) < int depth")
    case True
    with 1(3) show ?thesis by (simp add: resolveAt.simps [of env cfg depth])
  next
    case False
    with 1(1,2) have "keeping (resolveAt env cfg (Suc depth))" by (simp add: keeping_def)
    with False 1(2,3) show ?thesis
      by (auto simp: resolveAt.simps [of env cfg depth] resolve_body_def intro!: bind calls try_servers_keeps)
  qed
qed

subsection \<open>With DNSSEC\<close>

lemma verify_any_keeps [kept]: "rely I env \<Longrightarrow> I w \<Longrightarrow> I (snd (verify_any env keys rrs sigs tc raw w))"
  by (auto simp: verify_any_def intro!: bind kept)

lemma lookup_keys_keeps [kept]: "rely I env \<Longrightarrow> I w \<Longrightarrow> I (snd (lookup_keys env zone w))"
  unfolding lookup_keys_def
  by (intro bind calls; assumption?) (auto intro: Lookup_keeps split: prod.split)

lemma secFetchDNSKEY_keeps [kept]: "rely I env \<Longrightarrow> I w \<Longrightarrow> I (snd (secFetchDNSKEY env cfg servers zone w))"
proof (induction servers arbitrary: w)
  case (Cons sv svs)
  with query_keeps [of env w cfg "sv @ '':53''" zone TypeDNSKEY] show ?case
    by (cases "query env cfg (sv @ '':53'') zone TypeDNSKEY w") (auto split: sum.split)
qed simp

lemma fetch_keys_keeps [kept]: "rely I env \<Longrightarrow> I w \<Longrightarrow> I (snd (fetch_keys env cfg sfx servers zone rrs w))"
  by (auto simp: fetch_keys_def Let_def intro!: bind kept CacheKeys_keeps split: sum.split)

lemma query_ds_keeps [kept]: "rely I env \<Longrightarrow> I w \<Longrightarrow> I (snd (query_ds env cfg zone e servers w))"
  by (induction servers arbitrary: e w) (auto intro!: bind kept split: sum.split)

lemma secEstablish_keeps [kept]:
  "rely I env \<Longrightarrow> I w \<Longrightarrow> I (snd (secEstablishIntermediateKeys env cfg servers ctx zone w))"
  by (auto simp: secEstablishIntermediateKeys_def Let_def intro!: bind kept split: sum.split option.split)

lemma walk_zones_keeps [kept]: "rely I env \<Longrightarrow> I w \<Longrightarrow> I (snd (walk_zones env cfg servers ctx zones w))"
  by (induction zones arbitrary: ctx w) (auto intro!: bind kept split: sum.split option.split)

lemma secVerifyWithWalk_keeps [kept]:
  "rely I env \<Longrightarrow> I w \<Longrightarrow> I (snd (secVerifyWithWalk env cfg servers ctx rrs sigs tc raw w))"
  by (auto simp: secVerifyWithWalk_def secWalkToZone_def Let_def intro!: bind kept split: sum.split)

definition sec_keeping :: "'n sec_resolution \<Rightarrow> bool" where
  "sec_keeping rec \<longleftrightarrow> (\<forall>name qtype servers ctx w. I w \<longrightarrow> I (snd (rec name qtype servers ctx w)))"

lemma sec_keepingD: "sec_keeping rec \<Longrightarrow> I w \<Longrightarrow> I (snd (rec name qtype servers ctx w))"
  by (simp add: sec_keeping_def)

lemma sec_follow_keeps [kept]:
  "rely I env \<Longrightarrow> sec_keeping rec \<Longrightarrow> I w \<Longrightarrow> I (snd (sec_follow rec env cfg qtype resp rr target w))"
  by (auto simp: sec_follow_def intro!: bind bind_status kept sec_keepingD [of rec]
      split: sum.split bool.split option.split)

lemma sec_cname_keeps [kept]:
  "rely I env \<Longrightarrow> sec_keeping rec \<Longrightarrow> I w \<Longrightarrow> I (snd (sec_cname rec env cfg name qtype servers ctx resp rr w))"
  by (auto simp: sec_cname_def intro!: bind kept split: sum.split option.split)

lemma sec_answer_keeps [kept]:
  "rely I env \<Longrightarrow> I w \<Longrightarrow> I (snd (sec_answer env cfg name qtype servers ctx resp w))"
  by (auto simp: sec_answer_def Let_def intro!: bind kept split: option.split)

lemma child_context_keeps [kept]:
  "rely I env \<Longrightarrow> I w \<Longrightarrow> I (snd (child_context env cfg zone rrs servers w))"
  by (auto simp: child_context_def intro!: bind kept split: sum.split option.split)

lemma sec_descend_keeps [kept]:
  "rely I env \<Longrightarrow> sec_keeping rec \<Longrightarrow> I w \<Longrightarrow> I (snd (sec_descend rec env cfg name qtype zone rrs servers w))"
  by (auto simp: sec_descend_def intro!: bind kept sec_keepingD [of rec] split: sum.split)

lemma sec_try_servers_keeps [kept]:
  "rely I env \<Longrightarrow> sec_keeping rec \<Longrightarrow> keeping nsrec \<Longrightarrow> I w \<Longrightarrow>
   I (snd (sec_try_servers rec nsrec env cfg name qtype shuffled ctx e servers w))"
  by (induction servers arbitrary: e w)
    (auto simp: Let_def intro!: bind kept split: sum.split option.split)

lemma resolveAtDNSSEC_keeps [kept]:
  "rely I env \<Longrightarrow> I w \<Longrightarrow> I (snd (resolveAtDNSSEC env cfg depth name qtype servers ctx w))"
proof (induction env cfg depth name qtype servers ctx w rule: resolveAtDNSSEC.induct)
  case (1 env cfg depth name qtype servers ctx w)
  show ?case
  proof (cases "rs_MaxDepth (cfg_Resolver cfg) < int depth")
    case True
    with 1(3) show ?thesis by (simp add: resolveAtDNSSEC.simps [of env cfg depth])
  next
    case False
    obtain x y where "(x, y) = e_shuffle env servers w" by (metis prod.collapse)
    from 1(1) [OF False this 1(2)]
    have "sec_keeping (resolveAtDNSSEC env cfg (Suc depth))" by (simp add: sec_keeping_def)
    moreover have "keeping (resolveAt env cfg (Suc depth))" using 1(2) by (simp add: keeping_def resolveAt_keeps)
    ultimately show ?thesis using False 1(2,3)
      by (auto simp: resolveAtDNSSEC.simps [of env cfg depth] intro!: bind calls sec_try_servers_keeps)
  qed
qed

subsection \<open>Resolution\<close>

lemma lift_failure_keeps [kept]: "I (snd r) \<Longrightarrow> I (snd (lift_failure r))"
  by (auto simp: lift_failure_def intro!: bind split: sum.split)

lemma resolve_dnssec_keeps [kept]: "rely I env \<Longrightarrow> I w \<Longrightarrow> I (snd (resolve_dnssec env cfg name qtype w))"
  by (auto simp: resolve_dnssec_def intro!: bind bind_status kept split: sum.split)

lemma resolve_work_keeps [kept]: "rely I env \<Longrightarrow> I w \<Longrightarrow> I (snd (resolve_work env cfg val name qtype w))"
  by (auto simp: resolve_work_def Let_def intro!: bind kept split: sum.split option.split)

lemma record_outcome_keeps [kept]: "rely I env \<Longrightarrow> I w \<Longrightarrow> I (record_outcome env cfg name qtype r w)"
  by (auto simp: record_outcome_def rely_def intro!: bind_world calls Set_keeps SetNegative_keeps
      split: sum.split failure.split)

lemma resolve_keeps [kept]:
  "rely I env \<Longrightarrow> rely_join I join \<Longrightarrow> I w \<Longrightarrow> I (snd (resolve env join cfg val name qtype w))"
  by (auto simp: resolve_def rely_join_def intro!: bind kept split: bool.split option.split)

lemma prefetch_fn_keeps [kept]: "rely I env \<Longrightarrow> I w \<Longrightarrow> I (snd (prefetch_fn env cfg name qtype w))"
  by (auto simp: prefetch_fn_def Let_def intro!: bind kept split: option.split)

end

end
