(* ===== verification/Serving.thy ===== *)
theory Serving
  imports Interference HandleQuery ServerProps DashboardProps
begin

text \<open>
  The running server as one system: datagrams, requests to the dashboard, ticks and reloads change
  one state. While one of them waits, the others go on: what they can do is a relation on the
  state, \<open>access\<close>, with one case per operation on a shared component. Every step of the system is
  shown to be a sequence of such accesses, whatever accesses interleave with it, and each access
  keeps the bounds of the components; so they hold together in every state that is reached.
\<close>

subsection \<open>The handler under interference\<close>

text \<open>The contract of \<open>shared_world\<close> for an invariant that also speaks about the server's record.\<close>

locale shared_server = shared_world I for I :: "'s server_world \<Rightarrow> bool" +
  assumes log_keeps: "I w \<Longrightarrow> I (map_server (log_query status q pr t millis) w)"
    and limit_keeps: "I w \<Longrightarrow> sv_limiter (w_rest w) = Some l \<Longrightarrow> allow t ip l = (ok, l') \<Longrightarrow>
      I (map_server (sv_limiter_update (\<lambda>_. Some l')) w)"
    and counters_keep: "I w \<Longrightarrow>
      I (w\<lparr>w_rest := (w_rest w)\<lparr>sv_total := n1, sv_hits := n2, sv_blocked := n3, sv_latency := n4\<rparr>\<rparr>)"
begin

lemma count_keeps:
  assumes "I w"
  shows "I (w\<lparr>w_rest := (w_rest w)\<lparr>sv_total := a\<rparr>\<rparr>)" "I (w\<lparr>w_rest := (w_rest w)\<lparr>sv_latency := a\<rparr>\<rparr>)"
    "I (w\<lparr>w_rest := (w_rest w)\<lparr>sv_total := a, sv_blocked := b\<rparr>\<rparr>)"
    "I (w\<lparr>w_rest := (w_rest w)\<lparr>sv_latency := a, sv_hits := b\<rparr>\<rparr>)"
proof -
  let ?s = "w_rest w"
  have "?s\<lparr>sv_total := a\<rparr> = ?s\<lparr>sv_total := a, sv_hits := sv_hits ?s, sv_blocked := sv_blocked ?s, sv_latency := sv_latency ?s\<rparr>"
    "?s\<lparr>sv_latency := a\<rparr> = ?s\<lparr>sv_total := sv_total ?s, sv_hits := sv_hits ?s, sv_blocked := sv_blocked ?s, sv_latency := a\<rparr>"
    "?s\<lparr>sv_total := a, sv_blocked := b\<rparr> = ?s\<lparr>sv_total := a, sv_hits := sv_hits ?s, sv_blocked := b, sv_latency := sv_latency ?s\<rparr>"
    "?s\<lparr>sv_latency := a, sv_hits := b\<rparr> = ?s\<lparr>sv_total := sv_total ?s, sv_hits := b, sv_blocked := sv_blocked ?s, sv_latency := a\<rparr>"
    by simp_all
  with counters_keep [OF assms]
  show "I (w\<lparr>w_rest := ?s\<lparr>sv_total := a\<rparr>\<rparr>)" "I (w\<lparr>w_rest := ?s\<lparr>sv_latency := a\<rparr>\<rparr>)"
    "I (w\<lparr>w_rest := ?s\<lparr>sv_total := a, sv_blocked := b\<rparr>\<rparr>)" "I (w\<lparr>w_rest := ?s\<lparr>sv_latency := a, sv_hits := b\<rparr>\<rparr>)"
    by metis+
qed

lemma log_now_keeps [kept]: "rely I env \<Longrightarrow> I w \<Longrightarrow> I (log_now env status q pr start w)"
  by (auto simp: log_now_def intro!: bind_world calls log_keeps)

lemma limited_keeps [kept]: "rely I env \<Longrightarrow> I w \<Longrightarrow> I (snd (limited env ip w))"
  using calls(6) [of env w]
  by (cases "e_now env w") (auto simp: limited_def split: option.split prod.split intro: limit_keeps)

lemma handle_resolved_keeps [kept]:
  assumes "rely I env" "rely_join I join" "I w"
  shows "I (snd (handle_resolved env join pr start msg q w))"
proof -
  obtain r c w1 where run: "resolve env join (sv_cfg (w_rest w)) (sv_validator (w_rest w)) (q_name q) (q_type q) w = ((r, c), w1)"
    by (metis prod.collapse)
  with resolve_keeps [OF assms] have w1: "I w1" by (metis snd_conv)
  show ?thesis
    unfolding handle_resolved_def run Let_def
    using assms(1) w1
    by (cases r rule: sum.exhaust [case_product failure.exhaust])
      (auto intro!: bind calls log_keeps count_keeps split: sum.split failure.split)
qed

lemma handle_question_keeps [kept]:
  "rely I env \<Longrightarrow> rely_join I join \<Longrightarrow> I w \<Longrightarrow> I (snd (handle_question env join pr start msg q w))"
  by (auto simp: handle_question_def Let_def intro!: kept count_keeps)

lemma handleQuery_keeps [kept]:
  "rely I env \<Longrightarrow> rely_join I join \<Longrightarrow> I w \<Longrightarrow> I (snd (handleQuery env join pr raw w))"
  by (auto simp: handleQuery_def Let_def intro!: bind kept split: bool.split sum.split list.split)

end

subsection \<open>The invariant\<close>

text \<open>\<open>m\<close> is the capacity of a cache shard, not positive for an unbounded cache.\<close>

definition cache_ok :: "int \<Rightarrow> Cache \<Rightarrow> bool" where
  "cache_ok m c \<longleftrightarrow> cache_wf c \<and> maxPerShard c = m \<and> (0 < m \<longrightarrow> capped c)"

definition pools_ok :: "(transport \<Rightarrow> connPool) \<Rightarrow> bool" where
  "pools_ok p \<longleftrightarrow> (\<forall>tr. pool_wf (p tr) \<and> cp_maxPerServer (p tr) = (if tr = UDP then 16 else 4))"

definition limiter_ok :: "rateLimiter option \<Rightarrow> bool" where
  "limiter_ok l =
     (case l of
        None \<Rightarrow> True
      | Some r \<Rightarrow>
          distinct (map fst (rl_buckets r)) \<and> (\<exists>k. rl_burst r = of_int k \<and> \<bar>k\<bar> < 2 ^ 53) \<and>
          (\<forall>ip. tokens_of ip r \<le> rl_burst r))"

definition log_ok :: "QueryLog \<Rightarrow> bool" where
  "log_ok l \<longleftrightarrow> ql_ok l \<and> ql_max l = 500"

definition serving_ok :: "int \<Rightarrow> 's server_world \<Rightarrow> bool" where
  "serving_ok m w \<longleftrightarrow>
     cache_ok m (w_cache w) \<and> pools_ok (w_pools w) \<and>
     log_ok (sv_qlog (w_rest w)) \<and> limiter_ok (sv_limiter (w_rest w))"

lemma cache_ok_step: "cache_ok m c \<Longrightarrow> op_ok op \<Longrightarrow> cache_ok m (cache_step op c)"
  by (simp add: cache_ok_def cache_step_wf cache_step_capped maxPerShard_step)

lemma pools_ok_get:
  assumes "pools_ok p" "pool_get (\<lambda>_. None) 0 server (p tr) = (r, p')"
  shows "pools_ok (p(tr := p'))"
proof (cases r)
  case None
  with assms(2) have "p' = p tr" by (auto simp: pool_get_def Let_def split: if_splits)
  with assms(1) show ?thesis by simp
next
  case (Some pc)
  have "pool_wf (p tr)" "0 \<le> cp_maxPerServer (p tr)" using assms(1) by (simp_all add: pools_ok_def)
  with pool_get_conns [OF this] assms pool_get_max [OF assms(2)] Some show ?thesis
    by (auto simp: pools_ok_def)
qed

lemma pools_ok_put: "pools_ok p \<Longrightarrow> pools_ok (p(tr := fst (pool_put t server pc failed (p tr))))"
  using pool_put_conns [of "p tr" t server pc failed]
  by (cases "pool_put t server pc failed (p tr)") (auto simp: pools_ok_def)

lemma limiter_ok_allow: "limiter_ok (Some l) \<Longrightarrow> allow t ip l = (ok, l') \<Longrightarrow> limiter_ok (Some l')"
proof -
  assume l: "limiter_ok (Some l)" and "allow t ip l = (ok, l')"
  then have l': "l' = snd (allow t ip l)" by simp
  from l obtain k where "distinct (map fst (rl_buckets l))" "rl_burst l = of_int k" "\<bar>k\<bar> < 2 ^ 53"
    "\<And>ip. tokens_of ip l \<le> rl_burst l" by (auto simp: limiter_ok_def)
  with allow_capped [OF this(1-3)] buckets_distinct_allow [OF this(1), of t ip] show ?thesis
    by (auto simp: limiter_ok_def l')
qed

lemma log_ok_add: "log_ok l \<Longrightarrow> log_ok (ql_Add e l)"
  by (simp add: log_ok_def query_log.push_ok) (simp add: ql_Add_def)

subsection \<open>What goroutines do to the state\<close>

text \<open>
  One access of some goroutine: an operation of the cache, of a connection pool, of the log or of the
  rate limiter (these lock), any change of the validator, and any change of the rest of the
  server, such as the configuration and the records, which are written without a lock.
\<close>

inductive access :: "'s server_world \<Rightarrow> 's server_world \<Rightarrow> bool" where
  cache: "op_ok op \<Longrightarrow> access w (w\<lparr>w_cache := cache_step op (w_cache w)\<rparr>)"
| get: "pool_get (\<lambda>_. None) 0 server (w_pools w tr) = (r, p) \<Longrightarrow> access w (w\<lparr>w_pools := (w_pools w)(tr := p)\<rparr>)"
| put: "access w (w\<lparr>w_pools := (w_pools w)(tr := fst (pool_put t server pc failed (w_pools w tr)))\<rparr>)"
| reap: "access w (w\<lparr>w_pools := (w_pools w)(tr := fst (reapIdle now idle (w_pools w tr)))\<rparr>)"
| val: "access w (w\<lparr>w_val := v\<rparr>)"
| log: "access w (map_server (\<lambda>s. s\<lparr>sv_qlog := ql_Add e (sv_qlog s)\<rparr>) w)"
| limit: "sv_limiter (w_rest w) = Some l \<Longrightarrow> allow t ip l = (ok, l') \<Longrightarrow>
    access w (map_server (sv_limiter_update (\<lambda>_. Some l')) w)"
| rest: "sv_qlog s = sv_qlog (w_rest w) \<Longrightarrow> sv_limiter s = sv_limiter (w_rest w) \<Longrightarrow>
    access w (w\<lparr>w_rest := s\<rparr>)"

abbreviation accesses :: "'s server_world \<Rightarrow> 's server_world \<Rightarrow> bool" where
  "accesses \<equiv> access\<^sup>*\<^sup>*"

text \<open>The outside, during whose calls the other goroutines run: they access the state, any number of times.\<close>

definition meddles :: "'s Server_scheme env \<Rightarrow> bool" where
  "meddles env \<longleftrightarrow>
     permutes (e_order env) \<and>
     (\<forall>w. (\<forall>tr server. accesses w (snd (e_dial env tr server w))) \<and>
        (\<forall>c bs. accesses w (snd (e_datagram env c bs w))) \<and>
        (\<forall>tr c bs. accesses w (snd (e_stream env tr c bs w))) \<and>
        (\<forall>url bs. accesses w (snd (e_http env url bs w))) \<and>
        accesses w (snd (e_clock env w)) \<and> accesses w (snd (e_now env w)) \<and> accesses w (snd (e_rand env w)) \<and>
        (\<forall>xs. accesses w (snd (e_shuffle env xs w))) \<and> accesses w (snd (e_pick env w)))"

definition meddles_join :: "'s Server_scheme join \<Rightarrow> bool" where
  "meddles_join join \<longleftrightarrow> (\<forall>w key. accesses w (snd (join key w)))"

lemma accesses_step: "accesses w0 w \<Longrightarrow> access w w' \<Longrightarrow> accesses w0 w'"
  by (rule rtranclp.rtrancl_into_rtrancl)

text \<open>What was reached from some state by accesses stays so: the contract of the resolver and the handler.\<close>

interpretation reach: shared_server "accesses w0" for w0 :: "'s server_world"
proof
  fix w :: "'s server_world" and t1 t2 t3 prefetch name qtype r started c ord t msg ttl server tr p pc failed
  assume w: "accesses w0 w"
  show "pool_get (\<lambda>_. None) 0 server (w_pools w tr) = (r, p) \<Longrightarrow> accesses w0 (w\<lparr>w_pools := (w_pools w)(tr := p)\<rparr>)"
    for r :: "pooledConn option"
    by (rule accesses_step [OF w access.get])
  show "accesses w0 (w\<lparr>w_pools := (w_pools w)(tr := fst (pool_put t server pc failed (w_pools w tr)))\<rparr>)"
    by (rule accesses_step [OF w access.put])
  show "Get t1 t2 t3 prefetch name qtype (w_cache w) = (r, started, c) \<Longrightarrow> accesses w0 (w\<lparr>w_cache := c\<rparr>)"
    using accesses_step [OF w access.cache [of "OpGet t1 t2 t3 prefetch name qtype"]] by simp
  show "permutes ord \<Longrightarrow> accesses w0 (w\<lparr>w_cache := Set ord t name qtype msg (w_cache w)\<rparr>)"
    using accesses_step [OF w access.cache [of "OpSet ord t name qtype msg"]] by simp
  show "accesses w0 (w\<lparr>w_cache := SetNegative t name qtype ttl (w_cache w)\<rparr>)"
    using accesses_step [OF w access.cache [of "OpSetNegative t name qtype ttl"]] by simp
  show "LookupZoneKeys t zone (w_val w) = (ks, v) \<Longrightarrow> accesses w0 (w\<lparr>w_val := v\<rparr>)" for zone ks v
    by (rule accesses_step [OF w access.val])
  show "accesses w0 (w\<lparr>w_val := CacheZoneKeys t zone keys ttl32 (w_val w)\<rparr>)" for zone keys ttl32
    by (rule accesses_step [OF w access.val])
  show "accesses w0 (map_server (log_query status q pr t millis) w)" for status q pr millis
    unfolding log_query_def by (rule accesses_step [OF w access.log])
  show "sv_limiter (w_rest w) = Some l \<Longrightarrow> allow t ip l = (ok, l') \<Longrightarrow>
      accesses w0 (map_server (sv_limiter_update (\<lambda>_. Some l')) w)" for l ip ok l'
    by (rule accesses_step [OF w access.limit])
  show "accesses w0 (w\<lparr>w_rest := (w_rest w)\<lparr>sv_total := n1, sv_hits := n2, sv_blocked := n3, sv_latency := n4\<rparr>\<rparr>)"
    for n1 n2 n3 n4
    by (rule accesses_step [OF w access.rest]) simp_all
qed

lemma meddles_rely: "meddles env \<Longrightarrow> rely (accesses w0) env" "meddles_join join \<Longrightarrow> rely_join (accesses w0) join"
  unfolding meddles_def rely_def meddles_join_def rely_join_def by (meson rtranclp_trans)+

subsection \<open>What a request to the dashboard changes\<close>

text \<open>Nothing of the world, or the cache by a flush, or the server by one administrative operation.\<close>

definition administers :: "dash_env \<Rightarrow> 's dash \<Rightarrow> 's dash \<Rightarrow> bool" where
  "administers env d d' \<longleftrightarrow>
     da_world d' = da_world d \<or>
     (\<exists>clock mode. da_world d' = FlushCache clock mode (da_world d)) \<or>
     (\<exists>x s. admin (de_marshal env) x (dash_server d) = Some s \<and> da_world d' = (da_world d)\<lparr>w_rest := s\<rparr>)"

lemma administers_same: "da_world d' = da_world d \<Longrightarrow> administers env d d'"
  by (simp add: administers_def)

lemma administers_admin:
  "admin (de_marshal env) x (dash_server d) = Some s \<Longrightarrow> administers env d (put_server s d)"
  unfolding administers_def put_server_def by auto

lemma handlers_same:
  "administers env d (snd (login_page env rq d))" "administers env d (snd (login_challenge env rq d))"
  "administers env d (snd (api_login env rq d))" "administers env d (snd (api_logout env rq d))"
  "administers env d (snd (api_stats env rq d))" "administers env d (snd (api_history env rq d))"
  "administers env d (snd (metrics env rq d))" "administers env d (snd (api_filter_status env rq d))"
  "administers env d (snd (api_querylog env rq d))" "administers env d (snd (api_records env rq d))"
  "administers env d (snd (api_update env rq d))" "administers env d (snd (api_settings_get env rq d))"
  "administers env d (snd (home_page env rq d))"
  by (rule administers_same;
      simp add: login_page_def login_challenge_def api_login_def api_logout_def metrics_def guarded_handlers
        guarded_def Let_def split: option.split prod.split)+

lemma handlers_admin:
  "administers env d (snd (api_filter_add env rq d))" "administers env d (snd (api_filter_remove env rq d))"
    "administers env d (snd (api_filter_mode env rq d))" "administers env d (snd (api_settings env rq d))"
    "administers env d (snd (api_records_remove env rq d))" "administers env d (snd (api_records_add env rq d))"
    "administers env d (snd (api_cache_flush env rq d))"
proof -
  note defs = guarded_def post_only_def Let_def
  note same = administers_same [OF refl]
  have added: "administers env d (put_server s d)"
    if "AddRecord (de_marshal env) r (dash_server d) = Some (Inr (s, doc))" for r s doc
    using administers_admin [of env "OpAddRecord r" d s] that by simp
  show "administers env d (snd (api_filter_add env rq d))"
    using administers_admin [of env "OpAddBlock _" d]
    by (auto simp: api_filter_add_def defs same split: option.split)
  show "administers env d (snd (api_filter_remove env rq d))"
    using administers_admin [of env "OpRemoveBlock _" d]
    by (auto simp: api_filter_remove_def defs same split: option.split)
  show "administers env d (snd (api_filter_mode env rq d))"
    using administers_admin [of env "OpSetFilterMode _" d]
    by (auto simp: api_filter_mode_def defs same case_prod_beta split: option.split)
  show "administers env d (snd (api_settings env rq d))"
    using administers_admin [of env "OpUpdateSettings _ _ _ _" d]
    by (auto simp: api_settings_def defs same case_prod_beta split: option.split)
  show "administers env d (snd (api_records_remove env rq d))"
    using administers_admin [of env "OpRemoveRecord _ _" d]
    by (auto simp: api_records_remove_def defs same split: option.split prod.split)
  show "administers env d (snd (api_records_add env rq d))"
    using added by (auto simp: api_records_add_def defs same split: option.split prod.split sum.split)
  show "administers env d (snd (api_cache_flush env rq d))"
    by (auto simp: api_cache_flush_def defs administers_def)
qed

lemma dashboard_administers:
  fixes d :: "'s dash"
  shows "administers env d (snd (dashboard env rq d))"
proof (cases "map_of (routes :: (string \<times> (dash_env \<Rightarrow> http_request \<Rightarrow> 's dash \<Rightarrow> response \<times> 's dash)) list) (rq_path rq)")
  case None
  then show ?thesis by (simp add: dashboard_def handlers_same)
next
  case (Some h)
  then have "(rq_path rq, h) \<in> set routes" by (rule map_of_SomeD)
  then have "administers env d (snd (h env rq d))"
    using handlers_same [of env d rq] handlers_admin [of env d rq] by (auto simp: routes_def)
  with Some show ?thesis by (simp add: dashboard_def)
qed

subsection \<open>The system\<close>

text \<open>
  One step: a datagram is handled, a request to the dashboard is answered, the filter is reloaded (on
  SIGHUP, by its ticker), statistics are sampled, idle connections and expired entries go, a
  prefetch refreshes an entry, or expired login challenges are removed. While a datagram is handled or
  a prefetch runs, the others access the state as they like. A last step is an access of any
  goroutine that is not accounted for otherwise, such as a request to the dashboard that is in the
  middle of what it does.
\<close>

inductive served :: "'s dash \<Rightarrow> 's dash \<Rightarrow> bool" where
  query: "meddles env \<Longrightarrow> meddles_join join \<Longrightarrow>
    served d (d\<lparr>da_world := snd (handleQuery env join pr raw (da_world d))\<rparr>)"
| request: "served d (snd (dashboard denv rq d))"
| reload: "served d (put_server (ReloadFilters src (dash_server d)) d)"
| sample: "served d (put_server (snd (sample_tick prev (dash_server d))) d)"
| janitor: "served d (d\<lparr>da_world := snd (janitor_tick now (da_world d))\<rparr>)"
| evict: "served d (d\<lparr>da_world := (da_world d)\<lparr>w_cache := evict_tick now (w_cache (da_world d))\<rparr>\<rparr>)"
| prefetch: "meddles env \<Longrightarrow> prefetch_fn env cfg name qtype (da_world d) = (r, w) \<Longrightarrow>
    served d (d\<lparr>da_world := w\<lparr>w_cache := prefetch_done (e_order env) now i name qtype
      (case r of Inl _ \<Rightarrow> None | Inr msg \<Rightarrow> Some msg) (w_cache w)\<rparr>\<rparr>)"
| sweep: "served d (d\<lparr>da_nonces := nonce_sweep now (da_nonces d)\<rparr>)"
| other: "access (da_world d) w \<Longrightarrow> served d (d\<lparr>da_world := w\<rparr>)"

lemma admin_frame:
  assumes "admin marshal x s = Some s'"
  shows "sv_qlog s' = sv_qlog s \<and> sv_limiter s' = sv_limiter s"
proof (cases x)
  case (OpSample prev)
  with assms show ?thesis by (cases prev) (auto simp: sample_tick_def)
next
  case (OpAddRecord r)
  with assms show ?thesis
    by (auto simp: AddRecord_def set_records_def split: option.splits sum.splits record_error.splits)
qed (use assms in \<open>auto simp: AddBlock_def RemoveBlock_def SetFilterMode_def map_filtering_def ReloadFilters_def
      RemoveRecord_def set_records_def UpdateSettings_def Let_def\<close>)

lemma admin_access:
  "admin marshal x (w_rest w) = Some s \<Longrightarrow> access w (w\<lparr>w_rest := s\<rparr>)"
  using admin_frame [of marshal x "w_rest w" s] by (auto intro: access.rest)

lemma administers_access: "administers env d d' \<Longrightarrow> accesses (da_world d) (da_world d')"
  using access.cache [of "OpFlush _ _" "da_world d"] admin_access [of _ _ "da_world d"]
  by (auto simp: administers_def FlushCache_def intro: r_into_rtranclp)

lemma janitor_access:
  fixes w :: "'s server_world"
  shows "accesses w (snd (janitor_tick now w))"
proof -
  define reap where "reap tr w = w\<lparr>w_pools := (w_pools w)(tr := fst (reapIdle now poolIdleTimeout (w_pools w tr)))\<rparr>"
    for tr and w :: "'s server_world"
  have "access w (reap tr w)" for tr w unfolding reap_def by (rule access.reap)
  then have "accesses w (reap DoT (reap TCP (reap UDP w)))"
    by (meson accesses_step r_into_rtranclp)
  moreover have "(\<lambda>tr. fst (reapIdle now poolIdleTimeout (w_pools w tr))) =
      (w_pools w)(UDP := fst (reapIdle now poolIdleTimeout (w_pools w UDP)),
        TCP := fst (reapIdle now poolIdleTimeout (w_pools w TCP)), DoT := fst (reapIdle now poolIdleTimeout (w_pools w DoT)))"
  proof
    fix tr
    show "fst (reapIdle now poolIdleTimeout (w_pools w tr)) =
      ((w_pools w)(UDP := fst (reapIdle now poolIdleTimeout (w_pools w UDP)),
        TCP := fst (reapIdle now poolIdleTimeout (w_pools w TCP)), DoT := fst (reapIdle now poolIdleTimeout (w_pools w DoT)))) tr"
      by (cases tr) simp_all
  qed
  ultimately show ?thesis by (simp add: reap_def janitor_tick_def Let_def)
qed

lemma served_access:
  assumes "served d d'"
  shows "accesses (da_world d) (da_world d')"
  using assms
proof cases
  case (query env join pr raw)
  from reach.handleQuery_keeps [OF meddles_rely(1) [OF query(2)] meddles_rely(2) [OF query(3)] rtranclp.rtrancl_refl]
  show ?thesis by (simp add: query(1))
next
  case (request denv rq)
  then show ?thesis using administers_access [OF dashboard_administers] by simp
next
  case (reload src)
  with admin_access [of _ "OpReload src" "da_world d"] show ?thesis by (auto simp: put_server_def)
next
  case (sample prev)
  with admin_access [of _ "OpSample prev" "da_world d"] show ?thesis by (auto simp: put_server_def)
next
  case (janitor now)
  with janitor_access show ?thesis by simp
next
  case (evict now)
  with access.cache [of "OpEvict now" "da_world d"] show ?thesis by auto
next
  case (prefetch env cfg name qtype r w now i)
  have "accesses (da_world d) w"
    using reach.prefetch_fn_keeps [OF meddles_rely(1) [OF prefetch(2)] rtranclp.rtrancl_refl] prefetch(3)
    by (metis snd_conv)
  moreover have "op_ok (OpPrefetchDone (e_order env) now i name qtype (case r of Inl _ \<Rightarrow> None | Inr msg \<Rightarrow> Some msg))"
    using prefetch(2) by (simp add: meddles_def)
  ultimately show ?thesis using accesses_step [OF _ access.cache] prefetch(1) by fastforce
qed auto

lemma access_keeps:
  assumes "access w w'" "serving_ok m w"
  shows "serving_ok m w'"
  using assms(1)
proof cases
  case (reap tr now idle)
  obtain p dead where r: "reapIdle now idle (w_pools w tr) = (p, dead)" by fastforce
  have "pools_ok ((w_pools w)(tr := fst (reapIdle now idle (w_pools w tr))))"
    using assms(2) reapIdle_conns [of "w_pools w tr"] r by (auto simp: serving_ok_def pools_ok_def)
  with reap assms(2) show ?thesis by (simp add: serving_ok_def)
next
  case (get server tr r p)
  with assms(2) pools_ok_get show ?thesis by (simp add: serving_ok_def)
next
  case (limit l t ip ok l')
  with assms(2) have "limiter_ok (Some l')" by (auto simp: serving_ok_def intro: limiter_ok_allow)
  with limit assms(2) show ?thesis by (simp add: serving_ok_def)
qed (use assms(2) in \<open>simp_all add: serving_ok_def cache_ok_step pools_ok_put log_ok_add\<close>)

lemma accesses_keep: "accesses w w' \<Longrightarrow> serving_ok m w \<Longrightarrow> serving_ok m w'"
  by (induction rule: rtranclp_induct) (auto intro: access_keeps)

lemma served_all_keep: "served\<^sup>*\<^sup>* d d' \<Longrightarrow> serving_ok m (da_world d) \<Longrightarrow> serving_ok m (da_world d')"
  by (induction rule: rtranclp_induct) (auto dest: served_access accesses_keep)

subsection \<open>The start\<close>

text \<open>The capacity of a shard, for a server with this configuration.\<close>

definition shard_cap :: "Config \<Rightarrow> int" where
  "shard_cap cfg = maxPerShard (start_cache True 0 (cc_MaxSize (rs_Cache (cfg_Resolver cfg))))"

lemma shard_cap:
  assumes "0 < cc_MaxSize (rs_Cache (cfg_Resolver cfg))" "cc_MaxSize (rs_Cache (cfg_Resolver cfg)) < 2 ^ 62"
  shows "shard_cap cfg = (cc_MaxSize (rs_Cache (cfg_Resolver cfg)) + 63) div 64"
  using assms
  by (simp add: shard_cap_def start_cache_def SetMaxSize_def SetMinTTL_def SetPrefetchFn_def numShards_def wrap64_id
      signed_divide_int_def sgn_if)

definition fresh_dash :: "'s server_world \<Rightarrow> 's dash" where
  "fresh_dash w = \<lparr>da_nonces = [], da_update = \<lparr>uc_cached = None, uc_cachedAt = 0\<rparr>, da_world = w\<rparr>"

lemma New_world:
  assumes "New opens src now cfg = Some w"
  shows "maxPerShard (w_cache w) = shard_cap cfg" "cache_wf (w_cache w)"
    "list_all (\<lambda>s. entries s = []) (shards (w_cache w))" "w_pools w = new_pools"
    "sv_qlog (w_rest w) = newQueryLog opens 500 (srv_QueryLogFile (cfg_Server cfg))"
    "sv_limiter (w_rest w) = (let rl = rs_RateLimit (cfg_Resolver cfg)
       in if rl_Enabled rl then Some (newRateLimiter (rl_QPS rl) (rl_Burst rl)) else None)"
  using assms start_cache_wf
  by (auto simp: New_def Let_def shard_cap_def start_cache_def SetPrefetchFn_def SetMaxSize_def SetMinTTL_def
      cache_wf_iff NewCache_def numShards_def list_all_iff split: option.splits prod.splits if_splits)

lemma New_serving_ok:
  assumes "New opens src now cfg = Some w" "\<bar>rl_Burst (rs_RateLimit (cfg_Resolver cfg))\<bar> < 2 ^ 53"
  shows "serving_ok (shard_cap cfg) w"
proof -
  note w = New_world [OF assms(1)]
  have "cache_ok (shard_cap cfg) (w_cache w)"
    using w(1-3) by (simp add: cache_ok_def capped_def list_all_iff)
  moreover have "pools_ok (w_pools w)"
    by (simp add: w(4) pools_ok_def new_pools_def newConnPool_def pool_wf_def poolNumShards_def list_all_iff
        split: transport.split)
  moreover have "log_ok (sv_qlog (w_rest w))"
    by (simp add: w(5) log_ok_def ql_ok_def newQueryLog_def)
  moreover have "limiter_ok (sv_limiter (w_rest w))"
    using assms(2) round64_of_int [OF assms(2)]
    by (auto simp: w(6) limiter_ok_def newRateLimiter_def tokens_of_def Let_def)
  ultimately show ?thesis by (simp add: serving_ok_def)
qed

text \<open>
  C5: in every state that a running server reaches, whatever datagrams, requests to the dashboard,
  reloads, ticks and prefetches there are, and whatever accesses of other goroutines interleave with
  them, the bounds of all components hold together: the cache stays below its size plus 64, no
  upstream server has more than 16 (UDP) or 4 idle connections, the query log gives at most 500
  entries, and no client has more tokens than the burst.
\<close>

theorem serving_invariant:
  assumes "New opens src now cfg = Some w0" "\<bar>rl_Burst (rs_RateLimit (cfg_Resolver cfg))\<bar> < 2 ^ 53"
    and "0 < cc_MaxSize (rs_Cache (cfg_Resolver cfg))" "cc_MaxSize (rs_Cache (cfg_Resolver cfg)) < 2 ^ 62"
    and "served\<^sup>*\<^sup>* (fresh_dash w0) d"
  shows "int (Size (w_cache (da_world d))) < cc_MaxSize (rs_Cache (cfg_Resolver cfg)) + 64 \<and>
    int (length (conns (w_pools (da_world d) tr) server)) \<le> (if tr = UDP then 16 else 4) \<and>
    (case RecentQueries k (dash_server d) of None \<Rightarrow> k < 0 | Some es \<Rightarrow> length es \<le> 500) \<and>
    (case sv_limiter (dash_server d) of None \<Rightarrow> True | Some l \<Rightarrow> tokens_of ip l \<le> rl_burst l)"
proof -
  define n where "n = cc_MaxSize (rs_Cache (cfg_Resolver cfg))"
  have "serving_ok (shard_cap cfg) (da_world (fresh_dash w0))"
    using New_serving_ok [OF assms(1,2)] by (simp add: fresh_dash_def)
  from served_all_keep [OF assms(5) this] have ok: "serving_ok (shard_cap cfg) (da_world d)" .
  have cap: "shard_cap cfg = (n + 63) div 64" using shard_cap [OF assms(3,4)] by (simp add: n_def)
  have "0 < (n + 63) div 64"
    using assms(3) zdiv_mono1 [of 64 "n + 63" 64] by (simp add: n_def)
  with ok cap have "cache_wf (w_cache (da_world d))" "capped (w_cache (da_world d))"
    "maxPerShard (w_cache (da_world d)) = (n + 63) div 64"
    by (simp_all add: serving_ok_def cache_ok_def)
  with Size_capped [of "w_cache (da_world d)"] have "int (Size (w_cache (da_world d))) \<le> 64 * ((n + 63) div 64)"
    by (simp add: numShards_def)
  also have "\<dots> < n + 64"
    using div_mult_mod_eq [of "n + 63" 64] pos_mod_sign [of 64 "n + 63"] by linarith
  finally have size: "int (Size (w_cache (da_world d))) < n + 64" .
  have "int (length (conns (w_pools (da_world d) tr) server)) \<le> (if tr = UDP then 16 else 4)"
    using ok conns_bounded [of "w_pools (da_world d) tr" server] by (auto simp: serving_ok_def pools_ok_def)
  moreover have "case RecentQueries k (dash_server d) of None \<Rightarrow> k < 0 | Some es \<Rightarrow> length es \<le> 500"
    using ok Recent_contents [of "sv_qlog (dash_server d)" k]
    by (cases "0 \<le> k")
      (auto simp: RecentQueries_def serving_ok_def log_ok_def ql_ok_def ql_contents_def Recent_def Let_def split: option.split)
  moreover have "case sv_limiter (dash_server d) of None \<Rightarrow> True | Some l \<Rightarrow> tokens_of ip l \<le> rl_burst l"
    using ok by (auto simp: serving_ok_def limiter_ok_def split: option.splits)
  ultimately show ?thesis using size ok by (simp add: n_def)
qed

subsection \<open>An example\<close>

definition vx_cfg :: Config where
  "vx_cfg = defaults\<lparr>cfg_Resolver := (cfg_Resolver defaults)\<lparr>rs_Cache :=
     (rs_Cache (cfg_Resolver defaults))\<lparr>cc_MaxSize := 100\<rparr>\<rparr>\<rparr>"

definition vx_src :: list_sources where
  "vx_src = \<lparr>ls_http = (\<lambda>_. None), ls_file = (\<lambda>_. None)\<rparr>"

text \<open>A request that blocks a name, then an answer that some goroutine stores.\<close>

definition vx_op :: cache_op where
  "vx_op = OpSet (\<lambda>xs. xs) 5 ''a'' TypeA sample_answer"

lemma serving_invariant_witness:
  "\<exists>w0. New (\<lambda>_. False) vx_src 1 vx_cfg = Some w0 \<and>
     int (Size (cache_step vx_op (w_cache (da_world (snd (dashboard dx_env dx_request (fresh_dash w0))))))) < 164"
proof -
  have "cfg_Records vx_cfg = []" by (simp add: vx_cfg_def defaults_def)
  then have "NewRecordStore (cfg_Records vx_cfg) = Some []" by (simp add: NewRecordStore_def)
  then obtain w0 where w0: "New (\<lambda>_. False) vx_src 1 vx_cfg = Some w0"
    by (simp add: New_def Let_def) (simp add: vx_cfg_def defaults_def)
  let ?d = "snd (dashboard dx_env dx_request (fresh_dash w0))"
  have "op_ok vx_op" by (simp add: vx_op_def permutes_def)
  from served.request served.other [OF access.cache [OF this]]
  have "served (fresh_dash w0) ?d"
    "served ?d (?d\<lparr>da_world := (da_world ?d)\<lparr>w_cache := cache_step vx_op (w_cache (da_world ?d))\<rparr>\<rparr>)" .
  then have "served\<^sup>*\<^sup>* (fresh_dash w0) (?d\<lparr>da_world := (da_world ?d)\<lparr>w_cache := cache_step vx_op (w_cache (da_world ?d))\<rparr>\<rparr>)"
    by (meson converse_rtranclp_into_rtranclp r_into_rtranclp)
  note serving_invariant [OF w0 _ _ _ this]
  moreover have "rl_Burst (rs_RateLimit (cfg_Resolver vx_cfg)) = 200" "cc_MaxSize (rs_Cache (cfg_Resolver vx_cfg)) = 100"
    by (simp_all add: vx_cfg_def defaults_def)
  ultimately show ?thesis using w0 by simp
qed

end
