(* ===== verification/Bench.thy ===== *)
theory Bench
  imports GoFormat Config DnsMessage
begin

text \<open>
  The benchmark \<open>bench.go\<close>: its own encoder of queries, the workers that share a channel of queries
  and a counter, the statistics of a phase, and the tables that it prints. Durations are
  nanoseconds. What the network does is an argument; how the workers interleave is the step
  relation \<open>bench_step\<close>.
\<close>

subsection \<open>Queries\<close>

text \<open>\<open>id\<close> is drawn from 1 to 65534.\<close>

definition bench_packet :: "u16 \<Rightarrow> string \<Rightarrow> u16 \<Rightarrow> byte list" where
  "bench_packet i name qtype =
     put16 i @ [1, 0, 0, 1, 0, 0, 0, 0, 0, 0] @
     concat (map (\<lambda>l. of_nat (length l) # bytes_of l) (split_on CHR ''.'' (trim_suffix name ''.''))) @ [0] @
     put16 qtype @ [0, 1]"

datatype bench_error = DialFailed string | WriteFailed string | ReadFailed string | ShortResponse nat | BadRcode nat

text \<open>What the network does with one query, and the clock at its start and at each return.\<close>

record bench_net =
  bq_dial :: "string option"
  bq_write :: "byte list \<Rightarrow> string option"
  bq_read :: "string + byte list"
  bq_start :: int
  bq_dialled :: int
  bq_written :: int
  bq_answered :: int

text \<open>The buffer has 512 bytes, so a longer datagram is cut.\<close>

definition dnsQuery :: "bench_net \<Rightarrow> u16 \<Rightarrow> string \<Rightarrow> u16 \<Rightarrow> int \<times> bench_error option" where
  "dnsQuery net i name qtype =
     (case bq_dial net of
        Some e \<Rightarrow> (time_sub (bq_dialled net) (bq_start net), Some (DialFailed e))
      | None \<Rightarrow>
          (case bq_write net (bench_packet i name qtype) of
             Some e \<Rightarrow> (time_sub (bq_written net) (bq_start net), Some (WriteFailed e))
           | None \<Rightarrow>
               (let elapsed = time_sub (bq_answered net) (bq_start net)
                in case bq_read net of
                     Inl e \<Rightarrow> (elapsed, Some (ReadFailed e))
                   | Inr dg \<Rightarrow>
                       let buf = take 512 dg
                       in if length buf < 4 then (elapsed, Some (ShortResponse (length buf)))
                          else let rcode = unat (buf ! 3 AND 0x0F)
                               in if rcode \<noteq> 0 \<and> rcode \<noteq> 3 then (elapsed, Some (BadRcode rcode))
                                  else (elapsed, None))))"

type_synonym bquery = "string \<times> u16"

definition benchQueries :: "bquery list" where
  "benchQueries =
     map (\<lambda>n. (n, TypeA))
       [''google.com'', ''cloudflare.com'', ''github.com'', ''youtube.com'', ''reddit.com'', ''amazon.com'',
        ''apple.com'', ''microsoft.com'', ''netflix.com'', ''wikipedia.org'', ''instagram.com'', ''linkedin.com'',
        ''stackoverflow.com'', ''golang.org'', ''python.org'', ''npmjs.com'', ''docker.com'', ''kubernetes.io'',
        ''aws.amazon.com'', ''icloud.com'', ''spotify.com'', ''discord.com'', ''slack.com'', ''zoom.us'', ''fastly.com'',
        ''akamai.com'', ''cdn.jsdelivr.net'', ''fonts.googleapis.com'', ''api.github.com'', ''raw.githubusercontent.com''] @
     map (\<lambda>n. (n, TypeAAAA)) [''google.com'', ''cloudflare.com'', ''netflix.com'', ''facebook.com'', ''twitter.com''] @
     map (\<lambda>n. (n, TypeMX)) [''gmail.com'', ''yahoo.com'', ''outlook.com'', ''protonmail.com'', ''fastmail.com''] @
     map (\<lambda>n. (n, TypeTXT)) [''google.com'', ''github.com'', ''cloudflare.com'']"

subsection \<open>The workers of a phase\<close>

text \<open>A result that was never stored is the zero value: no latency and no error.\<close>

record bresult =
  br_lat :: int
  br_err :: "bench_error option"

datatype worker = Waiting | Took bquery | Numbered bquery nat | Finished

record bench_state =
  bn_work :: "bquery list"
  bn_counter :: nat
  bn_results :: "bresult list"
  bn_workers :: "worker list"

definition phase_work :: "bquery list \<Rightarrow> nat \<Rightarrow> bquery list" where
  "phase_work qs m = map (\<lambda>i. qs ! (i mod length qs)) [0..<m]"

text \<open>
  A negative number of clients starts none. A negative total, and an empty list of queries with a
  positive total, panic before any worker runs.
\<close>

definition phase_start :: "bquery list \<Rightarrow> int \<Rightarrow> int \<Rightarrow> bench_state option" where
  "phase_start qs clients m =
     (if m < 0 \<or> (qs = [] \<and> 0 < m) then None
      else Some \<lparr>bn_work = phase_work qs (nat m), bn_counter = 0,
        bn_results = replicate (nat m) \<lparr>br_lat = 0, br_err = None\<rparr>,
        bn_workers = replicate (nat clients) Waiting\<rparr>)"

definition set_worker :: "nat \<Rightarrow> worker \<Rightarrow> bench_state \<Rightarrow> bench_state" where
  "set_worker k x s = s\<lparr>bn_workers := (bn_workers s)[k := x]\<rparr>"

type_synonym stored = "nat \<times> bquery \<times> bresult"

text \<open>
  Worker \<open>k\<close> receives a query from the channel, or finds it closed and empty; draws its number; and
  stores the result of the query under that number, whatever the query gave. A step that stores a
  result is labelled with it.
\<close>

inductive bench_step :: "bench_state \<Rightarrow> stored option \<Rightarrow> bench_state \<Rightarrow> bool" where
  receive: "k < length (bn_workers s) \<Longrightarrow> bn_workers s ! k = Waiting \<Longrightarrow> bn_work s = q # qs \<Longrightarrow>
    bench_step s None (set_worker k (Took q) (s\<lparr>bn_work := qs\<rparr>))"
| closed: "k < length (bn_workers s) \<Longrightarrow> bn_workers s ! k = Waiting \<Longrightarrow> bn_work s = [] \<Longrightarrow>
    bench_step s None (set_worker k Finished s)"
| count: "k < length (bn_workers s) \<Longrightarrow> bn_workers s ! k = Took q \<Longrightarrow>
    bench_step s None (set_worker k (Numbered q (bn_counter s)) (s\<lparr>bn_counter := bn_counter s + 1\<rparr>))"
| store: "k < length (bn_workers s) \<Longrightarrow> bn_workers s ! k = Numbered q i \<Longrightarrow>
    dnsQuery net rnd (fst q) (snd q) = (lat, err) \<Longrightarrow>
    bench_step s (Some (i, q, \<lparr>br_lat = lat, br_err = err\<rparr>))
      (set_worker k Waiting (s\<lparr>bn_results := (bn_results s)[i := \<lparr>br_lat = lat, br_err = err\<rparr>]\<rparr>))"

inductive_cases bench_stepE: "bench_step s e s'"

text \<open>A run of the workers, with the results in the order in which they were stored.\<close>

inductive bench_run :: "bench_state \<Rightarrow> stored list \<Rightarrow> bench_state \<Rightarrow> bool" for s where
  start: "bench_run s [] s"
| quiet: "bench_run s l s1 \<Longrightarrow> bench_step s1 None s2 \<Longrightarrow> bench_run s l s2"
| noted: "bench_run s l s1 \<Longrightarrow> bench_step s1 (Some e) s2 \<Longrightarrow> bench_run s (l @ [e]) s2"

definition all_finished :: "bench_state \<Rightarrow> bool" where
  "all_finished s \<longleftrightarrow> list_all (\<lambda>x. x = Finished) (bn_workers s)"

subsection \<open>Statistics\<close>

record phaseStats =
  ps_label :: string
  ps_total :: int
  ps_success :: nat
  ps_errors :: nat
  ps_elapsed :: int
  ps_lats :: "int list"

definition collect :: "string \<Rightarrow> int \<Rightarrow> int \<Rightarrow> bresult list \<Rightarrow> phaseStats" where
  "collect label m elapsed results =
     (let s = fold (\<lambda>r s. if br_err r \<noteq> None then s\<lparr>ps_errors := ps_errors s + 1\<rparr>
                          else s\<lparr>ps_success := ps_success s + 1, ps_lats := ps_lats s @ [br_lat r]\<rparr>) results
                \<lparr>ps_label = label, ps_total = m, ps_success = 0, ps_errors = 0, ps_elapsed = elapsed, ps_lats = []\<rparr>
      in s\<lparr>ps_lats := sort (ps_lats s)\<rparr>)"

definition throughput :: "phaseStats \<Rightarrow> rat" where
  "throughput s =
     (if ps_elapsed s = 0 then 0
      else round64 (round64 (of_int (ps_total s)) / duration_seconds (ps_elapsed s)))"

text \<open>\<open>pct\<close> is called with 0, 50, 95, 99 and 100.\<close>

definition pct_index :: "nat \<Rightarrow> nat \<Rightarrow> nat" where
  "pct_index p n =
     (let idx = \<lceil>round64 (round64 (of_nat p / 100) * round64 (of_nat n))\<rceil> - 1;
          idx = (if idx < 0 then 0 else idx);
          idx = (if int n \<le> idx then int n - 1 else idx)
      in nat idx)"

definition pct :: "nat \<Rightarrow> phaseStats \<Rightarrow> int" where
  "pct p s = (if ps_lats s = [] then 0 else ps_lats s ! pct_index p (length (ps_lats s)))"

subsection \<open>Tables\<close>

definition millisecond :: int where
  "millisecond = 1000000"

definition micro :: string where
  "micro = uni 0xB5"

definition fmtDur :: "int \<Rightarrow> string" where
  "fmtDur d =
     (if d = 0 then ''---''
      else if d < millisecond then int_string (d sdiv 1000) @ '' '' @ micro @ ''s''
      else fixed1 (round64 (round64 (of_int (d sdiv 1000)) / 1000)) @ '' ms'')"

definition fmtThroughput :: "rat \<Rightarrow> string" where
  "fmtThroughput qps =
     (if 1000 \<le> qps then fixed1 (round64 (qps / 1000)) @ '' k/s'' else fixed0 qps @ '' q/s'')"

definition labelW :: nat where
  "labelW = 22"

definition column_width :: "phaseStats list \<Rightarrow> nat" where
  "column_width cols = fold (\<lambda>c w. if w < length (ps_label c) then length (ps_label c) else w) cols 16"

definition repeat_str :: "string \<Rightarrow> nat \<Rightarrow> string" where
  "repeat_str s n = concat (replicate n s)"

definition table_sep :: "nat \<Rightarrow> nat \<Rightarrow> nat \<Rightarrow> nat \<Rightarrow> nat \<Rightarrow> nat \<Rightarrow> string" where
  "table_sep colW ncols l mid r h =
     uni l @ repeat_str (uni h) (labelW + 2) @
     repeat_str (uni mid @ repeat_str (uni h) (colW + 2)) ncols @ uni r"

text \<open>The number of micro signs in a string, \<open>strings.Count\<close>.\<close>

fun count_micro :: "string \<Rightarrow> nat" where
  "count_micro (a # b # s) = (if [a, b] = micro then Suc (count_micro s) else count_micro (b # s))"
| "count_micro _ = 0"

definition cell :: "string \<Rightarrow> nat \<Rightarrow> string" where
  "cell s width = pad_left (width + count_micro s) s"

definition bar :: string where
  "bar = uni 0x2502"

definition table_row :: "nat \<Rightarrow> string \<Rightarrow> string list \<Rightarrow> string" where
  "table_row colW label vals =
     bar @ '' '' @ pad_right labelW label @ concat (map (\<lambda>v. '' '' @ bar @ '' '' @ cell v colW) vals) @ '' '' @ bar"

definition header_row :: "nat \<Rightarrow> phaseStats list \<Rightarrow> string" where
  "header_row colW cols =
     bar @ '' '' @ pad_right labelW [] @ concat (map (\<lambda>c. '' '' @ bar @ '' '' @ pad_right colW (ps_label c)) cols) @
     '' '' @ bar"

definition table_lines :: "string \<Rightarrow> phaseStats list \<Rightarrow> string list" where
  "table_lines title cols =
     (let w = column_width cols; k = length cols;
          row = (\<lambda>label f. table_row w label (map f cols))
      in ['''', title,
          table_sep w k 0x250C 0x252C 0x2510 0x2500,
          header_row w cols,
          table_sep w k 0x251C 0x253C 0x2524 0x2500,
          row ''Queries'' (\<lambda>c. int_string (ps_total c)),
          row ''Successful'' (\<lambda>c. dec_string (ps_success c)),
          row ''Errors'' (\<lambda>c. dec_string (ps_errors c)),
          row ''Throughput'' (\<lambda>c. fmtThroughput (throughput c)),
          table_sep w k 0x251C 0x253C 0x2524 0x2500,
          row ''Min latency'' (\<lambda>c. fmtDur (pct 0 c)),
          row ''P50 latency'' (\<lambda>c. fmtDur (pct 50 c)),
          row ''P95 latency'' (\<lambda>c. fmtDur (pct 95 c)),
          row ''P99 latency'' (\<lambda>c. fmtDur (pct 99 c)),
          row ''Max latency'' (\<lambda>c. fmtDur (pct 100 c)),
          table_sep w k 0x2514 0x2534 0x2518 0x2500])"

subsection \<open>The run\<close>

text \<open>\<open>None\<close>: the panic of an integer division by zero.\<close>

definition stress_queries :: "int \<Rightarrow> int \<Rightarrow> int \<Rightarrow> int option" where
  "stress_queries clients queries stress =
     (if clients = 0 then None
      else let n = wrap64 (stress * wrap64 (queries sdiv clients))
           in Some (if n < queries then queries else n))"

text \<open>
  The phases in their order: what is announced, and then the label, the server, the clients and the
  queries of a call of \<open>runPhase\<close>.
\<close>

type_synonym phase_call = "string \<times> string \<times> int \<times> int"

definition bench_phases :: "string \<Rightarrow> string \<Rightarrow> int \<Rightarrow> int \<Rightarrow> int \<Rightarrow> string \<Rightarrow> (string list \<times> phase_call) list option" where
  "bench_phases kmAddr upAddr clients queries stress timeout =
     (case stress_queries clients queries stress of
        None \<Rightarrow> None
      | Some stressQueries \<Rightarrow>
          Some
            [(['''', ''kmresolv Benchmark'', ''=================='', ''kmresolv : '' @ kmAddr, ''Upstream : '' @ upAddr,
               ''Clients  : '' @ int_string clients @ ''  |  Queries/phase : '' @ int_string queries @ ''  |  Timeout : '' @ timeout,
               ''Domains  : '' @ dec_string (length benchQueries) @ ''  |  Types : A, AAAA, MX, TXT'', '''',
               ''Phase 1/4 '' @ uni 0x2014 @ '' Cold: kmresolv with empty cache (also warms cache for later phases)''],
              (''kmresolv (cold)'', kmAddr, clients, queries)),
             (['''', ''Phase 2/4 '' @ uni 0x2014 @ '' Repeated domains via '' @ upAddr], (upAddr, upAddr, clients, queries)),
             (['''', ''Phase 3/4 '' @ uni 0x2014 @ '' Repeated domains via kmresolv (warm cache)''],
              (''kmresolv (warm)'', kmAddr, clients, queries)),
             (['''', ''Phase 4/4 '' @ uni 0x2014 @ '' Burst stress: '' @ int_string stress @ '' clients, '' @
                 int_string stressQueries @ '' queries'', ''  '' @ upAddr @ '':''],
              (upAddr @ '' (burst)'', upAddr, stress, stressQueries)),
             ([''  kmresolv:''], (''kmresolv (burst)'', kmAddr, stress, stressQueries))])"

text \<open>The three lines that compare two phases, when both have a median.\<close>

definition ratio :: "rat \<Rightarrow> rat \<Rightarrow> string" where
  "ratio a b = pad_left 6 (fixed1 (round64 (a / b)))"

definition arrow :: "string \<Rightarrow> string \<Rightarrow> string" where
  "arrow a b = ''('' @ a @ '' '' @ uni 0x2192 @ '' '' @ b @ '')''"

definition duration_ratio :: "nat \<Rightarrow> phaseStats \<Rightarrow> phaseStats \<Rightarrow> string" where
  "duration_ratio p a b = ratio (round64 (of_int (pct p a))) (round64 (of_int (pct p b)))"

definition speedup_lines :: "string list \<Rightarrow> phaseStats \<Rightarrow> phaseStats \<Rightarrow> string list" where
  "speedup_lines heading a b =
     (if 0 < pct 50 a \<and> 0 < pct 50 b then
        heading @
        [''    P50  '' @ duration_ratio 50 a b @ ''x faster   '' @ arrow (fmtDur (pct 50 a)) (fmtDur (pct 50 b)),
         ''    P99  '' @ duration_ratio 99 a b @ ''x faster   '' @ arrow (fmtDur (pct 99 a)) (fmtDur (pct 99 b)),
         ''    Throughput  '' @ ratio (throughput b) (throughput a) @ ''x higher  '' @
           arrow (fmtThroughput (throughput a)) (fmtThroughput (throughput b))]
      else [])"

text \<open>What is printed behind the phases: tables, comparisons, and the note about errors.\<close>

definition bench_report :: "string \<Rightarrow> string \<Rightarrow> int \<Rightarrow>
    phaseStats \<Rightarrow> phaseStats \<Rightarrow> phaseStats \<Rightarrow> phaseStats \<Rightarrow> phaseStats \<Rightarrow> string list \<times> string list" where
  "bench_report kmAddr upAddr stress kmCold upRepeated kmRepeated upBurst kmBurst =
     (table_lines (''Cold vs Warm  (kmresolv cache miss '' @ uni 0x2192 @ '' hit vs upstream)'') [kmCold, upRepeated, kmRepeated] @
      table_lines (''Burst Stress Test  ('' @ int_string stress @ '' concurrent clients)'') [upBurst, kmBurst] @
      [''''] @
      speedup_lines [''  Cold '' @ uni 0x2192 @ '' warm speedup (kmresolv cache effect):''] kmCold kmRepeated @
      speedup_lines ['''', ''  Warm-cache speedup vs '' @ upAddr @ '':''] upRepeated kmRepeated @
      speedup_lines ['''', ''  Burst-stress speedup vs '' @ upAddr @ '':''] upBurst kmBurst @
      [''''],
      if 0 < ps_errors kmRepeated \<or> 0 < ps_errors kmBurst
      then [''  Note: kmresolv had errors '' @ uni 0x2014 @ '' check it is running and listening on '' @ kmAddr] else [])"

end
