(* ===== verification/BenchProps.thy ===== *)
theory BenchProps
  imports Bench HandleProps "HOL-Library.Multiset"
begin

text \<open>
  What the benchmark measures: the workers of a phase run every query once and keep its result, a
  phase comes to an end, the percentiles are nearest ranks, the packets are those of the server's
  encoder. And two slips: a phase without clients counts every query as answered, and latencies
  below a millisecond shift a table's row.
\<close>

subsection \<open>Workers\<close>

text \<open>What a worker holds, and how many steps it can still take on its own.\<close>

fun held :: "worker \<Rightarrow> bquery list" where
  "held (Took q) = [q]"
| "held (Numbered q i) = [q]"
| "held _ = []"

fun number :: "worker \<Rightarrow> nat list" where
  "number (Numbered q i) = [i]"
| "number _ = []"

fun steps_left :: "worker \<Rightarrow> nat" where
  "steps_left Finished = 0"
| "steps_left Waiting = 1"
| "steps_left (Numbered q i) = 2"
| "steps_left (Took q) = 3"

definition gather :: "(worker \<Rightarrow> 'a list) \<Rightarrow> worker list \<Rightarrow> 'a multiset" where
  "gather f ws = mset (concat (map f ws))"

lemma split_at:
  assumes "k < length ws" "ws ! k = x"
  obtains a b where "ws = a @ x # b" "\<And>y. ws[k := y] = a @ y # b"
  using assms by (metis id_take_nth_drop upd_conv_take_nth_drop)

lemma gather_update:
  assumes "k < length ws" "ws ! k = x"
  shows "gather f (ws[k := y]) + mset (f x) = gather f ws + mset (f y)"
proof -
  obtain a b where "ws = a @ x # b" "ws[k := y] = a @ y # b" using split_at [OF assms] by metis
  then show ?thesis by (simp add: gather_def)
qed

lemma sum_update:
  fixes f :: "'a \<Rightarrow> nat"
  assumes "k < length ws" "ws ! k = x"
  shows "sum_list (map f (ws[k := y])) + f x = sum_list (map f ws) + f y"
proof -
  obtain a b where "ws = a @ x # b" "ws[k := y] = a @ y # b" using split_at [OF assms] by metis
  then show ?thesis by simp
qed

definition bench_left :: "bench_state \<Rightarrow> nat" where
  "bench_left s = 4 * length (bn_work s) + sum_list (map steps_left (bn_workers s))"

lemma bench_step_less: "bench_step s e s' \<Longrightarrow> bench_left s' < bench_left s"
proof (induction rule: bench_step.induct)
  case (receive k s q qs)
  with sum_update [of k "bn_workers s" Waiting steps_left "Took q"] show ?case
    by (simp add: bench_left_def set_worker_def)
next
  case (closed k s)
  with sum_update [of k "bn_workers s" Waiting steps_left Finished] show ?case
    by (simp add: bench_left_def set_worker_def)
next
  case (count k s q)
  with sum_update [of k "bn_workers s" "Took q" steps_left "Numbered q (bn_counter s)"] show ?case
    by (simp add: bench_left_def set_worker_def)
next
  case (store k s q i net rnd lat err)
  with sum_update [of k "bn_workers s" "Numbered q i" steps_left Waiting] show ?case
    by (simp add: bench_left_def set_worker_def)
qed

lemma bench_step_exists:
  assumes "\<not> all_finished s"
  shows "\<exists>e s'. bench_step s e s'"
proof -
  from assms obtain k where k: "k < length (bn_workers s)" "bn_workers s ! k \<noteq> Finished"
    by (auto simp: all_finished_def list_all_length)
  show ?thesis
  proof (cases "bn_workers s ! k")
    case Waiting
    with k show ?thesis by (cases "bn_work s") (blast intro: bench_step.receive bench_step.closed)+
  next
    case (Took q)
    with k bench_step.count [of k s q] show ?thesis by blast
  next
    case (Numbered q i)
    with k bench_step.store [of k s q i] show ?thesis by (metis surj_pair)
  qed (use k in simp)
qed

text \<open>
  The invariant: every query of the phase is in the channel, held by a worker or stored; every number
  below the counter was drawn by one worker, which holds it or has stored its result under it; and
  the results are the zero values except where one was stored.
\<close>

definition put_result :: "stored \<Rightarrow> bresult list \<Rightarrow> bresult list" where
  "put_result e rs = rs[fst e := snd (snd e)]"

definition bench_inv :: "bquery list \<Rightarrow> stored list \<Rightarrow> bench_state \<Rightarrow> bool" where
  "bench_inv work l s \<longleftrightarrow>
     mset (bn_work s) + gather held (bn_workers s) + mset (map (fst \<circ> snd) l) = mset work \<and>
     gather number (bn_workers s) + mset (map fst l) = mset [0..<bn_counter s] \<and>
     bn_results s = fold put_result l (replicate (length work) \<lparr>br_lat = 0, br_err = None\<rparr>)"

lemma gather_replicate [simp]: "f Waiting = [] \<Longrightarrow> gather f (replicate n Waiting) = {#}"
  by (induction n) (simp_all add: gather_def)

lemma bench_inv_step:
  assumes "bench_step s e s'" "bench_inv work l s"
  shows "bench_inv work (l @ (case e of None \<Rightarrow> [] | Some x \<Rightarrow> [x])) s'"
  using assms
proof (induction rule: bench_step.induct)
  case (receive k s q qs)
  with gather_update [of k "bn_workers s" Waiting held "Took q"] gather_update [of k "bn_workers s" Waiting number "Took q"]
  show ?case by (simp add: bench_inv_def set_worker_def)
next
  case (closed k s)
  with gather_update [of k "bn_workers s" Waiting held Finished] gather_update [of k "bn_workers s" Waiting number Finished]
  show ?case by (simp add: bench_inv_def set_worker_def)
next
  case (count k s q)
  with gather_update [of k "bn_workers s" "Took q" held "Numbered q (bn_counter s)"]
    gather_update [of k "bn_workers s" "Took q" number "Numbered q (bn_counter s)"]
  show ?case by (simp add: bench_inv_def set_worker_def)
next
  case (store k s q i net rnd lat err)
  from gather_update [OF store(1,2), of held Waiting] gather_update [OF store(1,2), of number Waiting]
  have "gather held (bn_workers s) = add_mset q (gather held ((bn_workers s)[k := Waiting]))"
    "gather number (bn_workers s) = add_mset i (gather number ((bn_workers s)[k := Waiting]))"
    by simp_all
  with store(4) show ?case by (simp add: bench_inv_def set_worker_def put_result_def)
qed

lemma bench_run_inv:
  assumes "bench_run s0 l s" "bench_inv work [] s0"
  shows "bench_inv work l s"
  using assms(1)
proof induction
  case start
  show ?case by (rule assms(2))
next
  case (quiet l s1 s2)
  with bench_inv_step [OF quiet(2)] show ?case by fastforce
next
  case (noted l s1 e s2)
  with bench_inv_step [OF noted(2)] show ?case by fastforce
qed

lemma phase_start_inv:
  "phase_start qs clients n = Some s0 \<Longrightarrow> bench_inv (phase_work qs (nat n)) [] s0"
  by (auto simp: phase_start_def bench_inv_def phase_work_def split: if_splits)

text \<open>No worker stops before the channel is empty, and none appears or disappears.\<close>

definition crew_inv :: "nat \<Rightarrow> bench_state \<Rightarrow> bool" where
  "crew_inv n s \<longleftrightarrow> length (bn_workers s) = n \<and> (Finished \<in> set (bn_workers s) \<longrightarrow> bn_work s = [])"

lemma in_set_update: "x \<in> set (ws[k := y]) \<Longrightarrow> x = y \<or> x \<in> set ws"
  using set_update_subset_insert [of ws k y] by auto

lemma crew_inv_step: "bench_step s e s' \<Longrightarrow> crew_inv n s \<Longrightarrow> crew_inv n s'"
  by (induction rule: bench_step.induct) (auto simp: crew_inv_def set_worker_def dest: in_set_update)

lemma crew_inv_run: "bench_run s0 l s \<Longrightarrow> crew_inv n s0 \<Longrightarrow> crew_inv n s"
  by (induction rule: bench_run.induct) (auto intro: crew_inv_step)

lemma length_put_results [simp]: "length (fold put_result l rs) = length rs"
  by (induction l arbitrary: rs) (simp_all add: put_result_def)

lemma length_put_result [simp]: "length (put_result e rs) = length rs"
  by (simp add: put_result_def)

lemma put_result_nth: "fst e < length rs \<Longrightarrow> put_result e rs ! fst e = snd (snd e)"
  by (simp add: put_result_def)

lemma put_results_other: "i \<notin> set (map fst l) \<Longrightarrow> fold put_result l rs ! i = rs ! i"
  by (induction l arbitrary: rs) (auto simp: put_result_def)

lemma put_results_nth:
  "distinct (map fst l) \<Longrightarrow> e \<in> set l \<Longrightarrow> fst e < length rs \<Longrightarrow> fold put_result l rs ! fst e = snd (snd e)"
proof (induction l arbitrary: rs)
  case (Cons a l)
  show ?case
  proof (cases "e = a")
    case True
    with Cons.prems put_results_other [of "fst e" l "put_result a rs"] show ?thesis by (simp add: put_result_nth)
  next
    case False
    with Cons show ?thesis by simp
  qed
qed simp

lemma mset_put_results:
  assumes "mset (map fst l) = mset [0..<length rs]"
  shows "mset (fold put_result l rs) = mset (map (snd \<circ> snd) l)"
proof -
  let ?r = "fold put_result l rs"
  have "distinct (map fst l)" "set (map fst l) = {0..<length rs}"
    using mset_eq_imp_distinct_iff [OF assms] mset_eq_setD [OF assms] by simp_all
  then have "?r ! fst e = snd (snd e)" if "e \<in> set l" for e
    using that by (intro put_results_nth) auto
  then have same: "map (\<lambda>e. ?r ! fst e) l = map (snd \<circ> snd) l" by simp
  have "mset ?r = mset (map ((!) ?r) [0..<length rs])" using map_nth [of ?r] by simp
  also have "\<dots> = image_mset ((!) ?r) (mset (map fst l))" using assms by simp
  also have "\<dots> = mset (map (\<lambda>e. ?r ! fst e) l)" by (simp add: multiset.map_comp comp_def)
  finally show ?thesis using same by simp
qed

lemma collect_eq:
  "collect lb m el rs = \<lparr>ps_label = lb, ps_total = m,
     ps_success = length (filter (\<lambda>r. br_err r = None) rs), ps_errors = length (filter (\<lambda>r. br_err r \<noteq> None) rs),
     ps_elapsed = el, ps_lats = sort (map br_lat (filter (\<lambda>r. br_err r = None) rs))\<rparr>"
proof -
  let ?f = "\<lambda>r s. if br_err r \<noteq> None then s\<lparr>ps_errors := ps_errors s + 1\<rparr>
                  else s\<lparr>ps_success := ps_success s + 1, ps_lats := ps_lats s @ [br_lat r]\<rparr>"
  have "fold ?f rs s = s\<lparr>ps_success := ps_success s + length (filter (\<lambda>r. br_err r = None) rs),
      ps_errors := ps_errors s + length (filter (\<lambda>r. br_err r \<noteq> None) rs),
      ps_lats := ps_lats s @ map br_lat (filter (\<lambda>r. br_err r = None) rs)\<rparr>" for s
    by (induction rs arbitrary: s) simp_all
  note loop = this
  show ?thesis unfolding collect_def loop Let_def by simp
qed

text \<open>The statistics do not depend on the order of the results.\<close>

lemma collect_mset:
  assumes "mset rs = mset rs'"
  shows "collect lb m el rs = collect lb m el rs'"
proof -
  have "mset (filter P rs) = mset (filter P rs')" for P using assms by simp
  then have "length (filter P rs) = length (filter P rs')"
    "sort (map br_lat (filter P rs)) = sort (map br_lat (filter P rs'))" for P
    by (metis mset_eq_length, metis mset_map sorted_list_of_multiset_mset)
  then show ?thesis by (simp add: collect_eq)
qed

text \<open>
  C22: a phase of the benchmark runs every query once and keeps every result: when the workers of a
  phase with at least one client are done, the queries run are those of the phase, each as often as it
  was put in the channel, their numbers are 0 up to the total without a gap or a repetition, and the
  statistics are those of the queries' own results, in whatever order the workers took their steps.
\<close>

theorem phase_measures_every_query:
  assumes "phase_start qs clients m = Some s0" "0 < clients" "bench_run s0 l s" "all_finished s"
  shows "mset (map (fst \<circ> snd) l) = mset (phase_work qs (nat m)) \<and>
    mset (map fst l) = mset [0..<nat m] \<and>
    collect lb m el (bn_results s) = collect lb m el (map (snd \<circ> snd) l)"
proof -
  let ?w = "phase_work qs (nat m)"
  have inv: "bench_inv ?w l s" using bench_run_inv [OF assms(3) phase_start_inv [OF assms(1)]] .
  have "crew_inv (nat clients) s0" using assms(1) by (auto simp: phase_start_def crew_inv_def split: if_splits)
  then have crew: "crew_inv (nat clients) s" by (rule crew_inv_run [OF assms(3)])
  with assms(2) have "bn_workers s \<noteq> []" by (auto simp: crew_inv_def)
  with assms(4) have "Finished \<in> set (bn_workers s)" by (cases "bn_workers s") (auto simp: all_finished_def)
  with crew have "bn_work s = []" by (simp add: crew_inv_def)
  have none: "gather f (bn_workers s) = {#}" if "f Finished = []" for f :: "worker \<Rightarrow> 'b list"
    using assms(4) that by (auto simp: gather_def all_finished_def list_all_iff)
  from inv \<open>bn_work s = []\<close> have log: "mset (map (fst \<circ> snd) l) = mset ?w" "mset (map fst l) = mset [0..<bn_counter s]"
    by (simp_all add: bench_inv_def none)
  then have "bn_counter s = length ?w" by (metis length_map length_upt mset_eq_length minus_nat.diff_0)
  moreover have "length ?w = nat m" by (simp add: phase_work_def)
  ultimately have "mset (bn_results s) = mset (map (snd \<circ> snd) l)"
    using inv log(2) mset_put_results [of l "replicate (nat m) \<lparr>br_lat = 0, br_err = None\<rparr>"]
    by (simp add: bench_inv_def)
  with log \<open>bn_counter s = _\<close> \<open>length ?w = _\<close> show ?thesis by (simp add: collect_mset)
qed

lemma phase_measures_every_query_witness:
  "\<exists>q r s0 s. phase_start [q] 1 1 = Some s0 \<and> bench_run s0 [(0, q, r)] s \<and> all_finished s \<and>
    collect ''c'' 1 5 (bn_results s) = collect ''c'' 1 5 [r]"
proof -
  define q :: bquery where "q = (''a'', 1)"
  define r where "r = \<lparr>br_lat = 3, br_err = Some (DialFailed ''x'')\<rparr>"
  define net where "net = \<lparr>bq_dial = Some ''x'', bq_write = (\<lambda>_. None), bq_read = Inl [], bq_start = 0,
    bq_dialled = 3, bq_written = 0, bq_answered = 0\<rparr>"
  define stage where "stage = (\<lambda>w c rs x. \<lparr>bn_work = w, bn_counter = c, bn_results = rs, bn_workers = [x]\<rparr>)"
  define s0 where "s0 = stage [q] 0 [\<lparr>br_lat = 0, br_err = None\<rparr>] Waiting"
  have start: "phase_start [q] 1 1 = Some s0"
    by (simp add: phase_start_def phase_work_def s0_def stage_def)
  have "bench_step s0 None (stage [] 0 [\<lparr>br_lat = 0, br_err = None\<rparr>] (Took q))"
    using bench_step.receive [of 0 s0 q "[]"] by (simp add: s0_def stage_def set_worker_def)
  moreover have "bench_step (stage [] 0 rs (Took q)) None (stage [] 1 rs (Numbered q 0))" for rs
    using bench_step.count [of 0 "stage [] 0 rs (Took q)" q] by (simp add: stage_def set_worker_def)
  moreover have "dnsQuery net 1 (fst q) (snd q) = (3, Some (DialFailed ''x''))"
    by (simp add: dnsQuery_def net_def time_sub_def)
  then have "bench_step (stage [] 1 [z] (Numbered q 0)) (Some (0, q, r)) (stage [] 1 [r] Waiting)" for z
    using bench_step.store [of 0 "stage [] 1 [z] (Numbered q 0)" q 0 net 1] by (simp add: stage_def set_worker_def r_def)
  moreover have "bench_step (stage [] 1 [r] Waiting) None (stage [] 1 [r] Finished)"
    using bench_step.closed [of 0 "stage [] 1 [r] Waiting"] by (simp add: stage_def set_worker_def)
  ultimately have run: "bench_run s0 ([] @ [(0, q, r)]) (stage [] 1 [r] Finished)"
    by (meson bench_run.intros)
  have "all_finished (stage [] 1 [r] Finished)" by (simp add: all_finished_def stage_def)
  with start run phase_measures_every_query [OF start _ run, where lb = "''c''" and el = 5] show ?thesis by fastforce
qed

text \<open>
  Without clients no query is run, and each counts as answered.
\<close>

lemma no_clients_succeed:
  assumes "phase_start qs clients m = Some s0" "clients \<le> 0"
  shows "all_finished s0 \<and> ps_success (collect lb m el (bn_results s0)) = nat m \<and>
    ps_errors (collect lb m el (bn_results s0)) = 0"
  using assms by (auto simp: phase_start_def all_finished_def collect_eq split: if_splits)

subsection \<open>Percentiles\<close>

lemma percents:
  "round64 (19 / 20) = 8556839292003942 / 9007199254740992" "round64 (99 / 100) = 8917127262193582 / 9007199254740992"
  "round64 (1 / 2) = 1 / 2"
  by code_simp+

lemma ceil_round64_product:
  assumes c: "c \<le> of_nat p / 100" "of_nat p / 100 - 1 / 2 ^ 50 \<le> c" and n: "n < 2 ^ 40" "p \<le> 100"
  shows "\<lceil>round64 (c * of_nat n)\<rceil> = int ((p * n + 99) div 100)"
proof -
  define r :: rat where "r = of_nat (p * n) / 100"
  define k where "k = int ((p * n + 99) div 100)"
  have pn: "p * n < 100 * 2 ^ 40" using n mult_le_mono [of p 100 n n] by linarith
  have kn: "int (p * n) \<le> 100 * k" "100 * k \<le> int (p * n) + 99" unfolding k_def by linarith+
  have r: "r \<le> of_int k" "of_int k - 99 / 100 \<le> r"
    using kn(1) [THEN of_int_le_iff [where 'a = rat, THEN iffD2]]
      kn(2) [THEN of_int_le_iff [where 'a = rat, THEN iffD2]]
    by (simp_all add: r_def)
  have k: "0 \<le> k" "k \<le> 2 ^ 40" using pn kn by (simp_all add: k_def)
  have le: "c * of_nat n \<le> of_int k"
    using mult_right_mono [OF c(1), of "of_nat n"] r(1) by (simp add: r_def)
  have "of_nat n / 2 ^ 50 \<le> (1 / 2 ^ 10 :: rat)"
    using n(1) [THEN of_nat_mono [where 'a = rat, OF less_imp_le]] by simp
  moreover have "r - of_nat n / 2 ^ 50 \<le> c * of_nat n"
    using mult_right_mono [OF c(2), of "of_nat n"] by (simp add: r_def algebra_simps)
  ultimately have "of_int (128 * (k - 1) + 1) * 2 powi (- 7) \<le> c * of_nat n"
    using r(2) by (simp add: power_int_minus)
  from round64_mono [OF this] have "of_int (128 * (k - 1) + 1) * 2 powi (- 7) \<le> round64 (c * of_nat n)"
    by (subst (asm) round64_fix) (use k in simp_all)
  then have "of_int (k - 1) < round64 (c * of_nat n)" by (simp add: power_int_minus)
  moreover have "round64 (c * of_nat n) \<le> of_int k"
    using round64_mono [OF le] k by simp
  ultimately show ?thesis unfolding k_def [symmetric] by (intro ceiling_unique) simp_all
qed
lemma pct_index_eq:
  assumes "p \<in> {50, 95, 99, 100}" "0 < n" "n < 2 ^ 40"
  shows "pct_index p n = (p * n + 99) div 100 - 1"
proof -
  have "\<lceil>round64 (round64 (of_nat p / 100) * of_nat n)\<rceil> = int ((p * n + 99) div 100)"
    using assms round64_of_int [of 1] by (intro ceil_round64_product) (auto simp: percents)
  moreover have "round64 (of_nat n) = of_nat n" using round64_of_int [of "int n"] assms(3) by simp
  moreover have "1 \<le> (p * n + 99) div 100" "(p * n + 99) div 100 \<le> n" using assms by auto
  ultimately show ?thesis by (simp add: pct_index_def Let_def nat_diff_distrib)
qed

lemma ceil_step:
  fixes a :: nat
  assumes "1 \<le> a"
  shows "a \<le> 100 * Suc ((a + 99) div 100 - 1) \<and> 100 * ((a + 99) div 100 - 1) < a"
proof -
  have "100 * ((a + 99) div 100) \<le> a + 99" "a + 99 < 100 * Suc ((a + 99) div 100)"
    using div_mult_mod_eq [of "a + 99" 100] mod_less_divisor [of 100 "a + 99"] by simp_all
  with assms show ?thesis by (cases "(a + 99) div 100") simp_all
qed

lemma sorted_rank:
  assumes "sorted xs" "i < length xs"
  shows "Suc i \<le> length (filter (\<lambda>x. x \<le> xs ! i) xs)" "length (filter (\<lambda>x. x < xs ! i) xs) \<le> i"
proof -
  have "filter (\<lambda>x. x \<le> xs ! i) (take (Suc i) xs) = take (Suc i) xs"
    using assms by (auto simp: filter_id_conv in_set_conv_nth less_Suc_eq_le sorted_iff_nth_mono)
  moreover have "filter (\<lambda>x. x \<le> xs ! i) xs =
      filter (\<lambda>x. x \<le> xs ! i) (take (Suc i) xs) @ filter (\<lambda>x. x \<le> xs ! i) (drop (Suc i) xs)"
    by (metis append_take_drop_id filter_append)
  ultimately show "Suc i \<le> length (filter (\<lambda>x. x \<le> xs ! i) xs)" using assms(2) by simp
  have "filter (\<lambda>x. x < xs ! i) (drop i xs) = []"
    using assms by (auto simp: filter_empty_conv in_set_conv_nth not_less sorted_iff_nth_mono)
  moreover have "filter (\<lambda>x. x < xs ! i) xs =
      filter (\<lambda>x. x < xs ! i) (take i xs) @ filter (\<lambda>x. x < xs ! i) (drop i xs)"
    by (metis append_take_drop_id filter_append)
  ultimately show "length (filter (\<lambda>x. x < xs ! i) xs) \<le> i"
    using assms(2) length_filter_le [of "\<lambda>x. x < xs ! i" "take i xs"] by simp
qed

text \<open>
  C23: the P50, P95, P99 and Max latencies of a phase are nearest-rank percentiles of the latencies of
  its answered queries: one of them, with at least that share of them not above it and less than that
  share below it. The rank is computed in floating point, where 95/100 and 99/100 are not exact; the
  rounding does not reach the rank for fewer than \<open>2 ^ 40\<close> answers.
\<close>

theorem percentile_is_nearest_rank:
  assumes "p \<in> {50, 95, 99, 100}" "filter (\<lambda>r. br_err r = None) rs \<noteq> []" "length rs < 2 ^ 40"
  shows "let answered = map br_lat (filter (\<lambda>r. br_err r = None) rs); t = pct p (collect lb m el rs)
    in t \<in> set answered \<and> p * length answered \<le> 100 * length (filter (\<lambda>d. d \<le> t) answered) \<and>
      100 * length (filter (\<lambda>d. d < t) answered) < p * length answered"
proof -
  define answered where "answered = map br_lat (filter (\<lambda>r. br_err r = None) rs)"
  define t where "t = pct p (collect lb m el rs)"
  define xs where "xs = sort answered"
  define i where "i = pct_index p (length answered)"
  have n: "0 < length answered" "length answered < 2 ^ 40"
    using assms(2,3) le_less_trans [OF length_filter_le [of "\<lambda>r. br_err r = None" rs]]
    by (simp_all add: answered_def)
  have i: "i = (p * length answered + 99) div 100 - 1" unfolding i_def by (rule pct_index_eq [OF assms(1) n])
  have "1 \<le> p" "p \<le> 100" using assms(1) by auto
  with n(1) have pn: "1 \<le> p * length answered" "p * length answered \<le> 100 * length answered"
    by (simp_all add: Suc_le_eq)
  have rank: "i < length xs" "p * length answered \<le> 100 * Suc i" "100 * i < p * length answered"
    using pn ceil_step [OF pn(1)] unfolding i xs_def length_sort by linarith+
  have "xs \<noteq> []" using rank(1) by auto
  then have t: "t = xs ! i" by (simp add: t_def pct_def collect_eq xs_def i_def answered_def)
  have same: "length (filter P answered) = length (filter P xs)" for P
    by (metis xs_def mset_sort mset_filter size_mset)
  have "t \<in> set xs" using rank(1) by (simp add: t)
  then have "t \<in> set answered" by (simp add: xs_def)
  with sorted_rank [OF _ rank(1)] rank(2,3)
  have "t \<in> set answered \<and> p * length answered \<le> 100 * length (filter (\<lambda>d. d \<le> t) answered) \<and>
      100 * length (filter (\<lambda>d. d < t) answered) < p * length answered"
    by (fastforce simp: same t xs_def)
  then show ?thesis by (simp add: answered_def t_def)
qed

lemma percentile_is_nearest_rank_witness:
  "let answered = map br_lat [\<lparr>br_lat = 7, br_err = None\<rparr>, \<lparr>br_lat = 4, br_err = None\<rparr>]; t = (4 :: int)
   in 50 * length answered \<le> 100 * length (filter (\<lambda>d. d \<le> t) answered) \<and>
      pct 50 (collect [] 2 9 [\<lparr>br_lat = 7, br_err = None\<rparr>, \<lparr>br_lat = 4, br_err = None\<rparr>]) = t"
proof -
  let ?rs = "[\<lparr>br_lat = 7, br_err = None\<rparr>, \<lparr>br_lat = 4, br_err = None\<rparr>]"
  have "pct 50 (collect [] 2 9 ?rs) = 4"
    by (simp add: pct_def collect_eq pct_index_eq)
  with percentile_is_nearest_rank [of 50 ?rs "[]" 2 9] show ?thesis by simp
qed

subsection \<open>Packets\<close>

definition bench_query :: "u16 \<Rightarrow> bquery \<Rightarrow> message" where
  "bench_query i q =
     empty_message\<lparr>ID := i, Flags := 0x0100, Questions := [\<lparr>q_name = fst q, q_type = snd q, q_class = 1\<rparr>]\<rparr>"

lemma ok_name_no_dot: "ok_name n \<Longrightarrow> n \<noteq> [] \<Longrightarrow> trim_suffix n ''.'' = n"
  using join_ok_ends [of "split_on CHR ''.'' n"]
  by (auto simp: ok_name_def join_split suffix_dot_iff intro!: trim_suffix_none)

lemma bench_packet_packs:
  assumes "ok_name name" "name \<noteq> []"
  shows "bench_packet i name t = Pack (bench_query i (name, t))"
  using assms
  by (subst one_question_packet [of _ "\<lparr>q_name = name, q_type = t, q_class = 1\<rparr>"])
    (simp_all add: bench_query_def bench_packet_def wire_name_of_def pack_header_def put16_def pack_label_def [abs_def]
      ok_name_no_dot empty_message_def)

lemma benchQueries_ok: "list_all (\<lambda>q. ok_name (fst q) \<and> fst q \<noteq> []) benchQueries"
  by (simp add: benchQueries_def ok_name_def ok_label_def is_ascii_def ascii_char_def)

lemma bench_packet_read:
  assumes "q \<in> set benchQueries"
  shows "\<exists>m. ParseMessage (bench_packet i (fst q) (snd q)) = Inr m \<and> ID m = i \<and>
    Questions m = [\<lparr>q_name = fst q, q_type = snd q, q_class = 1\<rparr>]"
proof -
  from assms benchQueries_ok have "ok_name (fst q)" "fst q \<noteq> []" by (auto simp: list_all_iff)
  with one_question_read [of "bench_query i q" "\<lparr>q_name = fst q, q_type = snd q, q_class = 1\<rparr>"]
  show ?thesis by (simp add: bench_packet_packs) (simp add: bench_query_def empty_message_def)
qed

subsection \<open>Tables\<close>

text \<open>A string that ends between two runes: what follows it is counted by itself.\<close>

definition whole_runes :: "string \<Rightarrow> bool" where
  "whole_runes s \<longleftrightarrow> (\<forall>t. rune_count (s @ t) = rune_count s + rune_count t)"

named_theorems whole_intros "strings that end between two runes"

lemma whole_append [whole_intros]: "whole_runes s \<Longrightarrow> whole_runes t \<Longrightarrow> whole_runes (s @ t)"
  by (simp add: whole_runes_def)

lemma whole_ascii [whole_intros]: "is_ascii s \<Longrightarrow> whole_runes s"
  by (simp add: whole_runes_def rune_count_ascii rune_count_ascii_append)

lemma whole_Cons: "ascii_char c \<Longrightarrow> whole_runes s \<Longrightarrow> whole_runes (c # s)"
  by (simp add: whole_runes_def)

lemma whole_concat: "list_all whole_runes ss \<Longrightarrow> whole_runes (concat ss)"
  by (induction ss) (simp_all add: whole_append whole_ascii is_ascii_def)

lemma rune_count_concat: "list_all whole_runes ss \<Longrightarrow> rune_count (concat ss) = sum_list (map rune_count ss)"
  by (induction ss) (simp_all add: whole_runes_def)

lemma of_char_char_of: "n < 256 \<Longrightarrow> (of_char (char_of n :: char) :: nat) = n"
  by (simp add: of_char_of)

lemma whole_uni_two:
  assumes "128 \<le> n" "n < 2048"
  shows "rune_count (uni n @ t) = Suc (rune_count t)"
proof -
  have "n div 64 < 32" "2 \<le> n div 64" "n mod 64 < 64" using assms by (auto simp: div_less_iff_less_mult div_le_mono [of 128 n 64, simplified])
  with assms show ?thesis
    by (simp add: uni_def rune_tail_def byte_in_def of_char_char_of Let_def)
qed

lemma whole_uni_three:
  assumes "2048 \<le> n" "n < 0xD000"
  shows "rune_count (uni n @ t) = Suc (rune_count t)"
proof -
  define a b c where "a = n div 4096" and "b = n div 64 mod 64" and "c = n mod 64"
  have "a < 13" "b < 64" "c < 64" "a = 0 \<Longrightarrow> 32 \<le> b"
    using assms unfolding a_def b_def c_def by (auto simp: div_less_iff_less_mult)
  then show ?thesis
    using assms by (simp add: uni_def rune_tail_def byte_in_def of_char_char_of Let_def flip: a_def b_def c_def)
qed

lemma uni_rune:
  assumes "128 \<le> n \<and> n < 2048 \<or> 2048 \<le> n \<and> n < 0xD000"
  shows "whole_runes (uni n) \<and> rune_count (uni n) = 1"
  using assms whole_uni_two [of n] whole_uni_three [of n]
  by (metis One_nat_def append_Nil2 plus_1_eq_Suc rune_count.simps(1) whole_runes_def)

lemma box_runes [simp]:
  "whole_runes (uni 0x2500)" "whole_runes (uni 0x250C)" "whole_runes (uni 0x252C)" "whole_runes (uni 0x2510)" "whole_runes bar"
  "rune_count (uni 0x2500) = 1" "rune_count (uni 0x250C) = 1" "rune_count (uni 0x252C) = 1"
  "rune_count (uni 0x2510) = 1" "rune_count bar = 1" "whole_runes micro" "rune_count micro = 1"
  unfolding bar_def micro_def using uni_rune by simp_all

lemma whole_rune_append: "whole_runes s \<Longrightarrow> rune_count (s @ t) = rune_count s + rune_count t"
  by (simp add: whole_runes_def)

lemma repeat_runes:
  assumes "whole_runes s"
  shows "whole_runes (repeat_str s n) \<and> rune_count (repeat_str s n) = n * rune_count s"
  using assms by (simp add: repeat_str_def whole_concat rune_count_concat list_all_iff sum_list_replicate)

lemma rune_count_sep:
  "rune_count (table_sep w k 0x250C 0x252C 0x2510 0x2500) = labelW + 4 + k * (w + 3)"
  using repeat_runes [of "uni 0x2500"] repeat_runes [of "uni 0x252C @ repeat_str (uni 0x2500) (w + 2)"]
  by (simp add: table_sep_def whole_rune_append whole_append algebra_simps)

lemma whole_cell: "whole_runes v \<Longrightarrow> whole_runes (cell v w)"
  by (simp add: cell_def pad_left_def whole_append whole_ascii)

lemma rune_count_cell: "rune_count (cell v w) = max (w + count_micro v) (rune_count v)"
  by (simp add: cell_def rune_count_pad_left)

lemma rune_count_row:
  assumes "is_ascii label" "length label \<le> labelW" "list_all whole_runes vs"
  shows "rune_count (table_row w label vs) =
    labelW + 4 + sum_list (map (\<lambda>v. 3 + max (w + count_micro v) (rune_count v)) vs)"
proof -
  have c: "whole_runes ('' '' @ bar @ '' '' @ cell v w)"
    "rune_count ('' '' @ bar @ '' '' @ cell v w) = 3 + max (w + count_micro v) (rune_count v)" if "whole_runes v" for v
    using that
    by (simp_all add: whole_append whole_Cons whole_cell ascii_char_def whole_rune_append rune_count_cell)
  define cells where "cells = map (\<lambda>v. '' '' @ bar @ '' '' @ cell v w) vs"
  have "list_all whole_runes cells" using assms(3) c(1) by (auto simp: cells_def list_all_iff)
  moreover have "map rune_count cells = map (\<lambda>v. 3 + max (w + count_micro v) (rune_count v)) vs"
    using assms(3) c(2) by (auto simp: cells_def list_all_iff)
  moreover have "is_ascii (pad_right labelW label)" "length (pad_right labelW label) = labelW"
    using assms(1,2) is_ascii_spaces [of "labelW - length label"] by (auto simp: pad_right_def rune_count_ascii is_ascii_def)
  ultimately show ?thesis
    unfolding table_row_def cells_def [symmetric]
    by (simp add: whole_rune_append whole_concat rune_count_concat rune_count_ascii_append is_ascii_def ascii_char_def)
qed

lemma micro_bytes: "micro = [char_of (194 :: nat), char_of (181 :: nat)]"
  by (simp add: micro_def uni_def)

lemma count_micro_skip: "ascii_char a \<Longrightarrow> count_micro (a # s) = count_micro s"
proof -
  assume "ascii_char a"
  then have "a \<noteq> char_of (194 :: nat)" by (auto simp: ascii_char_def of_char_char_of)
  then show ?thesis by (cases s) (simp_all add: micro_bytes)
qed

lemma count_micro_ascii_append: "is_ascii s \<Longrightarrow> count_micro (s @ t) = count_micro t"
  by (induction s) (simp_all add: count_micro_skip is_ascii_def)

lemma is_ascii_dec_string: "is_ascii (dec_string n)"
proof (induction n rule: dec_string.induct)
  case (1 n)
  have "ascii_char (char_of (n mod 10 + 48))" "n < 10 \<Longrightarrow> ascii_char (char_of (n + 48))"
    by (simp_all add: ascii_char_def of_char_char_of)
  with 1 show ?case by (subst dec_string.simps) (simp add: is_ascii_def)
qed

lemma length_dec_string: "n < 10 ^ Suc k \<Longrightarrow> length (dec_string n) \<le> Suc k"
proof (induction k arbitrary: n)
  case 0
  then show ?case by (subst dec_string.simps) simp
next
  case (Suc k)
  then have "n div 10 < 10 ^ Suc k" by (simp add: div_less_iff_less_mult)
  from Suc.IH [OF this] show ?case by (subst dec_string.simps) simp
qed

lemma fmtDur_micro:
  assumes "0 \<le> d" "d < millisecond"
  shows "whole_runes (fmtDur d) \<and> rune_count (fmtDur d) \<le> 16 \<and> count_micro (fmtDur d) = (if 0 < d then 1 else 0)"
proof (cases "d = 0")
  case True
  have "is_ascii ''---''" by (simp add: is_ascii_def ascii_char_def)
  then show ?thesis using True count_micro_ascii_append [of "''---''" "[]"]
    by (simp add: fmtDur_def whole_ascii rune_count_ascii)
next
  case False
  define t where "t = dec_string (nat (d div 1000))"
  have "d div 1000 < 1000" "0 \<le> d div 1000" using assms by (simp_all add: millisecond_def)
  then have t: "is_ascii t" "length t \<le> 3" "int_string (d sdiv 1000) = t"
    using assms False length_dec_string [of "nat (d div 1000)" 2]
    by (simp_all add: t_def is_ascii_dec_string int_string_def signed_divide_int_def)
  then have d: "fmtDur d = (t @ '' '') @ micro @ ''s''" using assms False by (simp add: fmtDur_def)
  have "is_ascii (t @ '' '')" "is_ascii ''s''" using t(1) by (simp_all add: is_ascii_def ascii_char_def)
  moreover from this have "whole_runes (fmtDur d)"
    unfolding d by (intro whole_append whole_ascii box_runes)
  ultimately show ?thesis using t(2) False assms(1)
    by (simp only: d rune_count_ascii_append whole_rune_append count_micro_ascii_append box_runes)
      (simp add: micro_bytes rune_count_ascii)
qed

text \<open>
  A row of latencies is longer than the table's rules by one column for every latency below a
  millisecond: \<open>cell\<close> allows for the second byte of the micro sign, but \<open>fmt\<close> counts runes.
\<close>

lemma sub_millisecond_shift:
  assumes "is_ascii label" "length label \<le> labelW" "list_all (\<lambda>d. 0 \<le> d \<and> d < millisecond) ds" "16 \<le> w"
  shows "rune_count (table_row w label (map fmtDur ds)) =
    rune_count (table_sep w (length ds) 0x250C 0x252C 0x2510 0x2500) + length (filter (\<lambda>d. 0 < d) ds)"
proof -
  have cols: "3 + max (w + count_micro (fmtDur d)) (rune_count (fmtDur d)) = w + 3 + (if 0 < d then 1 else 0)"
    if "d \<in> set ds" for d
    using fmtDur_micro [of d] that assms(3,4) by (auto simp: list_all_iff max_def)
  have "sum_list (map (\<lambda>d. w + 3 + (if 0 < d then 1 else 0)) ds) = length ds * (w + 3) + length (filter (\<lambda>d. 0 < d) ds)"
    by (induction ds) simp_all
  moreover have "list_all whole_runes (map fmtDur ds)"
    using assms(3) fmtDur_micro by (auto simp: list_all_iff)
  ultimately show ?thesis
    using rune_count_row [OF assms(1,2), of "map fmtDur ds" w] cols
    by (simp add: rune_count_sep comp_def cong: map_cong)
qed

end
