(* ===== verification/Spec2Isabelle.thy ===== *)
theory Spec2Isabelle
  imports MessageRoundtrip NameCodec CacheCapacity DomainFilter AccessControl RateLimiter RingLogs Outbound ZoneKeys RecordStore ResolveExamples Inflight SharedReply WireAnswers ServerProps Minecraft DashboardProps CommandProps Program Serving BenchProps
begin

text \<open>
  KmResolv is a recursive DNS resolver written in Go. This library models the code under
  \<open>src/internal\<close> and \<open>src/cmd\<close> and the benchmark \<open>src/bench.go\<close>, component by component, and proves
  what each promises and where it fails.

  How the program works. \<open>Server.Start\<close> reads datagrams and hands each to \<open>handleQuery\<close> in a goroutine
  of its own. The handler asks the access list and the rate limiter about the sender, parses the
  packet, asks the domain filter and the custom records about the name, and otherwise calls
  \<open>resolve\<close>. That looks into the negative and the positive cache, joins a resolution of the same
  name that is already running, or becomes its leader: it takes a place of the semaphore and
  resolves through a forwarded zone, through forwarders, or from the root servers down, with or
  without DNSSEC. Queries to other servers use pooled connections. What comes out is recorded in the
  cache, packed and sent, counted and logged. The dashboard reads the statistics and
  changes filter, records and settings; the commands of the command line are clients of the
  dashboard, except \<open>serve\<close>, which starts all of this.

  Theories and sources.

  \<^item> Shared: \<open>Prelude\<close> (bytes, words, big-endian accessors, int64 arithmetic, association lists),
    \<open>GoStrings\<close> (package strings on ASCII), \<open>GoEncoding\<close> (base64, hex, ParseUint), \<open>Float64\<close> (binary64
    rounding), \<open>NetIP\<close> (addresses and prefixes of package net), \<open>GoFlags\<close> (package flag), \<open>GoFormat\<close> (runes,
    padding and decimals of package fmt), \<open>Domains\<close> (names and their parents),
    \<open>ExpiringStore\<close> (the contract of a store whose entries expire, a locale).
  \<^item> \<open>internal/dns/message.go\<close>: \<open>DnsMessage\<close> (data and header flags), \<open>DnsParse\<close> (the parser; an access
    out of range is a panic value, and it never occurs), \<open>DnsPack\<close> (the writer with its compression
    map), \<open>WireName\<close>, \<open>DnsRoundtrip\<close>, \<open>MessageRoundtrip\<close>, \<open>NameCodec\<close> (round trips).
  \<^item> \<open>internal/cache/cache.go\<close>: \<open>Cache\<close> (shards, entries, every operation), \<open>CacheProps\<close> (histories of
    operations; what is served was stored, is fresh, and is prefetched once), \<open>CacheCapacity\<close> (bounds
    and eviction). Two interpretations of the contract of \<open>ExpiringStore\<close>: answers and negative entries.
  \<^item> \<open>internal/config\<close> and \<open>internal/logger\<close>: \<open>Config\<close>. \<open>internal/filter/filter.go\<close>: \<open>DomainFilter\<close>.
    \<open>internal/records/records.go\<close>: \<open>LocRecord\<close>, \<open>RecordRdata\<close> (one definition per record type),
    \<open>RecordStore\<close>. \<open>internal/updater/updater.go\<close>: \<open>Updater\<close>, \<open>Outbound\<close> (the
    reply of the API, and the dial of connpool.go over TLS).
  \<^item> \<open>internal/dnssec/dnssec.go\<close>: \<open>DnssecWire\<close> (rdata, key tags, canonical signed data), \<open>Dnssec\<close>
    (signatures, DS records, the chain of trust, the key cache), \<open>DnssecProps\<close>, \<open>ChainOfTrust\<close>,
    \<open>ZoneKeys\<close> (the key cache as a third store of the contract).
  \<^item> \<open>internal/server\<close>: \<open>AccessControl\<close> and \<open>RateLimiter\<close> (ratelimit.go), \<open>RingLogs\<close> (querylog.go and
    statshistory.go, two interpretations of one contract), \<open>ConnPool\<close> (connpool.go, with the step
    relation of its callers), \<open>Zones\<close> (the pure helpers of resolver.go), \<open>Upstream\<close> (queries),
    \<open>Resolver\<close> (iteration), \<open>ResolverSec\<close> (iteration with DNSSEC), \<open>Resolve\<close> (\<open>resolve\<close> and the prefetch
    function), \<open>ResolveProps\<close>, \<open>ResolveExamples\<close>, \<open>Inflight\<close> (the table of running resolutions and
    the semaphore as a step relation), \<open>ServerState\<close> (server.go without its handler), \<open>HandleQuery\<close> (the
    handler, whose last lines write into a message that several goroutines hold: a heap of messages
    and a schedule), \<open>SharedReply\<close> (what can come out of these writes), \<open>HandleProps\<close>,
    \<open>WireAnswers\<close> (what a client reads in the answer),
    \<open>ServerProps\<close> (administration as a state machine), \<open>Minecraft\<close> (minecraft.go), \<open>Interference\<close>
    (a locale for invariants of the shared world that every function of the resolver keeps when
    the environment does), \<open>Serving\<close> (the whole server as a state machine over datagrams, requests
    and ticks, with the accesses of other goroutines as a step relation of its own; the locale is
    interpreted on the states that accesses reach, and the bounds are an invariant of every access).
  \<^item> \<open>internal/dashboard/dashboard.go\<close>: \<open>Sessions\<close> (login challenges, a fourth store of the contract, and
    session cookies), \<open>Dashboard\<close> (authentication and every handler), \<open>DashboardProps\<close>.
  \<^item> \<open>cmd/kmresolv\<close>: \<open>CommandLine\<close> (cmd_cli.go, over any HTTP server), \<open>CommandProps\<close> (the commands
    against the modelled dashboard), \<open>Program\<close> (main.go, cmd_serve.go, and the start of server and
    dashboard with the goroutines that they leave running).
  \<^item> \<open>bench.go\<close>: \<open>Bench\<close> (queries, workers of a phase as a step relation, statistics, tables),
    \<open>BenchProps\<close>.

  State. A Go struct is a record with the source's fields; maps are association lists where their
  iteration order or size matters and functions otherwise. The record \<open>world\<close> holds what resolutions
  share (cache, pools, validator) and the server's own record. Network, clock, randomness and the
  work of other goroutines during a wait are the functions of the record \<open>env\<close>, which may change the
  whole world, so theorems without assumptions on \<open>env\<close> hold under every interference at those
  points. A theorem that assumes \<open>pure_clock\<close> assumes only that reading the clock changes nothing.

  Errors are values of a sum type with the source's errors as constructors, or their texts where
  the code decides by the text (\<open>resolve\<close> caches by it). A panic is a value of its own
  (\<open>ParsePanic\<close>, \<open>DnssecPanic\<close>, \<open>RecordPanic\<close>, \<open>Crashed\<close>, or \<open>None\<close> of an option).

  Bounds. Machine integers are words of their width; durations saturate or wrap as in package time.
  Recursion is structural or has a measure: the pointer loop of the name parser ends because a visited
  pointer is not followed again, \<open>resolveAt\<close> and \<open>resolveAtDNSSEC\<close> because the depth grows up to the
  configured limit. No fuel is used.

  What the groups of theorems show. Parsing is total and memory safe, and inverse to writing. The
  cache serves only what was stored last, while it is fresh, within its capacity, and prefetches an
  entry once at a time. Filter, access list, rate limiter, zones and records decide as their
  configurations say. A connection is in one place, and returns to its pool only behind its reply.
  DNSSEC accepts a zone's keys only below a matching DS record and a valid signature. At most one
  goroutine resolves a name at a time, and none waits for ever. A datagram gets at most one reply,
  with its own ID and questions, except that goroutines which share a resolution may mix theirs. A remote request without a session changes nothing, and a login
  challenge is good for one login. All bounds hold together in every state that a running server
  reaches. A command of the command line does what it prints, or the theorem says what else. A phase
  of the benchmark runs every query once, whatever the schedule, and ends. The theorems that are named as failures state, for the code as it is,
  what it does and should not do: they are listed as findings in the manifest.

  Not modelled. Unicode tables (strings outside ASCII give unspecified results of the case, space and
  field functions), ParseFloat of hexadecimal and special numbers, fused multiply-add, the
  primitives of the crypto packages (arguments), the YAML codec and the file system (arguments),
  the sockets and tickers themselves. Texts of package flag and of JSON errors and
  the JSON text of times are arguments; the dashboard that a command reaches is taken to be
  the one that listens, without TLS, at the URL it asks; the progress bar of the benchmark and the reading of its flags
  are left out. Goroutines interleave at the points that the step relations and \<open>env\<close> name; packing
  a message is one step, so is each administrative operation (except in \<open>Serving\<close>, where
  the configuration may change at any point), and what the handler writes into a message after the
  cache stored it (ID, three flags, questions) is not carried into the cache. The Java front end
  \<open>src/minecraft-server\<close> is another program that talks to the dashboard; it is left out.
\<close>

end
